theory Spec2Isabelle
  imports Main "HOL-Library.Sublist" "HOL-Library.AList"
begin

section \<open>JavaScript values and strings\<close>

text \<open>
  A string is the UTF-8 form of the JavaScript string, one character for each byte (a
  JavaScript string without unpaired surrogates has exactly one such form). The module
  looks for ASCII characters only (the line feed, the dollar sign, the text of the
  placeholders and of the markers), and a byte below \<open>0x80\<close> of the UTF-8 form is always
  an ASCII character of the string, so splitting, joining, replacing and the prefix test
  on the bytes are those on the string.
\<close>

definition nl :: string where
  "nl = [CHR 0x0A]"

text \<open>
  The white space and the line terminators of ECMAScript, which \<open>trim\<close> removes, in their
  UTF-8 forms: U+0009 to U+000D, U+0020, U+00A0, U+1680, U+2000 to U+200A, U+2028, U+2029,
  U+202F, U+205F, U+3000 and U+FEFF.
\<close>

definition whiteSpaces :: "string list" where
  "whiteSpaces =
     [[CHR 0x09], [CHR 0x0A], [CHR 0x0B], [CHR 0x0C], [CHR 0x0D], [CHR 0x20],
      [CHR 0xC2, CHR 0xA0], [CHR 0xE1, CHR 0x9A, CHR 0x80],
      [CHR 0xE2, CHR 0x80, CHR 0x80], [CHR 0xE2, CHR 0x80, CHR 0x81],
      [CHR 0xE2, CHR 0x80, CHR 0x82], [CHR 0xE2, CHR 0x80, CHR 0x83],
      [CHR 0xE2, CHR 0x80, CHR 0x84], [CHR 0xE2, CHR 0x80, CHR 0x85],
      [CHR 0xE2, CHR 0x80, CHR 0x86], [CHR 0xE2, CHR 0x80, CHR 0x87],
      [CHR 0xE2, CHR 0x80, CHR 0x88], [CHR 0xE2, CHR 0x80, CHR 0x89],
      [CHR 0xE2, CHR 0x80, CHR 0x8A], [CHR 0xE2, CHR 0x80, CHR 0xA8],
      [CHR 0xE2, CHR 0x80, CHR 0xA9], [CHR 0xE2, CHR 0x80, CHR 0xAF],
      [CHR 0xE2, CHR 0x81, CHR 0x9F], [CHR 0xE3, CHR 0x80, CHR 0x80],
      [CHR 0xEF, CHR 0xBB, CHR 0xBF]]"

text \<open>Removing from the front of a string, as long as there is one, a sequence of the
  list \<open>seqs\<close>.\<close>

fun strip_leading :: "string list \<Rightarrow> string \<Rightarrow> string" where
  "strip_leading seqs [] = []"
| "strip_leading seqs (c # cs) =
     (case find (\<lambda>ws. prefix ws (c # cs)) seqs of
        None \<Rightarrow> c # cs
      | Some ws \<Rightarrow> strip_leading seqs (drop (length ws - 1) cs))"

text \<open>A list of sequences none of which is empty or the beginning of another one.\<close>

definition prefix_free :: "string list \<Rightarrow> bool" where
  "prefix_free S = ([] \<notin> set S \<and> (\<forall>a \<in> set S. \<forall>b \<in> set S. prefix a b \<longrightarrow> a = b))"

definition trimStart :: "string \<Rightarrow> string" where
  "trimStart s = strip_leading whiteSpaces s"

definition trimEnd :: "string \<Rightarrow> string" where
  "trimEnd s = rev (strip_leading (map rev whiteSpaces) (rev s))"

definition trim :: "string \<Rightarrow> string" where
  "trim s = trimEnd (trimStart s)"

text \<open>
  \<open>toLowerCase\<close> changes the letters \<open>A\<close> to \<open>Z\<close> and leaves every other byte. The module
  only asks whether the lower-cased line starts with one of two ASCII markers, and a
  character outside the ASCII range never has a lower-case form that continues a marker:
  the only such forms with an ASCII letter are \<open>k\<close> (of the Kelvin sign), which is in
  neither marker, and \<open>i\<close> followed by a combining dot (of the dotted capital I).
\<close>

definition lowerChar :: "char \<Rightarrow> char" where
  "lowerChar c = (if 65 \<le> (of_char c :: nat) \<and> (of_char c :: nat) \<le> 90
     then char_of ((of_char c :: nat) + 32) else c)"

definition toLowerCase :: "string \<Rightarrow> string" where
  "toLowerCase s = map lowerChar s"

definition startsWith :: "string \<Rightarrow> string \<Rightarrow> bool" where
  "startsWith s p = prefix p s"

text \<open>Splitting a string at its line feeds: the pieces between the line feeds; the empty
  string gives one empty piece.\<close>

fun split_from :: "string \<Rightarrow> string \<Rightarrow> string list" where
  "split_from cur [] = [cur]"
| "split_from cur (c # cs) =
     (if c = CHR 0x0A then cur # split_from [] cs else split_from (cur @ [c]) cs)"

definition split_lines :: "string \<Rightarrow> string list" where
  "split_lines s = split_from [] s"

text \<open>\<open>xs.join(sep)\<close>.\<close>

fun join :: "string \<Rightarrow> string list \<Rightarrow> string" where
  "join sep [] = []"
| "join sep [x] = x"
| "join sep (x # y # ys) = x @ sep @ join sep (y # ys)"

text \<open>Truthiness of a value that is \<open>undefined\<close> or a string, \<open>a || b\<close> on such values,
  \<open>a ?? false\<close> on an optional boolean, and the conversion a template literal applies.\<close>

definition truthy :: "string option \<Rightarrow> bool" where
  "truthy v = (case v of None \<Rightarrow> False | Some s \<Rightarrow> s \<noteq> [])"

definition or_else :: "string option \<Rightarrow> string \<Rightarrow> string" where
  "or_else v d = (case v of None \<Rightarrow> d | Some s \<Rightarrow> if s = [] then d else s)"

definition or_false :: "bool option \<Rightarrow> bool" where
  "or_false v = (case v of None \<Rightarrow> False | Some b \<Rightarrow> b)"

definition ToString :: "string option \<Rightarrow> string" where
  "ToString v = (case v of None \<Rightarrow> ''undefined'' | Some s \<Rightarrow> s)"

text \<open>The prerelease mark of a branch is absent, a boolean, or the name of the prerelease
  channel.\<close>

datatype js_value = Undefined | Bool bool | Str string

fun ToBoolean :: "js_value \<Rightarrow> bool" where
  "ToBoolean Undefined = False"
| "ToBoolean (Bool b) = b"
| "ToBoolean (Str s) = (s \<noteq> [])"

subsection \<open>Objects with string values\<close>

text \<open>
  An object is the list of its own properties in creation order. \<open>obj[k] = v\<close>, for an
  object made by \<open>{}\<close> and a string \<open>v\<close>, is \<^const>\<open>AList.update\<close>: an existing key keeps
  its place. The key \<open>__proto__\<close> is the exception: it is an accessor of the prototype,
  whose setter ignores a value that is not an object, so the assignment creates no
  property. \<open>Object.entries\<close> lists the keys that are array indices (canonical decimal
  numerals below \<open>2^32 - 1\<close>) first, in ascending numeric order, then the other keys in
  creation order.
\<close>

type_synonym js_object = "(string \<times> string) list"

definition proto_key :: string where
  "proto_key = ''__proto__''"

definition set_property :: "string \<Rightarrow> string \<Rightarrow> js_object \<Rightarrow> js_object" where
  "set_property k v obj = (if k = proto_key then obj else AList.update k v obj)"

definition isDigit :: "char \<Rightarrow> bool" where
  "isDigit c = (48 \<le> (of_char c :: nat) \<and> (of_char c :: nat) \<le> 57)"

definition digitsValue :: "string \<Rightarrow> nat" where
  "digitsValue s = foldl (\<lambda>n c. 10 * n + ((of_char c :: nat) - 48)) 0 s"

definition isArrayIndex :: "string \<Rightarrow> bool" where
  "isArrayIndex s = (s \<noteq> [] \<and> list_all isDigit s \<and> (length s = 1 \<or> hd s \<noteq> CHR ''0'')
     \<and> digitsValue s < 4294967295)"

definition Object_entries :: "js_object \<Rightarrow> (string \<times> string) list" where
  "Object_entries obj =
     sort_key (\<lambda>kv. digitsValue (fst kv)) (filter (\<lambda>kv. isArrayIndex (fst kv)) obj)
     @ filter (\<lambda>kv. \<not> isArrayIndex (fst kv)) obj"

section \<open>Errors, configuration and the release context\<close>

datatype error = Error (error_message: string)

record next_release =
  version :: "string option"
  release_notes :: "string option"

record commit =
  message :: string

record branch_info =
  branch_name :: string
  branch_prerelease :: js_value

record release_context =
  nextRelease :: next_release
  commits :: "commit list"
  branch :: branch_info

record prerelease_config =
  pre_enabled :: "bool option"
  pre_changelog :: "bool option"
  pre_lastCommitText :: "bool option"
  pre_lastLine :: "string option"
  pre_message :: "string option"

record plugin_config =
  cfg_assets :: "js_object option"
  cfg_prerelease :: "prerelease_config option"
  cfg_changelog :: "bool option"
  cfg_lastCommitText :: "bool option"
  cfg_lastLine :: "string option"
  cfg_message :: "string option"

text \<open>The constants \<open>success\<close> computes from the configuration before it does anything
  (lines 17 to 24 of \<open>src/index.js\<close>).\<close>

record settings =
  rawAssets :: js_object
  isPrerelease :: bool
  prereleaseEnabled :: bool
  includeChangelog :: bool
  includeLastCommitText :: bool
  lastLine :: string
  rawMessageTemplate :: string

definition empty_prerelease_config :: prerelease_config where
  "empty_prerelease_config = \<lparr>pre_enabled = None, pre_changelog = None,
     pre_lastCommitText = None, pre_lastLine = None, pre_message = None\<rparr>"

definition read_settings :: "plugin_config \<Rightarrow> release_context \<Rightarrow> settings" where
  "read_settings pluginConfig ctx =
    (let isPre = ToBoolean (branch_prerelease (branch ctx));
         prereleaseConfig =
           (case cfg_prerelease pluginConfig of None \<Rightarrow> empty_prerelease_config | Some p \<Rightarrow> p)
     in \<lparr>rawAssets = (case cfg_assets pluginConfig of None \<Rightarrow> [] | Some a \<Rightarrow> a),
         isPrerelease = isPre,
         prereleaseEnabled = or_false (pre_enabled prereleaseConfig),
         includeChangelog =
           (if isPre then or_false (pre_changelog prereleaseConfig)
            else or_false (cfg_changelog pluginConfig)),
         includeLastCommitText =
           (if isPre then or_false (pre_lastCommitText prereleaseConfig)
            else or_false (cfg_lastCommitText pluginConfig)),
         lastLine =
           (if isPre then or_else (pre_lastLine prereleaseConfig) []
            else or_else (cfg_lastLine pluginConfig) []),
         rawMessageTemplate =
           (if isPre
            then or_else (pre_message prereleaseConfig)
                   (''Prerelease: '' @ ToString (version (nextRelease ctx)))
            else or_else (cfg_message pluginConfig)
                   (''New release: '' @ ToString (version (nextRelease ctx))))\<rparr>)"

section \<open>The template interpolator\<close>

text \<open>
  \<open>str.replace(/lit/g, repl)\<close> for a regular expression that matches the literal text
  \<open>lit\<close> and has no capture group. The replacement is a string, so JavaScript expands in it
  a dollar sign followed by a dollar sign to one dollar sign, by an ampersand to the matched
  text, by a backquote (0x60) to the text before the match and by an apostrophe (0x27) to
  the text after it; a dollar sign before anything else stands for itself.
\<close>

fun GetSubstitution :: "string \<Rightarrow> string \<Rightarrow> string \<Rightarrow> string \<Rightarrow> string" where
  "GetSubstitution matched pre post [] = []"
| "GetSubstitution matched pre post [c] = [c]"
| "GetSubstitution matched pre post (c # d # cs) =
     (if c = CHR ''$'' then
        (if d = CHR ''$'' then CHR ''$'' # GetSubstitution matched pre post cs
         else if d = CHR ''&'' then matched @ GetSubstitution matched pre post cs
         else if d = CHR 0x60 then pre @ GetSubstitution matched pre post cs
         else if d = CHR 0x27 then post @ GetSubstitution matched pre post cs
         else c # GetSubstitution matched pre post (d # cs))
      else c # GetSubstitution matched pre post (d # cs))"

text \<open>The scan from the left: \<open>pre\<close> is the part of the subject already passed.\<close>

fun replace_from :: "string \<Rightarrow> string \<Rightarrow> string \<Rightarrow> string \<Rightarrow> string" where
  "replace_from lit repl pre [] = []"
| "replace_from lit repl pre (c # cs) =
     (if prefix lit (c # cs)
      then GetSubstitution lit pre (drop (length lit - 1) cs) repl
             @ replace_from lit repl (pre @ lit) (drop (length lit - 1) cs)
      else c # replace_from lit repl (pre @ [c]) cs)"

text \<open>A replacement text without a replacement pattern: no dollar sign in it is followed
  by a dollar sign, an ampersand, a backquote or an apostrophe.\<close>

fun plain_replacement :: "string \<Rightarrow> bool" where
  "plain_replacement [] = True"
| "plain_replacement [c] = True"
| "plain_replacement (c # d # cs) =
     (\<not> (c = CHR ''$''
          \<and> (d = CHR ''$'' \<or> d = CHR ''&'' \<or> d = CHR 0x60 \<or> d = CHR 0x27))
      \<and> plain_replacement (d # cs))"

definition replace_global :: "string \<Rightarrow> string \<Rightarrow> string \<Rightarrow> string" where
  "replace_global lit repl s = replace_from lit repl [] s"

definition version_placeholder :: string where
  "version_placeholder = ''${nextRelease.version}''"

definition notes_placeholder :: string where
  "notes_placeholder = ''${nextRelease.notes}''"

definition interpolateString :: "next_release \<Rightarrow> string \<Rightarrow> string" where
  "interpolateString nr template =
     replace_global notes_placeholder (or_else (release_notes nr) [])
       (replace_global version_placeholder (or_else (version nr) []) template)"

section \<open>The last-commit excerpt and the message composer\<close>

text \<open>The callback of the \<open>filter\<close> call on the lines of the commit message.\<close>

definition keep_line :: "string \<Rightarrow> bool" where
  "keep_line line =
     (trim line \<noteq> []
      \<and> \<not> startsWith (toLowerCase (trim line)) ''signed-off-by:''
      \<and> \<not> startsWith (toLowerCase (trim line)) ''co-authored-by:'')"

definition lastCommitBody :: "settings \<Rightarrow> commit list \<Rightarrow> string" where
  "lastCommitBody cfg cs =
     (if includeLastCommitText cfg \<and> length cs > 0
      then (let lastCommitMessage = message (cs ! 0);
                commitLines = filter keep_line (drop 1 (split_lines lastCommitMessage))
            in trim (join nl commitLines))
      else [])"

definition description_heading :: string where
  "description_heading = ''*'' @ [CHR 0xF0, CHR 0x9F, CHR 0x93, CHR 0x96] @ '' Description:*'' @ nl"

definition changelog_heading :: string where
  "changelog_heading = ''*'' @ [CHR 0xF0, CHR 0x9F, CHR 0x93, CHR 0x9D] @ '' Changelog:*'' @ nl"

definition download_heading :: string where
  "download_heading =
     ''*'' @ [CHR 0xF0, CHR 0x9F, CHR 0x93, CHR 0xA5] @ '' Download Links:*'' @ nl"

definition formatMessage :: "settings \<Rightarrow> next_release \<Rightarrow> string \<Rightarrow> string" where
  "formatMessage cfg nr body =
    (let message0 = interpolateString nr (rawMessageTemplate cfg) @ nl @ nl;
         message1 = (if includeLastCommitText cfg \<and> body \<noteq> []
                     then message0 @ description_heading @ body @ nl @ nl else message0);
         message2 = (if includeChangelog cfg \<and> truthy (release_notes nr)
                     then message1 @ changelog_heading @ ToString (release_notes nr) @ nl @ nl
                     else message1)
     in message2)"

section \<open>The collaborators\<close>

text \<open>
  The calls made on the chat client, in the order they are made. The arguments are, for
  \<open>chat.postMessage\<close>: channel, text, thread\_ts; for \<open>files.uploadV2\<close>: the path the read
  stream is opened on, filename, title, initial\_comment, channel\_id, thread\_ts; for
  \<open>chat.update\<close>: channel, ts, text.
\<close>

datatype call =
    PostMessage string string "string option"
  | UploadV2 string string string string string "string option"
  | ChatUpdate string "string option" string

record post_response =
  ts :: string
  message_text :: string

record uploaded_file =
  file_id :: string
  url_private_download :: string

datatype completion = Completion "uploaded_file list option"

record upload_response =
  ok :: bool
  files :: "completion list option"

datatype log_entry = Log string | Warn string | LogError string

text \<open>
  Everything outside the module: the environment, the file system and the chat client.
  The answer of the chat client may depend on the calls made before; \<open>Inl\<close> is a call
  that throws. The glob expansion may throw as well. An answer that is returned has the
  fields the module reads: the initial post returns its \<open>ts\<close> and the text of the message,
  an uploaded file has its \<open>id\<close> and its \<open>url_private_download\<close>. The logger records
  the line and does not throw; the file system is the same for every entry of the upload
  loop.
\<close>

record world =
  SLACK_TOKEN :: "string option"
  SLACK_CHANNEL :: "string option"
  fastGlob :: "string \<Rightarrow> error + string list"
  existsSync :: "string \<Rightarrow> bool"
  path_resolve :: "string \<Rightarrow> string"
  path_basename :: "string \<Rightarrow> string"
  chat_postMessage :: "call list \<Rightarrow> call \<Rightarrow> error + post_response"
  files_uploadV2 :: "call list \<Rightarrow> call \<Rightarrow> error + upload_response"
  chat_update :: "call list \<Rightarrow> call \<Rightarrow> error + unit"

text \<open>The variables \<open>success\<close> mutates, with the calls made and the lines logged.\<close>

record state =
  calls :: "call list"
  logs :: "log_entry list"
  downloadLinks :: "string list"
  initialMessage :: "post_response option"
  threadTs :: "string option"

definition initial_state :: state where
  "initial_state = \<lparr>calls = [], logs = [], downloadLinks = [], initialMessage = None,
     threadTs = None\<rparr>"

definition logger :: "log_entry \<Rightarrow> state \<Rightarrow> state" where
  "logger l s = s\<lparr>logs := logs s @ [l]\<rparr>"

definition postMessage :: "world \<Rightarrow> call \<Rightarrow> state \<Rightarrow> (error + post_response) \<times> state" where
  "postMessage w c s = (chat_postMessage w (calls s) c, s\<lparr>calls := calls s @ [c]\<rparr>)"

definition uploadV2 :: "world \<Rightarrow> call \<Rightarrow> state \<Rightarrow> (error + upload_response) \<times> state" where
  "uploadV2 w c s = (files_uploadV2 w (calls s) c, s\<lparr>calls := calls s @ [c]\<rparr>)"

definition update :: "world \<Rightarrow> call \<Rightarrow> state \<Rightarrow> (error + unit) \<times> state" where
  "update w c s = (chat_update w (calls s) c, s\<lparr>calls := calls s @ [c]\<rparr>)"

section \<open>The asset resolver\<close>

fun resolve_loop ::
  "world \<Rightarrow> next_release \<Rightarrow> (string \<times> string) list \<Rightarrow> js_object \<Rightarrow> string list
     \<Rightarrow> error + js_object \<times> string list" where
  "resolve_loop w nr [] resolvedAssets missingAssets = Inr (resolvedAssets, missingAssets)"
| "resolve_loop w nr ((rawPath, label) # rest) resolvedAssets missingAssets =
     (let interpolatedPath = interpolateString nr rawPath in
      case fastGlob w interpolatedPath of
        Inl e \<Rightarrow> Inl e
      | Inr matchedFiles \<Rightarrow>
          if length matchedFiles = 0
          then resolve_loop w nr rest resolvedAssets (missingAssets @ [interpolatedPath])
          else resolve_loop w nr rest
                 (foldl (\<lambda>obj file. set_property file label obj) resolvedAssets matchedFiles)
                 missingAssets)"

definition assets_not_found :: "string list \<Rightarrow> error" where
  "assets_not_found missingAssets =
     Error (''The following required assets were not found:'' @ nl @ join nl missingAssets)"

definition resolveAssets :: "world \<Rightarrow> next_release \<Rightarrow> js_object \<Rightarrow> error + js_object" where
  "resolveAssets w nr raw =
     (case resolve_loop w nr (Object_entries raw) [] [] of
        Inl e \<Rightarrow> Inl e
      | Inr (resolvedAssets, missingAssets) \<Rightarrow>
          if length missingAssets > 0 then Inl (assets_not_found missingAssets)
          else Inr resolvedAssets)"

section \<open>The release publisher\<close>

text \<open>The test on the answer of an upload (lines 129 to 135): the uploaded file when the
  answer has the full shape.\<close>

definition uploadedFile :: "upload_response \<Rightarrow> uploaded_file option" where
  "uploadedFile fileResponse =
     (if ok fileResponse then
        (case files fileResponse of
           Some (Completion (Some (f # _)) # _) \<Rightarrow> Some f
         | _ \<Rightarrow> None)
      else None)"

definition download_link :: "string \<Rightarrow> uploaded_file \<Rightarrow> string" where
  "download_link label f =
     [CHR 0xE2, CHR 0x80, CHR 0xA2] @ '' *'' @ label @ ''*: <'' @ url_private_download f
       @ ''|Download>''"

definition file_not_found :: "string \<Rightarrow> error" where
  "file_not_found resolvedPath = Error (''Resolved file not found: '' @ resolvedPath)"

text \<open>The body of the upload loop for one entry of the resolved assets.\<close>

definition upload_asset ::
  "world \<Rightarrow> string \<Rightarrow> string \<times> string \<Rightarrow> state \<Rightarrow> (error + unit) \<times> state" where
  "upload_asset w slackChannel entry s =
    (let filePath = fst entry; label = snd entry;
         resolvedPath = path_resolve w filePath
     in if existsSync w resolvedPath then
          (let s1 = logger (Log (''Uploading '' @ label @ ''...'')) s in
           case uploadV2 w
                  (UploadV2 resolvedPath (path_basename w resolvedPath) label
                     ([CHR 0xF0, CHR 0x9F, CHR 0x93, CHR 0x8E] @ '' '' @ label)
                     slackChannel (threadTs s1)) s1 of
             (Inl e, s2) \<Rightarrow> (Inl e, s2)
           | (Inr fileResponse, s2) \<Rightarrow>
               (case uploadedFile fileResponse of
                  Some f \<Rightarrow>
                    (let s3 = logger (Log (''Uploaded '' @ label @ '': '' @ file_id f)) s2
                     in (Inr (), s3\<lparr>downloadLinks := downloadLinks s3 @ [download_link label f]\<rparr>))
                | None \<Rightarrow> (Inr (), logger (LogError (''Failed to upload '' @ label @ ''.'')) s2)))
        else (Inl (file_not_found resolvedPath), s))"

fun upload_loop ::
  "world \<Rightarrow> string \<Rightarrow> (string \<times> string) list \<Rightarrow> state \<Rightarrow> (error + unit) \<times> state" where
  "upload_loop w slackChannel [] s = (Inr (), s)"
| "upload_loop w slackChannel (entry # rest) s =
     (case upload_asset w slackChannel entry s of
        (Inl e, s') \<Rightarrow> (Inl e, s')
      | (Inr u, s') \<Rightarrow> upload_loop w slackChannel rest s')"

definition updatedMessage :: "settings \<Rightarrow> next_release \<Rightarrow> string \<Rightarrow> string list \<Rightarrow> string" where
  "updatedMessage cfg nr body links =
     (let m = formatMessage cfg nr body @ download_heading @ join nl links
      in if lastLine cfg \<noteq> [] then m @ nl @ nl @ lastLine cfg else m)"

definition update_step ::
  "world \<Rightarrow> string \<Rightarrow> settings \<Rightarrow> next_release \<Rightarrow> string \<Rightarrow> state \<Rightarrow> (error + unit) \<times> state" where
  "update_step w slackChannel cfg nr body s =
     (if length (downloadLinks s) > 0 then
        (case update w
                (ChatUpdate slackChannel (threadTs s) (updatedMessage cfg nr body (downloadLinks s)))
                s of
           (Inl e, s1) \<Rightarrow> (Inl e, s1)
         | (Inr u, s1) \<Rightarrow>
             (Inr (), logger (Log ''Release message updated with download links and last line.'') s1))
      else (Inr (),
            logger (Warn ''No files uploaded. The initial message was not updated.'') s))"

text \<open>The \<open>try\<close> block (lines 67 to 167): its outcome, \<open>Inl\<close> for the exception that leaves
  it, and the state at that moment.\<close>

definition try_block ::
  "world \<Rightarrow> string \<Rightarrow> settings \<Rightarrow> release_context \<Rightarrow> state \<Rightarrow> (error + unit) \<times> state" where
  "try_block w slackChannel cfg ctx s =
    (case resolveAssets w (nextRelease ctx) (rawAssets cfg) of
       Inl e \<Rightarrow> (Inl e, s)
     | Inr assets \<Rightarrow>
        (let body = lastCommitBody cfg (commits ctx) in
         case postMessage w
                (PostMessage slackChannel (formatMessage cfg (nextRelease ctx) body) None) s of
           (Inl e, s1) \<Rightarrow> (Inl e, s1)
         | (Inr r, s1) \<Rightarrow>
            (let s2 = s1\<lparr>initialMessage := Some r\<rparr>;
                 s3 = logger (Log ('':rocket: Initial release message sent: '' @ ts r)) s2;
                 s4 = s3\<lparr>threadTs := Some (ts r)\<rparr>
             in case upload_loop w slackChannel (Object_entries assets) s4 of
                  (Inl e, s5) \<Rightarrow> (Inl e, s5)
                | (Inr u, s5) \<Rightarrow> update_step w slackChannel cfg (nextRelease ctx) body s5)))"

definition error_reply :: "string \<Rightarrow> string \<Rightarrow> error \<Rightarrow> call" where
  "error_reply slackChannel thread err =
     PostMessage slackChannel
       ('':x: An error occurred during the release process:'' @ nl @ [CHR 0x60]
          @ error_message err @ [CHR 0x60])
       (Some thread)"

definition caution_suffix :: string where
  "caution_suffix = nl @ nl
     @ '':x: *An issue occurred with this release. Users are advised NOT to use this version.*''"

definition caution_update :: "string \<Rightarrow> post_response \<Rightarrow> call" where
  "caution_update slackChannel m =
     ChatUpdate slackChannel (Some (ts m)) (message_text m @ caution_suffix)"

text \<open>The \<open>catch\<close> block (lines 168 to 193). It never returns normally: the result is the
  exception that leaves it.\<close>

definition catch_block :: "world \<Rightarrow> string \<Rightarrow> error \<Rightarrow> state \<Rightarrow> error \<times> state" where
  "catch_block w slackChannel err s =
    (let s1 = logger (LogError (''Error during file upload or message update: ''
                 @ error_message err)) s;
         replied =
           (if truthy (threadTs s1)
            then (case postMessage w (error_reply slackChannel (ToString (threadTs s1)) err) s1 of
                    (Inl e, s2) \<Rightarrow> (Inl e, s2)
                  | (Inr r, s2) \<Rightarrow> (Inr (), s2))
            else (Inr (), s1))
     in case replied of
          (Inl e, s2) \<Rightarrow> (e, s2)
        | (Inr u, s2) \<Rightarrow>
            (case initialMessage s2 of
               None \<Rightarrow> (err, s2)
             | Some m \<Rightarrow>
                 (case update w (caution_update slackChannel m) s2 of
                    (Inl e, s3) \<Rightarrow> (e, s3)
                  | (Inr u, s3) \<Rightarrow> (err, s3))))"

definition credentials_error :: error where
  "credentials_error =
     Error ''SLACK_TOKEN or SLACK_CHANNEL is not set in the environment variables.''"

definition success :: "world \<Rightarrow> plugin_config \<Rightarrow> release_context \<Rightarrow> (error + unit) \<times> state" where
  "success w pluginConfig ctx =
    (if \<not> truthy (SLACK_TOKEN w) \<or> \<not> truthy (SLACK_CHANNEL w)
     then (Inl credentials_error, initial_state)
     else
       (let slackChannel = ToString (SLACK_CHANNEL w);
            cfg = read_settings pluginConfig ctx
        in if \<not> prereleaseEnabled cfg \<and> isPrerelease cfg
           then (Inr (),
                 logger (Log (''Skipping release for prerelease branch: ''
                    @ branch_name (branch ctx))) initial_state)
           else
             (case try_block w slackChannel cfg ctx initial_state of
                (Inr u, s) \<Rightarrow> (Inr (), s)
              | (Inl e, s) \<Rightarrow>
                  (case catch_block w slackChannel e s of (e', s') \<Rightarrow> (Inl e', s')))))"

section \<open>Example runs\<close>

text \<open>The release, configuration and collaborators of a run in which one declared asset
  is found, uploaded and linked, and variants of it.\<close>

definition demo_release :: next_release where
  "demo_release = \<lparr>version = Some ''1.2.0'', release_notes = Some ''fix bug''\<rparr>"

definition demo_context :: release_context where
  "demo_context = \<lparr>nextRelease = demo_release,
     commits = [\<lparr>message =
        ''fix: bug'' @ nl @ nl @ ''Details here'' @ nl @ ''Signed-off-by: X''\<rparr>],
     branch = \<lparr>branch_name = ''main'', branch_prerelease = Bool False\<rparr>\<rparr>"

definition beta_context :: release_context where
  "beta_context =
     demo_context\<lparr>branch := \<lparr>branch_name = ''beta'', branch_prerelease = Str ''beta''\<rparr>\<rparr>"

definition demo_config :: plugin_config where
  "demo_config = \<lparr>cfg_assets = Some [(''dist/app.bin'', ''Binary'')], cfg_prerelease = None,
     cfg_changelog = Some True, cfg_lastCommitText = Some True, cfg_lastLine = None,
     cfg_message = None\<rparr>"

definition demo_file :: uploaded_file where
  "demo_file = \<lparr>file_id = ''F1'', url_private_download = ''https://files/F1''\<rparr>"

definition demo_world :: world where
  "demo_world = \<lparr>SLACK_TOKEN = Some ''xoxb-1'', SLACK_CHANNEL = Some ''C01'',
     fastGlob = (\<lambda>p. if p = ''dist/app.bin'' then Inr [''dist/app.bin''] else Inr []),
     existsSync = (\<lambda>p. p = ''/w/dist/app.bin''),
     path_resolve = (\<lambda>p. ''/w/'' @ p),
     path_basename = (\<lambda>p. ''app.bin''),
     chat_postMessage = (\<lambda>h c. Inr \<lparr>ts = ''17.1'',
        message_text = (case c of PostMessage ch t th \<Rightarrow> t | _ \<Rightarrow> [])\<rparr>),
     files_uploadV2 =
       (\<lambda>h c. Inr \<lparr>ok = True, files = Some [Completion (Some [demo_file])]\<rparr>),
     chat_update = (\<lambda>h c. Inr ())\<rparr>"

section \<open>The specification's words, as functions\<close>

text \<open>
  Replacement of every occurrence of a literal by a text that is inserted as it is, scanning
  from the left.
\<close>

fun spec_replace_all :: "string \<Rightarrow> string \<Rightarrow> string \<Rightarrow> string" where
  "spec_replace_all lit val [] = []"
| "spec_replace_all lit val (c # cs) =
     (if prefix lit (c # cs) then val @ spec_replace_all lit val (drop (length lit - 1) cs)
      else c # spec_replace_all lit val cs)"

text \<open>
  Interpolation as section 4.1 words it: every occurrence of either placeholder in the
  template is replaced by its value, and all other text of the template is left as it is.
\<close>

fun spec_interpolate :: "string \<Rightarrow> string \<Rightarrow> string \<Rightarrow> string" where
  "spec_interpolate v n [] = []"
| "spec_interpolate v n (c # cs) =
     (if prefix version_placeholder (c # cs)
      then v @ spec_interpolate v n (drop (length version_placeholder - 1) cs)
      else if prefix notes_placeholder (c # cs)
      then n @ spec_interpolate v n (drop (length notes_placeholder - 1) cs)
      else c # spec_interpolate v n cs)"

text \<open>
  A template given by its pieces: text without a dollar sign, the two placeholders, and a
  placeholder of another name (a dollar sign, the name in braces).
\<close>

datatype piece = Lit string | Version | Notes | Other string

fun piece_source :: "piece \<Rightarrow> string" where
  "piece_source (Lit s) = s"
| "piece_source Version = version_placeholder"
| "piece_source Notes = notes_placeholder"
| "piece_source (Other name) = ''${'' @ name @ ''}''"

fun piece_value :: "next_release \<Rightarrow> piece \<Rightarrow> string" where
  "piece_value nr (Lit s) = s"
| "piece_value nr Version = or_else (version nr) []"
| "piece_value nr Notes = or_else (release_notes nr) []"
| "piece_value nr (Other name) = ''${'' @ name @ ''}''"

fun plain_piece :: "piece \<Rightarrow> bool" where
  "plain_piece (Lit s) = (CHR ''$'' \<notin> set s)"
| "plain_piece Version = True"
| "plain_piece Notes = True"
| "plain_piece (Other name) =
     (CHR ''$'' \<notin> set name \<and> CHR ''}'' \<notin> set name
      \<and> name \<noteq> ''nextRelease.version'' \<and> name \<noteq> ''nextRelease.notes'')"

definition template_of :: "piece list \<Rightarrow> string" where
  "template_of ps = concat (map piece_source ps)"

text \<open>
  The last-commit excerpt as section 4.4 words it: the lines of the message after the
  first, without the blank lines and without the trailer lines, joined by line feeds and
  trimmed. The lines of a text are read from its end: a line feed opens a new line before
  the lines read so far. A line is blank when it is made of white space only.
\<close>

definition spec_lines :: "string \<Rightarrow> string list" where
  "spec_lines s =
     foldr (\<lambda>c ls. if c = CHR 0x0A then [] # ls else (c # hd ls) # tl ls) s [[]]"

fun spec_unlines :: "string list \<Rightarrow> string" where
  "spec_unlines [] = []"
| "spec_unlines (l # ls) = l @ concat (map (\<lambda>x. CHR 0x0A # x) ls)"

fun spec_is_blank :: "string \<Rightarrow> bool" where
  "spec_is_blank [] = True"
| "spec_is_blank (c # cs) =
     (case find (\<lambda>ws. prefix ws (c # cs)) whiteSpaces of
        None \<Rightarrow> False
      | Some ws \<Rightarrow> spec_is_blank (drop (length ws - 1) cs))"

definition spec_is_trailer :: "string \<Rightarrow> bool" where
  "spec_is_trailer line =
     (prefix ''signed-off-by:'' (toLowerCase (trim line))
      \<or> prefix ''co-authored-by:'' (toLowerCase (trim line)))"

definition spec_excerpt :: "string \<Rightarrow> string" where
  "spec_excerpt msg =
     trim (spec_unlines (filter (\<lambda>l. \<not> spec_is_trailer l)
       (filter (\<lambda>l. \<not> spec_is_blank l) (tl (spec_lines msg)))))"

text \<open>
  The resolver as section 4.2 words it. A declaration matches a file when the glob
  expansion of its interpolated pattern yields the file; the label of a file is the label
  of the last declaration that matches it (last write wins, section 3); the missing
  patterns are the interpolated patterns whose expansion is empty, one for each such
  declaration, in the order of the declarations.
\<close>

definition spec_matches :: "world \<Rightarrow> next_release \<Rightarrow> string \<Rightarrow> string \<times> string \<Rightarrow> bool" where
  "spec_matches w nr file entry =
     (case fastGlob w (interpolateString nr (fst entry)) of
        Inl e \<Rightarrow> False
      | Inr matched \<Rightarrow> file \<in> set matched)"

definition spec_label ::
  "world \<Rightarrow> next_release \<Rightarrow> (string \<times> string) list \<Rightarrow> string \<Rightarrow> string option" where
  "spec_label w nr entries file =
     (case filter (spec_matches w nr file) (rev entries) of
        [] \<Rightarrow> None
      | entry # others \<Rightarrow> Some (snd entry))"

definition spec_missing :: "world \<Rightarrow> next_release \<Rightarrow> (string \<times> string) list \<Rightarrow> string list" where
  "spec_missing w nr entries =
     filter (\<lambda>p. fastGlob w p = Inr []) (map (\<lambda>entry. interpolateString nr (fst entry)) entries)"

text \<open>Two declarations whose patterns match the same file, and a declaration that matches
  nothing.\<close>

definition overlap_world :: world where
  "overlap_world = demo_world\<lparr>fastGlob :=
     (\<lambda>p. if p = ''a*'' \<or> p = ''*b'' then Inr [''ab''] else Inr [])\<rparr>"

definition missing_config :: plugin_config where
  "missing_config = demo_config\<lparr>cfg_assets := Some [(''x'', ''X''), (''dist/app.bin'', ''Binary''),
     (''y-${nextRelease.version}'', ''Y'')]\<rparr>"

text \<open>
  Names for what the run does, used to state its properties: the call of the initial
  post, the state in which the upload loop starts once the initial post has been answered
  by \<open>r\<close> (lines 104 to 111), and the upload call for an entry of the resolved assets.
\<close>

definition initial_post :: "string \<Rightarrow> settings \<Rightarrow> release_context \<Rightarrow> call" where
  "initial_post slackChannel cfg ctx =
     PostMessage slackChannel
       (formatMessage cfg (nextRelease ctx) (lastCommitBody cfg (commits ctx))) None"

definition started :: "string \<Rightarrow> settings \<Rightarrow> release_context \<Rightarrow> post_response \<Rightarrow> state" where
  "started slackChannel cfg ctx r =
     \<lparr>calls = [initial_post slackChannel cfg ctx],
      logs = [Log ('':rocket: Initial release message sent: '' @ ts r)],
      downloadLinks = [], initialMessage = Some r, threadTs = Some (ts r)\<rparr>"

definition upload_call :: "world \<Rightarrow> string \<Rightarrow> string \<times> string \<Rightarrow> string option \<Rightarrow> call" where
  "upload_call w slackChannel entry thread =
     UploadV2 (path_resolve w (fst entry)) (path_basename w (path_resolve w (fst entry)))
       (snd entry) ([CHR 0xF0, CHR 0x9F, CHR 0x93, CHR 0x8E] @ '' '' @ snd entry)
       slackChannel thread"

fun is_update :: "call \<Rightarrow> bool" where
  "is_update (ChatUpdate c t x) = True"
| "is_update (PostMessage c x t) = False"
| "is_update (UploadV2 f n t i c th) = False"

fun is_upload :: "call \<Rightarrow> bool" where
  "is_upload (UploadV2 f n t i c th) = True"
| "is_upload (PostMessage c x t) = False"
| "is_upload (ChatUpdate c t x) = False"

text \<open>
  The recovery of section 4.5 in the state \<open>s\<close> in which the \<open>try\<close> block was left with the
  error \<open>err\<close>: the reply in the thread if there is a thread identifier, then the overwrite
  of the original message if there is an initial message. A call returns when the chat
  client answers it without throwing; the calls of a list all return when each of them
  returns after the calls before it.
\<close>

definition spec_recovery :: "string \<Rightarrow> error \<Rightarrow> state \<Rightarrow> call list" where
  "spec_recovery slackChannel err s =
     (if truthy (threadTs s) then [error_reply slackChannel (ToString (threadTs s)) err] else [])
     @ (case initialMessage s of None \<Rightarrow> [] | Some m \<Rightarrow> [caution_update slackChannel m])"

fun returns :: "world \<Rightarrow> call list \<Rightarrow> call \<Rightarrow> bool" where
  "returns w h (PostMessage c x t) =
     (case chat_postMessage w h (PostMessage c x t) of Inl e \<Rightarrow> False | Inr r \<Rightarrow> True)"
| "returns w h (UploadV2 f n t i c th) =
     (case files_uploadV2 w h (UploadV2 f n t i c th) of Inl e \<Rightarrow> False | Inr r \<Rightarrow> True)"
| "returns w h (ChatUpdate c t x) =
     (case chat_update w h (ChatUpdate c t x) of Inl e \<Rightarrow> False | Inr r \<Rightarrow> True)"

fun all_return :: "world \<Rightarrow> call list \<Rightarrow> call list \<Rightarrow> bool" where
  "all_return w h [] = True"
| "all_return w h (c # cs) = (returns w h c \<and> all_return w (h @ [c]) cs)"

text \<open>Worlds in which a call on the chat client throws.\<close>

definition upload_fails_world :: world where
  "upload_fails_world = demo_world\<lparr>files_uploadV2 := (\<lambda>h c. Inl (Error ''upload failed''))\<rparr>"

definition reply_fails_world :: world where
  "reply_fails_world = upload_fails_world\<lparr>chat_postMessage :=
     (\<lambda>h c. case c of
        PostMessage ch t None \<Rightarrow> Inr \<lparr>ts = ''17.1'', message_text = t\<rparr>
      | _ \<Rightarrow> Inl (Error ''reply failed''))\<rparr>"

definition vanished_world :: world where
  "vanished_world = demo_world\<lparr>existsSync := (\<lambda>p. False)\<rparr>"

definition anomalous_world :: world where
  "anomalous_world = demo_world\<lparr>files_uploadV2 := (\<lambda>h c. Inr \<lparr>ok = False, files = None\<rparr>)\<rparr>"

text \<open>A run with two declared assets and a last line, and variants of its world: one in
  which the answer to the first upload has not the full shape, one in which the first
  update call throws, and one in which the file has vanished and the reply in the thread
  throws.\<close>

definition two_config :: plugin_config where
  "two_config = demo_config\<lparr>cfg_assets := Some [(''a.bin'', ''A''), (''b.bin'', ''B'')],
     cfg_lastLine := Some ''Bye''\<rparr>"

definition uploaded_as :: "string \<Rightarrow> uploaded_file" where
  "uploaded_as title = \<lparr>file_id = ''F-'' @ title,
     url_private_download = ''https://files/'' @ title\<rparr>"

definition two_world :: world where
  "two_world = demo_world\<lparr>
     fastGlob := (\<lambda>p. if p = ''a.bin'' \<or> p = ''b.bin'' then Inr [p] else Inr []),
     existsSync := (\<lambda>p. True),
     path_basename := (\<lambda>p. drop 3 p),
     files_uploadV2 := (\<lambda>h c. case c of
        UploadV2 f n t i ch th \<Rightarrow>
          Inr \<lparr>ok = True, files = Some [Completion (Some [uploaded_as t])]\<rparr>
      | _ \<Rightarrow> Inl (Error ''not an upload''))\<rparr>"

definition mixed_world :: world where
  "mixed_world = two_world\<lparr>files_uploadV2 := (\<lambda>h c. case c of
        UploadV2 f n t i ch th \<Rightarrow>
          (if t = ''A'' then Inr \<lparr>ok = True, files = Some []\<rparr>
           else Inr \<lparr>ok = True, files = Some [Completion (Some [uploaded_as t])]\<rparr>)
      | _ \<Rightarrow> Inl (Error ''not an upload''))\<rparr>"

definition first_update_fails_world :: world where
  "first_update_fails_world = demo_world\<lparr>chat_update :=
     (\<lambda>h c. if filter is_update h = [] then Inl (Error ''update failed'') else Inr ())\<rparr>"

definition vanished_reply_fails_world :: world where
  "vanished_reply_fails_world = reply_fails_world\<lparr>existsSync := (\<lambda>p. False)\<rparr>"

section \<open>The credentials check and the entry guard\<close>

lemma truthy_simps:
  "truthy None = False" "truthy (Some s) = (s \<noteq> [])"
  by (simp_all add: truthy_def)

lemma success_without_credentials:
  "\<not> truthy (SLACK_TOKEN w) \<or> \<not> truthy (SLACK_CHANNEL w) \<Longrightarrow>
     success w pluginConfig ctx = (Inl credentials_error, initial_state)"
  by (simp add: success_def)

lemma success_skip:
  assumes "truthy (SLACK_TOKEN w)" and "truthy (SLACK_CHANNEL w)"
    and "isPrerelease (read_settings pluginConfig ctx)"
    and "\<not> prereleaseEnabled (read_settings pluginConfig ctx)"
  shows "success w pluginConfig ctx =
     (Inr (), logger (Log (''Skipping release for prerelease branch: ''
        @ branch_name (branch ctx))) initial_state)"
  using assms by (simp add: success_def Let_def)

lemma beta_settings:
  "isPrerelease (read_settings demo_config beta_context)"
  "\<not> prereleaseEnabled (read_settings demo_config beta_context)"
  by (simp_all add: read_settings_def demo_config_def beta_context_def demo_context_def
      empty_prerelease_config_def or_false_def Let_def)

text \<open>
  C10. The credentials are checked before the entry guard. When \<open>SLACK_TOKEN\<close> or
  \<open>SLACK_CHANNEL\<close> is unset (or empty), \<open>success\<close> throws the configuration error for
  every configuration and every release context, so also on a prerelease branch with
  prerelease support disabled; no call is made on the chat client, nothing is logged and
  no variable of the run is set, since the \<open>catch\<close> block is not entered.
\<close>

theorem credentials_checked_first:
  assumes "SLACK_TOKEN w \<in> {None, Some []} \<or> SLACK_CHANNEL w \<in> {None, Some []}"
  shows "success w pluginConfig ctx =
     (Inl (Error ''SLACK_TOKEN or SLACK_CHANNEL is not set in the environment variables.''),
      \<lparr>calls = [], logs = [], downloadLinks = [], initialMessage = None, threadTs = None\<rparr>)"
proof -
  from assms have "\<not> truthy (SLACK_TOKEN w) \<or> \<not> truthy (SLACK_CHANNEL w)"
    by (auto simp: truthy_def)
  then show ?thesis
    by (simp add: success_without_credentials credentials_error_def initial_state_def)
qed

theorem credentials_checked_first_witness:
  "isPrerelease (read_settings demo_config beta_context)
   \<and> \<not> prereleaseEnabled (read_settings demo_config beta_context)
   \<and> success (demo_world\<lparr>SLACK_CHANNEL := None\<rparr>) demo_config beta_context =
     (Inl (Error ''SLACK_TOKEN or SLACK_CHANNEL is not set in the environment variables.''),
      \<lparr>calls = [], logs = [], downloadLinks = [], initialMessage = None, threadTs = None\<rparr>)"
  using credentials_checked_first [of "demo_world\<lparr>SLACK_CHANNEL := None\<rparr>" demo_config beta_context]
  by (simp add: beta_settings)

text \<open>
  C3, as stated, fails: on a prerelease branch with prerelease support disabled the
  invocation does not return normally when a credential is missing.
\<close>

theorem prerelease_skip_counterexample:
  "isPrerelease (read_settings demo_config beta_context)
   \<and> \<not> prereleaseEnabled (read_settings demo_config beta_context)
   \<and> fst (success (demo_world\<lparr>SLACK_TOKEN := None\<rparr>) demo_config beta_context)
       = Inl credentials_error"
  by (simp add: beta_settings success_without_credentials truthy_simps)

text \<open>
  C3, amended. With both credentials set, on a branch marked prerelease with prerelease
  support disabled, \<open>success\<close> returns normally; it makes no call on the chat client and
  logs one line that names the branch.
\<close>

theorem prerelease_skip:
  assumes "truthy (SLACK_TOKEN w)" and "truthy (SLACK_CHANNEL w)"
    and "isPrerelease (read_settings pluginConfig ctx)"
    and "\<not> prereleaseEnabled (read_settings pluginConfig ctx)"
  shows "success w pluginConfig ctx =
     (Inr (),
      \<lparr>calls = [],
       logs = [Log (''Skipping release for prerelease branch: '' @ branch_name (branch ctx))],
       downloadLinks = [], initialMessage = None, threadTs = None\<rparr>)"
  using success_skip [OF assms] by (simp add: logger_def initial_state_def)

theorem prerelease_skip_witness:
  "truthy (SLACK_TOKEN demo_world) \<and> truthy (SLACK_CHANNEL demo_world)
   \<and> isPrerelease (read_settings demo_config beta_context)
   \<and> \<not> prereleaseEnabled (read_settings demo_config beta_context)
   \<and> success demo_world demo_config beta_context =
     (Inr (),
      \<lparr>calls = [], logs = [Log ''Skipping release for prerelease branch: beta''],
       downloadLinks = [], initialMessage = None, threadTs = None\<rparr>)"
proof -
  have c: "truthy (SLACK_TOKEN demo_world)" "truthy (SLACK_CHANNEL demo_world)"
    by (simp_all add: demo_world_def truthy_simps)
  have n: "branch_name (branch beta_context) = ''beta''"
    by (simp add: beta_context_def)
  show ?thesis
    using prerelease_skip [OF c beta_settings] c beta_settings by (simp add: n)
qed

section \<open>The template interpolator: properties\<close>

lemma GetSubstitution_plain:
  "plain_replacement repl \<Longrightarrow> GetSubstitution matched pre post repl = repl"
  by (induction matched pre post repl rule: GetSubstitution.induct) auto

lemma dollar_free_plain: "CHR ''$'' \<notin> set s \<Longrightarrow> plain_replacement s"
  by (induction s rule: plain_replacement.induct) auto

lemma replace_from_plain:
  "plain_replacement repl \<Longrightarrow> replace_from lit repl pre s = spec_replace_all lit repl s"
  by (induction lit repl pre s rule: replace_from.induct) (simp_all add: GetSubstitution_plain)

lemma replace_global_plain:
  "plain_replacement repl \<Longrightarrow> replace_global lit repl s = spec_replace_all lit repl s"
  by (simp add: replace_global_def replace_from_plain)

lemma prefix_dollar_free:
  "CHR ''$'' \<notin> set s \<Longrightarrow> \<not> prefix (CHR ''$'' # l) (s @ t) \<or> s = []"
  by (cases s) auto

lemma replace_from_no_dollar:
  "CHR ''$'' \<notin> set s \<Longrightarrow> replace_from (CHR ''$'' # l) repl pre s = s"
  by (induction s arbitrary: pre) auto

lemma spec_replace_all_skip:
  "CHR ''$'' \<notin> set u \<Longrightarrow>
     spec_replace_all (CHR ''$'' # l) val (u @ rest) = u @ spec_replace_all (CHR ''$'' # l) val rest"
  by (induction u) auto

lemma spec_replace_all_hit:
  "lit \<noteq> [] \<Longrightarrow> spec_replace_all lit val (lit @ rest) = val @ spec_replace_all lit val rest"
  by (cases lit) auto

lemma placeholders_unfold:
  "version_placeholder = CHR ''$'' # ''{nextRelease.version}''"
  "notes_placeholder = CHR ''$'' # ''{nextRelease.notes}''"
  by (simp_all add: version_placeholder_def notes_placeholder_def)

lemma version_pass_over_notes:
  "spec_replace_all version_placeholder val (notes_placeholder @ rest)
     = notes_placeholder @ spec_replace_all version_placeholder val rest"
proof -
  have "spec_replace_all version_placeholder val (notes_placeholder @ rest)
      = CHR ''$'' # spec_replace_all version_placeholder val (''{nextRelease.notes}'' @ rest)"
    by (simp add: version_placeholder_def notes_placeholder_def)
  also have "spec_replace_all version_placeholder val (''{nextRelease.notes}'' @ rest)
      = ''{nextRelease.notes}'' @ spec_replace_all version_placeholder val rest"
    unfolding placeholders_unfold by (rule spec_replace_all_skip) simp
  finally show ?thesis by (simp add: notes_placeholder_def)
qed

lemma notes_pass_over_version:
  "spec_replace_all notes_placeholder val (version_placeholder @ rest)
     = version_placeholder @ spec_replace_all notes_placeholder val rest"
proof -
  have "spec_replace_all notes_placeholder val (version_placeholder @ rest)
      = CHR ''$'' # spec_replace_all notes_placeholder val (''{nextRelease.version}'' @ rest)"
    by (simp add: version_placeholder_def notes_placeholder_def)
  also have "spec_replace_all notes_placeholder val (''{nextRelease.version}'' @ rest)
      = ''{nextRelease.version}'' @ spec_replace_all notes_placeholder val rest"
    unfolding placeholders_unfold by (rule spec_replace_all_skip) simp
  finally show ?thesis by (simp add: version_placeholder_def)
qed

lemma prefix_closing_brace:
  "CHR ''}'' \<notin> set name \<Longrightarrow> CHR ''}'' \<notin> set k \<Longrightarrow>
     prefix (k @ ''}'') (name @ CHR ''}'' # rest) \<Longrightarrow> name = k"
proof (induction k arbitrary: name)
  case Nil
  then show ?case by (cases name) auto
next
  case (Cons x k)
  then show ?case by (cases name) auto
qed

lemma other_is_not_version:
  assumes "CHR ''}'' \<notin> set name" and "name \<noteq> ''nextRelease.version''"
  shows "\<not> prefix version_placeholder (''${'' @ name @ ''}'' @ rest)"
proof
  assume "prefix version_placeholder (''${'' @ name @ ''}'' @ rest)"
  then have "prefix (''nextRelease.version'' @ ''}'') (name @ CHR ''}'' # rest)"
    by (simp add: version_placeholder_def)
  with assms(1) have "name = ''nextRelease.version''"
    by (intro prefix_closing_brace) auto
  with assms(2) show False by simp
qed

lemma other_is_not_notes:
  assumes "CHR ''}'' \<notin> set name" and "name \<noteq> ''nextRelease.notes''"
  shows "\<not> prefix notes_placeholder (''${'' @ name @ ''}'' @ rest)"
proof
  assume "prefix notes_placeholder (''${'' @ name @ ''}'' @ rest)"
  then have "prefix (''nextRelease.notes'' @ ''}'') (name @ CHR ''}'' # rest)"
    by (simp add: notes_placeholder_def)
  with assms(1) have "name = ''nextRelease.notes''"
    by (intro prefix_closing_brace) auto
  with assms(2) show False by simp
qed

lemma pass_over_other:
  assumes "lit = version_placeholder \<or> lit = notes_placeholder"
    and "plain_piece (Other name)"
  shows "spec_replace_all lit val (piece_source (Other name) @ rest)
     = piece_source (Other name) @ spec_replace_all lit val rest"
proof -
  obtain l where l: "lit = CHR ''$'' # l"
    using assms(1) by (auto simp: placeholders_unfold)
  have np: "\<not> prefix lit (''${'' @ name @ ''}'' @ rest)"
    using assms other_is_not_version other_is_not_notes by auto
  have "spec_replace_all lit val (''${'' @ name @ ''}'' @ rest)
      = CHR ''$'' # spec_replace_all lit val ((CHR ''{'' # name @ ''}'') @ rest)"
    using np by (simp add: l)
  also have "spec_replace_all lit val ((CHR ''{'' # name @ ''}'') @ rest)
      = (CHR ''{'' # name @ ''}'') @ spec_replace_all lit val rest"
    unfolding l using assms(2) by (intro spec_replace_all_skip) auto
  finally show ?thesis by simp
qed

lemma version_pass_pieces:
  "list_all plain_piece ps \<Longrightarrow>
     spec_replace_all version_placeholder val (template_of ps @ rest)
       = template_of (map (\<lambda>p. if p = Version then Lit val else p) ps)
           @ spec_replace_all version_placeholder val rest"
proof (induction ps)
  case Nil
  then show ?case by (simp add: template_of_def)
next
  case (Cons p ps)
  then have ih: "spec_replace_all version_placeholder val (template_of ps @ rest)
       = template_of (map (\<lambda>p. if p = Version then Lit val else p) ps)
           @ spec_replace_all version_placeholder val rest"
    by simp
  show ?case
  proof (cases p)
    case (Lit s)
    with Cons.prems have "CHR ''$'' \<notin> set s" by simp
    then have "spec_replace_all version_placeholder val (s @ template_of ps @ rest)
        = s @ spec_replace_all version_placeholder val (template_of ps @ rest)"
      unfolding placeholders_unfold by (rule spec_replace_all_skip)
    with ih Lit show ?thesis by (simp add: template_of_def)
  next
    case Version
    have "spec_replace_all version_placeholder val
            (version_placeholder @ template_of ps @ rest)
        = val @ spec_replace_all version_placeholder val (template_of ps @ rest)"
      by (rule spec_replace_all_hit) (simp add: version_placeholder_def)
    with ih Version show ?thesis by (simp add: template_of_def)
  next
    case Notes
    with ih version_pass_over_notes [of val "template_of ps @ rest"]
    show ?thesis by (simp add: template_of_def)
  next
    case (Other name)
    with Cons.prems have "plain_piece (Other name)" by simp
    from pass_over_other [OF _ this, of version_placeholder val "template_of ps @ rest"]
    show ?thesis using ih Other by (simp add: template_of_def)
  qed
qed

lemma notes_pass_pieces:
  "list_all plain_piece ps \<Longrightarrow>
     spec_replace_all notes_placeholder val (template_of ps @ rest)
       = template_of (map (\<lambda>p. if p = Notes then Lit val else p) ps)
           @ spec_replace_all notes_placeholder val rest"
proof (induction ps)
  case Nil
  then show ?case by (simp add: template_of_def)
next
  case (Cons p ps)
  then have ih: "spec_replace_all notes_placeholder val (template_of ps @ rest)
       = template_of (map (\<lambda>p. if p = Notes then Lit val else p) ps)
           @ spec_replace_all notes_placeholder val rest"
    by simp
  show ?case
  proof (cases p)
    case (Lit s)
    with Cons.prems have "CHR ''$'' \<notin> set s" by simp
    then have "spec_replace_all notes_placeholder val (s @ template_of ps @ rest)
        = s @ spec_replace_all notes_placeholder val (template_of ps @ rest)"
      unfolding placeholders_unfold by (rule spec_replace_all_skip)
    with ih Lit show ?thesis by (simp add: template_of_def)
  next
    case Notes
    have "spec_replace_all notes_placeholder val
            (notes_placeholder @ template_of ps @ rest)
        = val @ spec_replace_all notes_placeholder val (template_of ps @ rest)"
      by (rule spec_replace_all_hit) (simp add: notes_placeholder_def)
    with ih Notes show ?thesis by (simp add: template_of_def)
  next
    case Version
    with ih notes_pass_over_version [of val "template_of ps @ rest"]
    show ?thesis by (simp add: template_of_def)
  next
    case (Other name)
    with Cons.prems have "plain_piece (Other name)" by simp
    from pass_over_other [OF _ this, of notes_placeholder val "template_of ps @ rest"]
    show ?thesis using ih Other by (simp add: template_of_def)
  qed
qed

lemma plain_after_version_pass:
  "CHR ''$'' \<notin> set val \<Longrightarrow> list_all plain_piece ps \<Longrightarrow>
     list_all plain_piece (map (\<lambda>p. if p = Version then Lit val else p) ps)"
  by (induction ps) auto

lemma interpolate_sequential:
  assumes "plain_replacement (or_else (version nr) [])"
    and "plain_replacement (or_else (release_notes nr) [])"
  shows "interpolateString nr template =
     spec_replace_all notes_placeholder (or_else (release_notes nr) [])
       (spec_replace_all version_placeholder (or_else (version nr) []) template)"
  using assms by (simp add: interpolateString_def replace_global_plain)

lemma values_of_pieces:
  "template_of (map (\<lambda>p. if p = Notes then Lit n else p)
       (map (\<lambda>p. if p = Version then Lit v else p) ps))
     = concat (map (\<lambda>p. case p of Version \<Rightarrow> v | Notes \<Rightarrow> n | _ \<Rightarrow> piece_source p) ps)"
  by (induction ps) (auto simp: template_of_def split: piece.splits)

lemma piece_value_alt:
  "piece_value nr p = (case p of Version \<Rightarrow> or_else (version nr) []
      | Notes \<Rightarrow> or_else (release_notes nr) [] | _ \<Rightarrow> piece_source p)"
  by (cases p) auto

lemma interpolate_pieces:
  assumes "CHR ''$'' \<notin> set (or_else (version nr) [])"
    and "plain_replacement (or_else (release_notes nr) [])"
    and "list_all plain_piece ps"
  shows "interpolateString nr (template_of ps) = concat (map (piece_value nr) ps)"
proof -
  let ?v = "or_else (version nr) []" and ?n = "or_else (release_notes nr) []"
  let ?ps1 = "map (\<lambda>p. if p = Version then Lit ?v else p) ps"
  have 1: "spec_replace_all version_placeholder ?v (template_of ps) = template_of ?ps1"
    using version_pass_pieces [OF assms(3), of ?v "[]"] by simp
  have "list_all plain_piece ?ps1"
    using assms(1,3) by (rule plain_after_version_pass)
  from notes_pass_pieces [OF this, of ?n "[]"]
  have 2: "spec_replace_all notes_placeholder ?n (template_of ?ps1)
      = template_of (map (\<lambda>p. if p = Notes then Lit ?n else p) ?ps1)"
    by simp
  have "interpolateString nr (template_of ps)
      = template_of (map (\<lambda>p. if p = Notes then Lit ?n else p) ?ps1)"
    using interpolate_sequential [OF dollar_free_plain [OF assms(1)] assms(2)] 1 2 by simp
  also have "\<dots> = concat (map (piece_value nr) ps)"
    unfolding values_of_pieces by (simp add: piece_value_alt [abs_def])
  finally show ?thesis .
qed

lemma spec_interpolate_skip:
  "CHR ''$'' \<notin> set u \<Longrightarrow> spec_interpolate v n (u @ rest) = u @ spec_interpolate v n rest"
  by (induction u) (auto simp: placeholders_unfold)

lemma spec_interpolate_pieces:
  "list_all plain_piece ps \<Longrightarrow>
     spec_interpolate (or_else (version nr) []) (or_else (release_notes nr) [])
         (template_of ps @ rest)
       = concat (map (piece_value nr) ps)
           @ spec_interpolate (or_else (version nr) []) (or_else (release_notes nr) []) rest"
proof (induction ps)
  case Nil
  then show ?case by (simp add: template_of_def)
next
  case (Cons p ps)
  let ?v = "or_else (version nr) []" and ?n = "or_else (release_notes nr) []"
  from Cons have ih: "spec_interpolate ?v ?n (template_of ps @ rest)
       = concat (map (piece_value nr) ps) @ spec_interpolate ?v ?n rest"
    by simp
  show ?case
  proof (cases p)
    case (Lit s)
    with Cons.prems have "CHR ''$'' \<notin> set s" by simp
    from spec_interpolate_skip [OF this] ih Lit show ?thesis
      by (simp add: template_of_def)
  next
    case Version
    have "spec_interpolate ?v ?n (version_placeholder @ template_of ps @ rest)
        = ?v @ spec_interpolate ?v ?n (template_of ps @ rest)"
      by (simp add: version_placeholder_def)
    with ih Version show ?thesis by (simp add: template_of_def)
  next
    case Notes
    have "spec_interpolate ?v ?n (notes_placeholder @ template_of ps @ rest)
        = ?n @ spec_interpolate ?v ?n (template_of ps @ rest)"
      by (simp add: version_placeholder_def notes_placeholder_def)
    with ih Notes show ?thesis by (simp add: template_of_def)
  next
    case (Other name)
    with Cons.prems have pl: "plain_piece (Other name)" by simp
    let ?r = "template_of ps @ rest"
    have nv: "\<not> prefix version_placeholder (''${'' @ name @ ''}'' @ ?r)"
      using pl other_is_not_version by auto
    have nn: "\<not> prefix notes_placeholder (''${'' @ name @ ''}'' @ ?r)"
      using pl other_is_not_notes by auto
    have "spec_interpolate ?v ?n (''${'' @ name @ ''}'' @ ?r)
        = CHR ''$'' # spec_interpolate ?v ?n ((CHR ''{'' # name @ ''}'') @ ?r)"
      using nv nn by simp
    also have "spec_interpolate ?v ?n ((CHR ''{'' # name @ ''}'') @ ?r)
        = (CHR ''{'' # name @ ''}'') @ spec_interpolate ?v ?n ?r"
      using pl by (intro spec_interpolate_skip) auto
    finally show ?thesis using ih Other by (simp add: template_of_def)
  qed
qed

lemma pieces_after_interpolation:
  assumes "CHR ''$'' \<notin> set (or_else (version nr) [])"
    and "CHR ''$'' \<notin> set (or_else (release_notes nr) [])"
    and "list_all plain_piece ps"
  shows "list_all plain_piece (map (\<lambda>p. case p of Other name \<Rightarrow> p | _ \<Rightarrow> Lit (piece_value nr p)) ps)"
    and "template_of (map (\<lambda>p. case p of Other name \<Rightarrow> p | _ \<Rightarrow> Lit (piece_value nr p)) ps)
           = concat (map (piece_value nr) ps)"
    and "concat (map (piece_value nr)
             (map (\<lambda>p. case p of Other name \<Rightarrow> p | _ \<Rightarrow> Lit (piece_value nr p)) ps))
           = concat (map (piece_value nr) ps)"
  using assms by (induction ps) (auto simp: template_of_def split: piece.splits)

text \<open>
  C8, as stated, fails. The two replacements run one after the other, so a notes
  placeholder that only the first replacement forms is replaced too, where the claim leaves
  the text around a version placeholder as it is; and a dollar sign in a value is read as a
  replacement pattern, so the value inserted is not the value given.
\<close>

theorem interpolateString_counterexample:
  "interpolateString \<lparr>version = None, release_notes = Some ''N''\<rparr>
      ''${nextRelease${nextRelease.version}.notes}'' = ''N''
   \<and> spec_interpolate [] ''N'' ''${nextRelease${nextRelease.version}.notes}''
       = ''${nextRelease.notes}''
   \<and> interpolateString \<lparr>version = Some ''$$'', release_notes = None\<rparr>
       ''v${nextRelease.version}'' = ''v$''"
  by code_simp

text \<open>
  C8, amended. For every template and every release context whose version and notes
  values (the empty string when absent) have no dollar sign followed by a dollar sign, an
  ampersand, a backquote or an apostrophe: interpolation replaces every occurrence of the
  version placeholder in the template by the version value and then every occurrence of
  the notes placeholder in the text so obtained by the notes value, each scan going from
  the left. When moreover the version value has no dollar sign and the template is made of
  text without a dollar sign, the two placeholders and placeholders of other names, the
  result is the template with each of the two placeholders replaced by its value and
  everything else, the placeholders of other names included, left as it is; this is also
  what the replacement of section 4.1 gives. The function is total.
\<close>

theorem interpolateString_replaces:
  assumes "plain_replacement (or_else (version nr) [])"
    and "plain_replacement (or_else (release_notes nr) [])"
  shows "interpolateString nr template =
       spec_replace_all notes_placeholder (or_else (release_notes nr) [])
         (spec_replace_all version_placeholder (or_else (version nr) []) template)
     \<and> (CHR ''$'' \<notin> set (or_else (version nr) []) \<and> list_all plain_piece ps \<longrightarrow>
          interpolateString nr (template_of ps) = concat (map (piece_value nr) ps)
          \<and> interpolateString nr (template_of ps)
              = spec_interpolate (or_else (version nr) []) (or_else (release_notes nr) [])
                  (template_of ps))"
  using interpolate_sequential [OF assms] interpolate_pieces [OF _ assms(2)]
    spec_interpolate_pieces [of ps nr "[]"]
  by simp

theorem interpolateString_replaces_witness:
  "plain_replacement (or_else (version \<lparr>version = Some ''1.2.0'',
       release_notes = Some ''costs $5''\<rparr>) [])
   \<and> plain_replacement (or_else (release_notes \<lparr>version = Some ''1.2.0'',
       release_notes = Some ''costs $5''\<rparr>) [])
   \<and> interpolateString \<lparr>version = Some ''1.2.0'', release_notes = Some ''costs $5''\<rparr>
         ''$HOME ${nextRelease.version}: ${nextRelease.notes}, ${nextRelease.version}''
       = ''$HOME 1.2.0: costs $5, 1.2.0''
   \<and> list_all plain_piece [Lit ''v'', Version, Lit '': '', Notes, Other ''x'']
   \<and> template_of [Lit ''v'', Version, Lit '': '', Notes, Other ''x'']
       = ''v${nextRelease.version}: ${nextRelease.notes}${x}''
   \<and> interpolateString \<lparr>version = Some ''1.2.0'', release_notes = Some ''costs $5''\<rparr>
         ''v${nextRelease.version}: ${nextRelease.notes}${x}''
       = ''v1.2.0: costs $5${x}''"
proof -
  let ?nr = "\<lparr>version = Some ''1.2.0'', release_notes = Some ''costs $5''\<rparr>"
  have h: "plain_replacement (or_else (version ?nr) [])"
    "plain_replacement (or_else (release_notes ?nr) [])"
    by (simp_all add: or_else_def)
  have d: "CHR ''$'' \<notin> set (or_else (version ?nr) [])"
    by (simp add: or_else_def)
  have p: "list_all plain_piece [Lit ''v'', Version, Lit '': '', Notes, Other ''x'']"
    by simp
  have t: "template_of [Lit ''v'', Version, Lit '': '', Notes, Other ''x'']
       = ''v${nextRelease.version}: ${nextRelease.notes}${x}''"
    by (simp add: template_of_def version_placeholder_def notes_placeholder_def)
  have s: "spec_replace_all notes_placeholder ''costs $5''
        (spec_replace_all version_placeholder ''1.2.0''
           ''$HOME ${nextRelease.version}: ${nextRelease.notes}, ${nextRelease.version}'')
      = ''$HOME 1.2.0: costs $5, 1.2.0''"
    by code_simp
  note th = interpolateString_replaces [OF h]
  from th [of "''$HOME ${nextRelease.version}: ${nextRelease.notes}, ${nextRelease.version}''"]
  have a: "interpolateString ?nr
         ''$HOME ${nextRelease.version}: ${nextRelease.notes}, ${nextRelease.version}''
       = ''$HOME 1.2.0: costs $5, 1.2.0''"
    using s by (simp add: or_else_def)
  from th [of _ "[Lit ''v'', Version, Lit '': '', Notes, Other ''x'']"] d p
  have "interpolateString ?nr
          (template_of [Lit ''v'', Version, Lit '': '', Notes, Other ''x''])
      = concat (map (piece_value ?nr) [Lit ''v'', Version, Lit '': '', Notes, Other ''x''])"
    by blast
  then have b: "interpolateString ?nr ''v${nextRelease.version}: ${nextRelease.notes}${x}''
       = ''v1.2.0: costs $5${x}''"
    unfolding t by (simp add: or_else_def)
  from h a p t b show ?thesis by blast
qed

text \<open>
  C9, as stated, fails: with no notes and the version \<open>1.0.0\<close>, neither of which looks like
  a placeholder, the first interpolation of a template in which a notes placeholder splits
  the text of a version placeholder forms a version placeholder, and the second
  interpolation replaces it.
\<close>

theorem interpolateString_idempotent_counterexample:
  "interpolateString \<lparr>version = Some ''1.0.0'', release_notes = None\<rparr>
      ''${nextRelease.ver${nextRelease.notes}sion}'' = ''${nextRelease.version}''
   \<and> interpolateString \<lparr>version = Some ''1.0.0'', release_notes = None\<rparr>
       (interpolateString \<lparr>version = Some ''1.0.0'', release_notes = None\<rparr>
          ''${nextRelease.ver${nextRelease.notes}sion}'') = ''1.0.0''"
  by code_simp

text \<open>
  C9, amended. For every release context whose version and notes values contain no dollar
  sign, and every template made of text without a dollar sign, the two placeholders and
  placeholders of other names: interpolating twice gives the same string as interpolating
  once.
\<close>

theorem interpolateString_idempotent:
  assumes "CHR ''$'' \<notin> set (or_else (version nr) [])"
    and "CHR ''$'' \<notin> set (or_else (release_notes nr) [])"
    and "list_all plain_piece ps"
  shows "interpolateString nr (interpolateString nr (template_of ps))
     = interpolateString nr (template_of ps)"
proof -
  let ?qs = "map (\<lambda>p. case p of Other name \<Rightarrow> p | _ \<Rightarrow> Lit (piece_value nr p)) ps"
  have once: "interpolateString nr (template_of ps) = template_of ?qs"
    using interpolate_pieces [OF assms(1) dollar_free_plain [OF assms(2)] assms(3)]
      pieces_after_interpolation(2) [OF assms] by simp
  have "interpolateString nr (template_of ?qs) = concat (map (piece_value nr) ?qs)"
    using assms(1) dollar_free_plain [OF assms(2)] pieces_after_interpolation(1) [OF assms]
    by (rule interpolate_pieces)
  also have "\<dots> = template_of ?qs"
    using pieces_after_interpolation(2,3) [OF assms] by simp
  finally show ?thesis by (simp add: once)
qed

theorem interpolateString_idempotent_witness:
  "CHR ''$'' \<notin> set (or_else (version demo_release) [])
   \<and> CHR ''$'' \<notin> set (or_else (release_notes demo_release) [])
   \<and> list_all plain_piece [Version, Lit '' '', Notes]
   \<and> template_of [Version, Lit '' '', Notes] = ''${nextRelease.version} ${nextRelease.notes}''
   \<and> interpolateString demo_release
         (interpolateString demo_release ''${nextRelease.version} ${nextRelease.notes}'')
       = interpolateString demo_release ''${nextRelease.version} ${nextRelease.notes}''"
proof -
  have h: "CHR ''$'' \<notin> set (or_else (version demo_release) [])"
    "CHR ''$'' \<notin> set (or_else (release_notes demo_release) [])"
    by (simp_all add: demo_release_def or_else_def)
  have p: "list_all plain_piece [Version, Lit '' '', Notes]"
    by simp
  have t: "template_of [Version, Lit '' '', Notes] = ''${nextRelease.version} ${nextRelease.notes}''"
    by (simp add: template_of_def version_placeholder_def notes_placeholder_def)
  from interpolateString_idempotent [OF h p] h p t show ?thesis by simp
qed

section \<open>The message composer and the last-commit excerpt: properties\<close>

lemma prefix_free_whiteSpaces: "prefix_free whiteSpaces"
proof -
  have "list_all (\<lambda>a. list_all (\<lambda>b. \<not> prefix a b \<or> a = b) whiteSpaces) whiteSpaces"
    by code_simp
  moreover have "[] \<notin> set whiteSpaces"
    by (simp add: whiteSpaces_def)
  ultimately show ?thesis
    by (auto simp: prefix_free_def list_all_iff)
qed

lemma prefix_free_rev_whiteSpaces: "prefix_free (map rev whiteSpaces)"
proof -
  have "list_all (\<lambda>a. list_all (\<lambda>b. \<not> prefix a b \<or> a = b) (map rev whiteSpaces))
     (map rev whiteSpaces)"
    by code_simp
  moreover have "[] \<notin> set (map rev whiteSpaces)"
    by (simp add: whiteSpaces_def)
  ultimately show ?thesis
    unfolding prefix_free_def list_all_iff by blast
qed

lemma find_the_prefix:
  assumes "prefix_free S" and "w \<in> set S"
  shows "find (\<lambda>ws. prefix ws (w @ x)) S = Some w"
proof (cases "find (\<lambda>ws. prefix ws (w @ x)) S")
  case None
  with assms(2) show ?thesis by (auto simp: find_None_iff)
next
  case (Some v)
  then have v: "v \<in> set S" "prefix v (w @ x)"
    by (auto simp: find_Some_iff)
  have "prefix w (w @ x)" by simp
  with v(2) have "prefix v w \<or> prefix w v"
    using prefix_same_cases by blast
  with assms v(1) have "v = w"
    by (auto simp: prefix_free_def)
  with Some show ?thesis by simp
qed

lemma strip_leading_seq:
  assumes "prefix_free S" and "w \<in> set S"
  shows "strip_leading S (w @ x) = strip_leading S x"
proof -
  from assms obtain c w' where w: "w = c # w'"
    by (cases w) (auto simp: prefix_free_def)
  have "find (\<lambda>ws. prefix ws (c # w' @ x)) S = Some w"
    using find_the_prefix [OF assms, of x] by (simp add: w)
  then show ?thesis by (simp add: w)
qed

lemma strip_leading_length: "length (strip_leading S s) \<le> length s"
proof (induction S s rule: strip_leading.induct)
  case (1 seqs)
  then show ?case by simp
next
  case (2 seqs c cs)
  show ?case
  proof (cases "find (\<lambda>ws. prefix ws (c # cs)) seqs")
    case None
    then show ?thesis by simp
  next
    case (Some ws)
    have "length (strip_leading seqs (drop (length ws - 1) cs))
        \<le> length (drop (length ws - 1) cs)"
      by (rule 2 [OF Some])
    also have "\<dots> \<le> length cs" by simp
    finally show ?thesis using Some by simp
  qed
qed

lemma strip_leading_idem: "strip_leading S (strip_leading S s) = strip_leading S s"
proof (induction S s rule: strip_leading.induct)
  case (1 seqs)
  then show ?case by simp
next
  case (2 seqs c cs)
  show ?case
  proof (cases "find (\<lambda>ws. prefix ws (c # cs)) seqs")
    case None
    then show ?thesis by simp
  next
    case (Some ws)
    with 2 [OF Some] show ?thesis by simp
  qed
qed

lemma prefix_split:
  assumes "prefix w (c # cs)" and "w \<noteq> []"
  shows "c # cs = w @ drop (length w - 1) cs"
proof -
  from assms(1) obtain r where r: "c # cs = w @ r" by (auto simp: prefix_def)
  from assms(2) obtain a w' where w: "w = a # w'" by (cases w) auto
  from r w have "cs = w' @ r" by simp
  then have "drop (length w - 1) cs = r" by (simp add: w)
  with r show ?thesis by simp
qed

lemma strip_leading_Nil:
  "[] \<notin> set S \<Longrightarrow> strip_leading S s = [] \<Longrightarrow> \<exists>ws. set ws \<subseteq> set S \<and> s = concat ws"
proof (induction S s rule: strip_leading.induct)
  case (1 seqs)
  show ?case by (rule exI [of _ "[]"]) simp
next
  case (2 seqs c cs)
  show ?case
  proof (cases "find (\<lambda>ws. prefix ws (c # cs)) seqs")
    case None
    with 2(3) show ?thesis by simp
  next
    case (Some w)
    then have w: "w \<in> set seqs" "prefix w (c # cs)"
      by (auto simp: find_Some_iff)
    from 2(3) Some have "strip_leading seqs (drop (length w - 1) cs) = []" by simp
    from 2(1) [OF Some 2(2) this] obtain ws where
      ws: "set ws \<subseteq> set seqs" "drop (length w - 1) cs = concat ws"
      by blast
    from w(1) 2(2) have "w \<noteq> []" by auto
    from prefix_split [OF w(2) this] ws w(1)
    have "set (w # ws) \<subseteq> set seqs \<and> c # cs = concat (w # ws)"
      by simp
    then show ?thesis by blast
  qed
qed

lemma strip_leading_concat:
  assumes "prefix_free S" and "set ws \<subseteq> set S"
  shows "strip_leading S (concat ws @ x) = strip_leading S x"
  using assms(2)
proof (induction ws)
  case Nil
  then show ?case by simp
next
  case (Cons w ws)
  then have "w \<in> set S" by simp
  from strip_leading_seq [OF assms(1) this, of "concat ws @ x"] Cons show ?case by simp
qed

lemma spec_is_blank_strip: "spec_is_blank s \<longleftrightarrow> strip_leading whiteSpaces s = []"
proof (induction s rule: spec_is_blank.induct)
  case 1
  then show ?case by simp
next
  case (2 c cs)
  show ?case
  proof (cases "find (\<lambda>ws. prefix ws (c # cs)) whiteSpaces")
    case None
    then show ?thesis by simp
  next
    case (Some ws)
    with 2 [OF Some] show ?thesis by simp
  qed
qed

lemma trim_empty_iff: "trim s = [] \<longleftrightarrow> spec_is_blank s"
proof
  assume "spec_is_blank s"
  then show "trim s = []"
    by (simp add: spec_is_blank_strip trim_def trimStart_def trimEnd_def)
next
  assume e: "trim s = []"
  let ?t = "strip_leading whiteSpaces s"
  have "?t = []"
  proof (rule ccontr)
    assume ne: "?t \<noteq> []"
    from e have "strip_leading (map rev whiteSpaces) (rev ?t) = []"
      by (simp add: trim_def trimStart_def trimEnd_def)
    with strip_leading_Nil [of "map rev whiteSpaces" "rev ?t"] prefix_free_rev_whiteSpaces
    obtain rs where rs: "set rs \<subseteq> set (map rev whiteSpaces)" "rev ?t = concat rs"
      unfolding prefix_free_def by blast
    let ?ws = "rev (map rev rs)"
    have t: "?t = concat ?ws"
      using rs(2) by (metis rev_concat rev_rev_ident rev_map)
    have sub: "set ?ws \<subseteq> set whiteSpaces"
      using rs(1) by auto
    from ne t obtain w ws' where c: "?ws = w # ws'" by (cases ?ws) auto
    with sub have w: "w \<in> set whiteSpaces" "set ws' \<subseteq> set whiteSpaces" by auto
    with prefix_free_whiteSpaces have "w \<noteq> []" by (auto simp: prefix_free_def)
    have "strip_leading whiteSpaces ?t = strip_leading whiteSpaces (concat ws')"
      using strip_leading_seq [OF prefix_free_whiteSpaces w(1), of "concat ws'"] t c by simp
    then have "length (strip_leading whiteSpaces ?t) \<le> length (concat ws')"
      using strip_leading_length [of whiteSpaces "concat ws'"] by simp
    moreover have "length (concat ws') < length ?t"
      using t c \<open>w \<noteq> []\<close> by simp
    moreover have "strip_leading whiteSpaces ?t = ?t"
      by (rule strip_leading_idem)
    ultimately show False by simp
  qed
  then show "spec_is_blank s" by (simp add: spec_is_blank_strip)
qed

lemma spec_lines_nonempty: "spec_lines s \<noteq> []"
  by (induction s) (auto simp: spec_lines_def)

lemma spec_lines_Cons:
  "spec_lines (c # cs) =
     (if c = CHR 0x0A then [] # spec_lines cs
      else (c # hd (spec_lines cs)) # tl (spec_lines cs))"
  by (simp add: spec_lines_def)

lemma split_from_spec_lines:
  "split_from cur s = (cur @ hd (spec_lines s)) # tl (spec_lines s)"
proof (induction s arbitrary: cur)
  case Nil
  then show ?case by (simp add: spec_lines_def)
next
  case (Cons c cs)
  show ?case
  proof (cases "c = CHR 0x0A")
    case True
    with Cons [of "[]"] spec_lines_nonempty [of cs] show ?thesis
      by (simp add: spec_lines_Cons)
  next
    case False
    with Cons [of "cur @ [c]"] show ?thesis
      by (simp add: spec_lines_Cons)
  qed
qed

lemma split_lines_spec: "split_lines s = spec_lines s"
  using split_from_spec_lines [of "[]" s] spec_lines_nonempty [of s]
  by (simp add: split_lines_def)

lemma join_spec: "join nl ls = spec_unlines ls"
  by (induction nl ls rule: join.induct) (simp_all add: nl_def)

lemma keep_line_spec: "keep_line l \<longleftrightarrow> \<not> spec_is_blank l \<and> \<not> spec_is_trailer l"
  by (simp add: keep_line_def spec_is_trailer_def startsWith_def trim_empty_iff)

lemma lastCommitBody_spec:
  "includeLastCommitText cfg \<Longrightarrow> lastCommitBody cfg (c # rest) = spec_excerpt (message c)"
  by (simp add: lastCommitBody_def spec_excerpt_def Let_def keep_line_spec [abs_def]
      drop_Suc conj_commute split_lines_spec join_spec)

text \<open>White space before a marker, any text after it.\<close>

lemma strip_leading_blank:
  "spec_is_blank pad \<Longrightarrow> strip_leading whiteSpaces (pad @ x) = strip_leading whiteSpaces x"
proof -
  assume "spec_is_blank pad"
  then have "strip_leading whiteSpaces pad = []" by (simp add: spec_is_blank_strip)
  with strip_leading_Nil [of whiteSpaces pad] prefix_free_whiteSpaces
  obtain ws where "set ws \<subseteq> set whiteSpaces" "pad = concat ws"
    unfolding prefix_free_def by blast
  with strip_leading_concat [OF prefix_free_whiteSpaces, of ws x] show ?thesis by simp
qed

lemma prefix_without:
  assumes "prefix ws (x @ c # y)" and "c \<notin> set ws"
  shows "prefix ws x"
proof -
  from assms(1) have "prefix ws x \<or> (\<exists>us. ws = x @ us \<and> prefix us (c # y))"
    by (simp add: prefix_append)
  then show ?thesis
  proof
    assume "prefix ws x" then show ?thesis .
  next
    assume "\<exists>us. ws = x @ us \<and> prefix us (c # y)"
    then obtain us where us: "ws = x @ us" "prefix us (c # y)" by blast
    with assms(2) have "us = []" by (cases us) auto
    with us show ?thesis by simp
  qed
qed

lemma strip_leading_keeps:
  assumes "[] \<notin> set S" and "\<forall>ws \<in> set S. c \<notin> set ws"
  shows "\<exists>z. strip_leading S (x @ c # y) = z @ c # y"
proof (induction x rule: length_induct)
  case (1 x)
  show ?case
  proof (cases x)
    case Nil
    have "find (\<lambda>ws. prefix ws (c # y)) S = None"
    proof (rule ccontr)
      assume "find (\<lambda>ws. prefix ws (c # y)) S \<noteq> None"
      then obtain ws where "ws \<in> set S" "prefix ws (c # y)"
        by (auto simp: find_None_iff)
      with assms show False by (cases ws) auto
    qed
    then have "strip_leading S (x @ c # y) = [] @ c # y" by (simp add: Nil)
    then show ?thesis by blast
  next
    case (Cons a x')
    show ?thesis
    proof (cases "find (\<lambda>ws. prefix ws (a # x' @ c # y)) S")
      case None
      then have "strip_leading S (x @ c # y) = x @ c # y" by (simp add: Cons)
      then show ?thesis by blast
    next
      case (Some ws)
      then have ws: "ws \<in> set S" "prefix ws (x @ c # y)"
        by (auto simp: find_Some_iff Cons)
      with assms have "c \<notin> set ws" "ws \<noteq> []" by auto
      from prefix_without [OF ws(2) this(1)] have "prefix ws x" .
      then have le: "length ws \<le> length x" by (rule prefix_length_le)
      then have d: "drop (length ws - 1) (x' @ c # y) = drop (length ws - 1) x' @ c # y"
        using \<open>ws \<noteq> []\<close> by (simp add: Cons)
      have "length (drop (length ws - 1) x') < length x"
        by (simp add: Cons)
      with 1 obtain z where
        "strip_leading S (drop (length ws - 1) x' @ c # y) = z @ c # y"
        by blast
      with Some d have "strip_leading S (x @ c # y) = z @ c # y"
        by (simp add: Cons)
      then show ?thesis by blast
    qed
  qed
qed

lemma lowerChar_white: "c \<in> set (concat whiteSpaces) \<Longrightarrow> lowerChar c = c"
proof -
  have "list_all (\<lambda>c. lowerChar c = c) (concat whiteSpaces)"
    by code_simp
  then show "c \<in> set (concat whiteSpaces) \<Longrightarrow> lowerChar c = c"
    unfolding list_all_iff by blast
qed

lemma markers_not_white:
  "\<forall>c \<in> set ''signed-off-by:''. c \<notin> set (concat whiteSpaces)"
  "\<forall>c \<in> set ''co-authored-by:''. c \<notin> set (concat whiteSpaces)"
proof -
  have "list_all (\<lambda>c. list_all (\<lambda>b. b \<noteq> c) (concat whiteSpaces)) ''signed-off-by:''"
    by code_simp
  then show "\<forall>c \<in> set ''signed-off-by:''. c \<notin> set (concat whiteSpaces)"
    unfolding list_all_iff by blast
  have "list_all (\<lambda>c. list_all (\<lambda>b. b \<noteq> c) (concat whiteSpaces)) ''co-authored-by:''"
    by code_simp
  then show "\<forall>c \<in> set ''co-authored-by:''. c \<notin> set (concat whiteSpaces)"
    unfolding list_all_iff by blast
qed

lemma solid_of_lower:
  assumes "toLowerCase m = k" and "\<forall>c \<in> set k. c \<notin> set (concat whiteSpaces)"
  shows "\<forall>c \<in> set m. c \<notin> set (concat whiteSpaces)"
proof
  fix c assume c: "c \<in> set m"
  show "c \<notin> set (concat whiteSpaces)"
  proof
    assume w: "c \<in> set (concat whiteSpaces)"
    from c have "lowerChar c \<in> set (toLowerCase m)" by (simp add: toLowerCase_def)
    with w assms show False by (simp add: lowerChar_white)
  qed
qed

lemma trim_keeps_solid:
  assumes "spec_is_blank pad" and "m \<noteq> []"
    and "\<forall>c \<in> set m. c \<notin> set (concat whiteSpaces)"
  shows "\<exists>y. trim (pad @ m @ r) = m @ y"
proof -
  from assms(2) obtain a m' where m: "m = a # m'" by (cases m) auto
  from assms(2) obtain m'' e where me: "m = m'' @ [e]" by (cases m rule: rev_cases) auto
  have "a \<in> set m" by (simp add: m)
  with assms(3) have a: "a \<notin> set (concat whiteSpaces)" by blast
  have "e \<in> set m" by (simp add: me)
  with assms(3) have e: "e \<notin> set (concat whiteSpaces)" by blast
  have "find (\<lambda>ws. prefix ws (a # m' @ r)) whiteSpaces = None"
  proof (rule ccontr)
    assume "find (\<lambda>ws. prefix ws (a # m' @ r)) whiteSpaces \<noteq> None"
    then obtain ws where ws: "ws \<in> set whiteSpaces" "prefix ws (a # m' @ r)"
      by (auto simp: find_None_iff)
    with prefix_free_whiteSpaces have "ws \<noteq> []" by (auto simp: prefix_free_def)
    with ws(2) have "a \<in> set ws" by (cases ws) auto
    with ws(1) a show False by auto
  qed
  then have "strip_leading whiteSpaces (m @ r) = m @ r" by (simp add: m)
  then have 1: "trimStart (pad @ m @ r) = m @ r"
    using strip_leading_blank [OF assms(1), of "m @ r"] by (simp add: trimStart_def)
  have "\<forall>ws \<in> set (map rev whiteSpaces). e \<notin> set ws"
    using e by auto
  from strip_leading_keeps [OF _ this, of "rev r" "rev m''"] prefix_free_rev_whiteSpaces
  obtain z where "strip_leading (map rev whiteSpaces) (rev r @ e # rev m'') = z @ e # rev m''"
    unfolding prefix_free_def by blast
  then have "trimEnd (m @ r) = m @ rev z"
    by (simp add: trimEnd_def me)
  with 1 show ?thesis by (simp add: trim_def)
qed

lemma marker_is_trailer:
  assumes "spec_is_blank pad"
    and "toLowerCase m = ''signed-off-by:'' \<or> toLowerCase m = ''co-authored-by:''"
  shows "spec_is_trailer (pad @ m @ r)"
proof -
  have solid: "\<forall>c \<in> set m. c \<notin> set (concat whiteSpaces)"
    using assms(2) solid_of_lower [OF _ markers_not_white(1)]
      solid_of_lower [OF _ markers_not_white(2)] by blast
  have ne: "m \<noteq> []" using assms(2) by (auto simp: toLowerCase_def)
  from trim_keeps_solid [OF assms(1) ne solid]
  obtain y where "trim (pad @ m @ r) = m @ y" by blast
  then have "toLowerCase (trim (pad @ m @ r)) = toLowerCase m @ toLowerCase y"
    by (simp add: toLowerCase_def)
  with assms(2) show ?thesis
    by (auto simp: spec_is_trailer_def)
qed

lemma formatMessage_parts:
  "formatMessage cfg nr body =
     (interpolateString nr (rawMessageTemplate cfg) @ nl @ nl)
     @ (if includeLastCommitText cfg \<and> body \<noteq> []
        then description_heading @ body @ nl @ nl else [])
     @ (case release_notes nr of
          None \<Rightarrow> []
        | Some ns \<Rightarrow> if includeChangelog cfg \<and> ns \<noteq> []
                     then changelog_heading @ ns @ nl @ nl else [])"
  by (simp add: formatMessage_def Let_def truthy_def ToString_def split: option.splits)

lemma demo_settings:
  "read_settings demo_config demo_context =
     \<lparr>rawAssets = [(''dist/app.bin'', ''Binary'')], isPrerelease = False,
      prereleaseEnabled = False, includeChangelog = True, includeLastCommitText = True,
      lastLine = [], rawMessageTemplate = ''New release: 1.2.0''\<rparr>"
  by (simp add: read_settings_def demo_config_def demo_context_def demo_release_def
      empty_prerelease_config_def or_false_def or_else_def ToString_def Let_def)

lemma demo_interpolated:
  "interpolateString demo_release ''New release: 1.2.0'' = ''New release: 1.2.0''"
  by code_simp

text \<open>
  C6. The composed message is the interpolated template and a blank line, then the
  Description section exactly when the include-last-commit-text flag is set and the excerpt
  is not empty, then the Changelog section exactly when the include-changelog flag is set
  and the release notes are present and not empty; each section ends with a blank line. So
  the message always begins with the interpolated template, and the order is template,
  description, changelog.
\<close>

theorem formatMessage_sections:
  "formatMessage cfg nr body =
     (interpolateString nr (rawMessageTemplate cfg) @ nl @ nl)
     @ (if includeLastCommitText cfg \<and> body \<noteq> []
        then description_heading @ body @ nl @ nl else [])
     @ (case release_notes nr of
          None \<Rightarrow> []
        | Some ns \<Rightarrow> if includeChangelog cfg \<and> ns \<noteq> []
                     then changelog_heading @ ns @ nl @ nl else [])
   \<and> prefix (interpolateString nr (rawMessageTemplate cfg) @ nl @ nl)
        (formatMessage cfg nr body)"
proof -
  have "prefix (interpolateString nr (rawMessageTemplate cfg) @ nl @ nl)
        (formatMessage cfg nr body)"
    unfolding formatMessage_parts [of cfg nr body] by (rule prefixI) (rule refl)
  then show ?thesis using formatMessage_parts [of cfg nr body] by blast
qed

theorem formatMessage_sections_witness:
  "formatMessage (read_settings demo_config demo_context) demo_release ''Details here'' =
     ''New release: 1.2.0'' @ nl @ nl
     @ description_heading @ ''Details here'' @ nl @ nl
     @ changelog_heading @ ''fix bug'' @ nl @ nl"
proof -
  note t = formatMessage_sections
    [of "read_settings demo_config demo_context" demo_release "''Details here''",
     THEN conjunct1]
  have r: "release_notes demo_release = Some ''fix bug''"
    by (simp add: demo_release_def)
  show ?thesis
    unfolding t by (simp add: demo_settings demo_interpolated r)
qed

text \<open>
  C7. When include-last-commit-text is enabled and there is at least one commit, the
  excerpt is the first commit's message split into lines, without its first line, without
  the blank lines and without the trailer lines, joined by line feeds and trimmed. A line
  is a trailer line whatever the case of the letters of its marker and whatever white
  space stands before the marker. When the excerpt is empty the composed message has no
  Description section.
\<close>

theorem lastCommitBody_excerpt:
  assumes "includeLastCommitText cfg" and "cs = c # rest"
  shows "lastCommitBody cfg cs = spec_excerpt (message c)
    \<and> (\<forall>pad m r. spec_is_blank pad
          \<and> (toLowerCase m = ''signed-off-by:'' \<or> toLowerCase m = ''co-authored-by:'')
          \<longrightarrow> \<not> keep_line (pad @ m @ r))
    \<and> (spec_excerpt (message c) = [] \<longrightarrow>
          formatMessage cfg nr (lastCommitBody cfg cs) =
            interpolateString nr (rawMessageTemplate cfg) @ nl @ nl
            @ (case release_notes nr of
                 None \<Rightarrow> []
               | Some ns \<Rightarrow> if includeChangelog cfg \<and> ns \<noteq> []
                            then changelog_heading @ ns @ nl @ nl else []))"
proof -
  have 1: "lastCommitBody cfg cs = spec_excerpt (message c)"
    using assms by (simp add: lastCommitBody_spec)
  have 2: "\<not> keep_line (pad @ m @ r)"
    if "spec_is_blank pad
        \<and> (toLowerCase m = ''signed-off-by:'' \<or> toLowerCase m = ''co-authored-by:'')"
    for pad m r
    using that marker_is_trailer [of pad m r] by (simp add: keep_line_spec)
  have 3: "formatMessage cfg nr (lastCommitBody cfg cs) =
            interpolateString nr (rawMessageTemplate cfg) @ nl @ nl
            @ (case release_notes nr of
                 None \<Rightarrow> []
               | Some ns \<Rightarrow> if includeChangelog cfg \<and> ns \<noteq> []
                            then changelog_heading @ ns @ nl @ nl else [])"
    if "spec_excerpt (message c) = []"
    using that 1 by (simp add: formatMessage_parts)
  from 1 2 3 show ?thesis by blast
qed

theorem lastCommitBody_excerpt_witness:
  "includeLastCommitText (read_settings demo_config demo_context)
   \<and> lastCommitBody (read_settings demo_config demo_context)
       [\<lparr>message = ''fix: bug'' @ nl @ nl @ [CHR 0xC2, CHR 0xA0] @ nl
           @ '' Details here'' @ nl
           @ [CHR 0xC2, CHR 0xA0] @ ''Co-Authored-By: Y'' @ nl
           @ ''More'' @ [CHR 0xE2, CHR 0x80, CHR 0xA8] @ nl
           @ ''Signed-off-by: X''\<rparr>]
       = ''Details here'' @ nl @ ''More''
   \<and> \<not> keep_line ([CHR 0xEF, CHR 0xBB, CHR 0xBF, CHR 0x09] @ ''SIGNED-off-BY:'' @ '' X '')
   \<and> lastCommitBody (read_settings demo_config demo_context)
       [\<lparr>message = ''fix: bug'' @ nl @ [CHR 0x09] @ nl @ ''signed-off-by: X''\<rparr>] = []
   \<and> formatMessage (read_settings demo_config demo_context) demo_release
         (lastCommitBody (read_settings demo_config demo_context)
            [\<lparr>message = ''fix: bug'' @ nl @ [CHR 0x09] @ nl @ ''signed-off-by: X''\<rparr>])
       = ''New release: 1.2.0'' @ nl @ nl @ changelog_heading @ ''fix bug'' @ nl @ nl"
proof -
  let ?c = "\<lparr>message = ''fix: bug'' @ nl @ nl @ [CHR 0xC2, CHR 0xA0] @ nl
           @ '' Details here'' @ nl
           @ [CHR 0xC2, CHR 0xA0] @ ''Co-Authored-By: Y'' @ nl
           @ ''More'' @ [CHR 0xE2, CHR 0x80, CHR 0xA8] @ nl
           @ ''Signed-off-by: X''\<rparr>"
  have h1: "includeLastCommitText (read_settings demo_config demo_context)"
    by (simp add: demo_settings)
  have e: "spec_excerpt (message ?c) = ''Details here'' @ nl @ ''More''"
    by code_simp
  have w1: "spec_is_blank [CHR 0xEF, CHR 0xBB, CHR 0xBF, CHR 0x09]"
    by code_simp
  have w2: "toLowerCase ''SIGNED-off-BY:'' = ''signed-off-by:''"
    by code_simp
  note t = lastCommitBody_excerpt [OF h1 refl, of ?c "[]" demo_release]
  from t have a: "lastCommitBody (read_settings demo_config demo_context) [?c]
      = spec_excerpt (message ?c)"
    by (rule conjunct1)
  from t have "\<forall>pad m r. spec_is_blank pad
          \<and> (toLowerCase m = ''signed-off-by:'' \<or> toLowerCase m = ''co-authored-by:'')
          \<longrightarrow> \<not> keep_line (pad @ m @ r)"
    by (rule conjunct2 [THEN conjunct1])
  with w1 w2 have b: "\<not> keep_line ([CHR 0xEF, CHR 0xBB, CHR 0xBF, CHR 0x09]
      @ ''SIGNED-off-BY:'' @ '' X '')"
    by blast
  let ?d = "\<lparr>message = ''fix: bug'' @ nl @ [CHR 0x09] @ nl @ ''signed-off-by: X''\<rparr>"
  have e': "spec_excerpt (message ?d) = []"
    by code_simp
  note t' = lastCommitBody_excerpt [OF h1 refl, of ?d "[]" demo_release]
  from t' have c: "lastCommitBody (read_settings demo_config demo_context) [?d] = []"
    unfolding e' by (rule conjunct1)
  have r: "release_notes demo_release = Some ''fix bug''"
    by (simp add: demo_release_def)
  from t' [THEN conjunct2, THEN conjunct2, rule_format, OF e']
  have d: "formatMessage (read_settings demo_config demo_context) demo_release
         (lastCommitBody (read_settings demo_config demo_context) [?d])
       = ''New release: 1.2.0'' @ nl @ nl @ changelog_heading @ ''fix bug'' @ nl @ nl"
    by (simp add: demo_settings demo_interpolated r)
  from h1 a e b c d show ?thesis by simp
qed

section \<open>The asset resolver: properties\<close>

lemma map_of_set_property:
  "map_of (set_property k v obj) f =
     (if k = proto_key then map_of obj f else ((map_of obj)(k \<mapsto> v)) f)"
  by (simp add: set_property_def update_conv')

lemma map_of_foldl_update:
  "map_of (foldl (\<lambda>obj file. set_property file l obj) acc fs) f
     = (if f \<in> set fs \<and> f \<noteq> proto_key then Some l else map_of acc f)"
proof (induction fs arbitrary: acc)
  case Nil
  then show ?case by simp
next
  case (Cons a fs)
  show ?case
    unfolding foldl_Cons Cons map_of_set_property by auto
qed

lemma distinct_set_property:
  "distinct (map fst obj) \<Longrightarrow> distinct (map fst (set_property k v obj))"
  by (simp add: set_property_def distinct_update)

lemma distinct_foldl_update:
  "distinct (map fst acc) \<Longrightarrow>
     distinct (map fst (foldl (\<lambda>obj file. set_property file l obj) acc fs))"
  by (induction fs arbitrary: acc) (simp_all add: distinct_set_property)

lemma spec_label_Cons:
  "spec_label w nr (e # es) f =
     (case spec_label w nr es f of
        Some l \<Rightarrow> Some l
      | None \<Rightarrow> if spec_matches w nr f e then Some (snd e) else None)"
  by (simp add: spec_label_def split: list.splits)

lemma spec_missing_Cons:
  "spec_missing w nr (e # es) =
     (if fastGlob w (interpolateString nr (fst e)) = Inr []
      then interpolateString nr (fst e) # spec_missing w nr es else spec_missing w nr es)"
  by (simp add: spec_missing_def)

lemma resolve_loop_returns:
  assumes "\<forall>e \<in> set es. \<exists>fs. fastGlob w (interpolateString nr (fst e)) = Inr fs"
  shows "\<exists>acc'. resolve_loop w nr es acc miss = Inr (acc', miss @ spec_missing w nr es)
     \<and> (distinct (map fst acc) \<longrightarrow> distinct (map fst acc'))
     \<and> (\<forall>f. f \<noteq> proto_key \<longrightarrow> map_of acc' f =
           (case spec_label w nr es f of Some l \<Rightarrow> Some l | None \<Rightarrow> map_of acc f))
     \<and> map_of acc' proto_key = map_of acc proto_key"
  using assms
proof (induction es arbitrary: acc miss)
  case Nil
  then show ?case by (simp add: spec_missing_def spec_label_def)
next
  case (Cons e es)
  obtain p l where e: "e = (p, l)" by (cases e)
  from Cons.prems obtain fs where fs: "fastGlob w (interpolateString nr p) = Inr fs"
    by (auto simp: e)
  from Cons.prems have rest: "\<forall>e \<in> set es. \<exists>fs. fastGlob w (interpolateString nr (fst e)) = Inr fs"
    by simp
  show ?case
  proof (cases "fs = []")
    case True
    from Cons.IH [OF rest, of acc "miss @ [interpolateString nr p]"]
    obtain acc' where a:
      "resolve_loop w nr es acc (miss @ [interpolateString nr p])
         = Inr (acc', (miss @ [interpolateString nr p]) @ spec_missing w nr es)"
      "distinct (map fst acc) \<longrightarrow> distinct (map fst acc')"
      "\<forall>f. f \<noteq> proto_key \<longrightarrow> map_of acc' f =
           (case spec_label w nr es f of Some l \<Rightarrow> Some l | None \<Rightarrow> map_of acc f)"
      "map_of acc' proto_key = map_of acc proto_key"
      by blast
    have nm: "\<not> spec_matches w nr f (p, l)" for f
      by (simp add: spec_matches_def fs True)
    have 1: "resolve_loop w nr (e # es) acc miss
        = Inr (acc', miss @ spec_missing w nr (e # es))"
      using a(1) by (simp add: e fs True spec_missing_Cons)
    have 2: "spec_label w nr (e # es) f = spec_label w nr es f" for f
      by (simp add: spec_label_Cons nm e split: option.splits)
    from 1 2 a(2,3,4) show ?thesis by simp
  next
    case False
    let ?acc1 = "foldl (\<lambda>obj file. set_property file l obj) acc fs"
    from Cons.IH [OF rest, of ?acc1 miss]
    obtain acc' where a:
      "resolve_loop w nr es ?acc1 miss = Inr (acc', miss @ spec_missing w nr es)"
      "distinct (map fst ?acc1) \<longrightarrow> distinct (map fst acc')"
      "\<forall>f. f \<noteq> proto_key \<longrightarrow> map_of acc' f =
           (case spec_label w nr es f of Some l \<Rightarrow> Some l | None \<Rightarrow> map_of ?acc1 f)"
      "map_of acc' proto_key = map_of ?acc1 proto_key"
      by blast
    have m: "spec_matches w nr f (p, l) = (f \<in> set fs)" for f
      by (simp add: spec_matches_def fs)
    have 1: "resolve_loop w nr (e # es) acc miss
        = Inr (acc', miss @ spec_missing w nr (e # es))"
      using a(1) False by (simp add: e fs spec_missing_Cons)
    have 2: "distinct (map fst acc) \<longrightarrow> distinct (map fst acc')"
      using a(2) distinct_foldl_update [of acc l fs] by blast
    have 3: "map_of acc' f =
           (case spec_label w nr (e # es) f of Some l \<Rightarrow> Some l | None \<Rightarrow> map_of acc f)"
      if "f \<noteq> proto_key" for f
      using a(3) that
      by (simp add: spec_label_Cons m map_of_foldl_update e split: option.splits)
    have 4: "map_of acc' proto_key = map_of acc proto_key"
      using a(4) by (simp add: map_of_foldl_update)
    from 1 2 3 4 show ?thesis by blast
  qed
qed

lemma resolveAssets_returns:
  assumes "\<forall>e \<in> set (Object_entries raw).
             \<exists>fs. fastGlob w (interpolateString nr (fst e)) = Inr fs"
  shows "resolveAssets w nr raw =
     (if spec_missing w nr (Object_entries raw) = []
      then Inr (fst (projr (resolve_loop w nr (Object_entries raw) [] [])))
      else Inl (assets_not_found (spec_missing w nr (Object_entries raw))))"
    and "distinct (map fst (fst (projr (resolve_loop w nr (Object_entries raw) [] []))))"
    and "f \<noteq> proto_key \<Longrightarrow>
          map_of (fst (projr (resolve_loop w nr (Object_entries raw) [] []))) f
          = spec_label w nr (Object_entries raw) f"
    and "map_of (fst (projr (resolve_loop w nr (Object_entries raw) [] []))) proto_key
          = None"
proof -
  from resolve_loop_returns [OF assms, of "[]" "[]"]
  obtain acc' where a:
    "resolve_loop w nr (Object_entries raw) [] []
       = Inr (acc', spec_missing w nr (Object_entries raw))"
    "distinct (map fst acc')"
    "\<forall>f. f \<noteq> proto_key \<longrightarrow> map_of acc' f =
        (case spec_label w nr (Object_entries raw) f of
           Some l \<Rightarrow> Some l | None \<Rightarrow> map_of [] f)"
    "map_of acc' proto_key = map_of [] proto_key"
    by auto
  show "resolveAssets w nr raw =
     (if spec_missing w nr (Object_entries raw) = []
      then Inr (fst (projr (resolve_loop w nr (Object_entries raw) [] [])))
      else Inl (assets_not_found (spec_missing w nr (Object_entries raw))))"
    by (simp add: resolveAssets_def a)
  show "distinct (map fst (fst (projr (resolve_loop w nr (Object_entries raw) [] []))))"
    by (simp add: a)
  show "map_of (fst (projr (resolve_loop w nr (Object_entries raw) [] []))) f
          = spec_label w nr (Object_entries raw) f" if "f \<noteq> proto_key"
    using a(3) that by (simp add: a(1) split: option.splits)
  show "map_of (fst (projr (resolve_loop w nr (Object_entries raw) [] []))) proto_key
          = None"
    using a(4) by (simp add: a(1))
qed

lemma spec_label_matched:
  assumes "e \<in> set entries" and "spec_matches w nr f e"
  shows "\<exists>e' \<in> set entries. spec_matches w nr f e' \<and> spec_label w nr entries f = Some (snd e')"
proof -
  from assms have "e \<in> set (filter (spec_matches w nr f) (rev entries))" by simp
  then obtain x xs where x: "filter (spec_matches w nr f) (rev entries) = x # xs"
    by (cases "filter (spec_matches w nr f) (rev entries)") auto
  then have "x \<in> set (filter (spec_matches w nr f) (rev entries))" by simp
  then have "x \<in> set entries" "spec_matches w nr f x" by auto
  moreover have "spec_label w nr entries f = Some (snd x)"
    by (simp add: spec_label_def x)
  ultimately show ?thesis by blast
qed

section \<open>The run: the stages of the try block and the catch block\<close>

lemma success_run:
  assumes "truthy (SLACK_TOKEN w)" and "truthy (SLACK_CHANNEL w)"
    and "\<not> (isPrerelease (read_settings pluginConfig ctx)
             \<and> \<not> prereleaseEnabled (read_settings pluginConfig ctx))"
  shows "success w pluginConfig ctx =
     (case try_block w (ToString (SLACK_CHANNEL w)) (read_settings pluginConfig ctx) ctx
             initial_state of
        (Inr u, s) \<Rightarrow> (Inr (), s)
      | (Inl e, s) \<Rightarrow>
          (Inl (fst (catch_block w (ToString (SLACK_CHANNEL w)) e s)),
           snd (catch_block w (ToString (SLACK_CHANNEL w)) e s)))"
  using assms by (auto simp: success_def Let_def split: prod.splits sum.splits)

lemma try_block_resolve_fails:
  "resolveAssets w (nextRelease ctx) (rawAssets cfg) = Inl e \<Longrightarrow>
     try_block w ch cfg ctx s = (Inl e, s)"
  by (simp add: try_block_def)

lemma catch_block_nothing_posted:
  "threadTs s = None \<Longrightarrow> initialMessage s = None \<Longrightarrow>
     catch_block w ch e s =
       (e, logger (LogError (''Error during file upload or message update: ''
              @ error_message e)) s)"
  by (simp add: catch_block_def Let_def logger_def truthy_def)

lemma success_resolve_fails:
  assumes "truthy (SLACK_TOKEN w)" and "truthy (SLACK_CHANNEL w)"
    and "\<not> (isPrerelease (read_settings pluginConfig ctx)
             \<and> \<not> prereleaseEnabled (read_settings pluginConfig ctx))"
    and "resolveAssets w (nextRelease ctx) (rawAssets (read_settings pluginConfig ctx)) = Inl e"
  shows "success w pluginConfig ctx =
     (Inl e, \<lparr>calls = [],
        logs = [LogError (''Error during file upload or message update: '' @ error_message e)],
        downloadLinks = [], initialMessage = None, threadTs = None\<rparr>)"
proof -
  have "catch_block w (ToString (SLACK_CHANNEL w)) e initial_state =
       (e, logger (LogError (''Error during file upload or message update: ''
              @ error_message e)) initial_state)"
    by (rule catch_block_nothing_posted) (simp_all add: initial_state_def)
  then show ?thesis
    using success_run [OF assms(1-3)] try_block_resolve_fails [OF assms(4)]
    by (simp add: logger_def initial_state_def)
qed

section \<open>The asset resolver: the claim\<close>

text \<open>
  C2, as stated, fails: when two declarations match the same file, the file appears in
  the mapping once, under the label of the later declaration, and not under the label of
  the earlier one, although every declared pattern matches a file.
\<close>

theorem resolveAssets_counterexample:
  "spec_missing overlap_world demo_release [(''a*'', ''A''), (''*b'', ''B'')] = []
   \<and> spec_matches overlap_world demo_release ''ab'' (''a*'', ''A'')
   \<and> resolveAssets overlap_world demo_release [(''a*'', ''A''), (''*b'', ''B'')]
       = Inr [(''ab'', ''B'')]"
  by code_simp

text \<open>
  C2, amended. Let the glob expansion return for every declared pattern. If every
  interpolated pattern matches at least one file, \<open>resolveAssets\<close> succeeds; the mapping
  has each file once; a file whose name is not \<open>__proto__\<close> is in it exactly when some
  declaration matches it, and its label is the label of the last declaration (in
  \<open>Object.entries\<close> order) that matches it. If some pattern matches no file,
  \<open>resolveAssets\<close> throws one error whose text is the heading line followed by the
  interpolated patterns that matched nothing, one per line, in declaration order; in
  \<open>success\<close> this error leaves the run before any call on the chat client: the trace of
  calls is empty and the error is what \<open>success\<close> throws.
\<close>

theorem resolveAssets_all_or_nothing:
  assumes "\<forall>e \<in> set (Object_entries raw).
             \<exists>fs. fastGlob w (interpolateString nr (fst e)) = Inr fs"
  shows
   "(spec_missing w nr (Object_entries raw) = [] \<longrightarrow>
       (\<exists>assets. resolveAssets w nr raw = Inr assets \<and> distinct (map fst assets)
          \<and> (\<forall>f. f \<noteq> proto_key \<longrightarrow>
                map_of assets f = spec_label w nr (Object_entries raw) f)
          \<and> (\<forall>e \<in> set (Object_entries raw). \<forall>f.
                f \<noteq> proto_key \<and> spec_matches w nr f e \<longrightarrow>
                (\<exists>e' \<in> set (Object_entries raw).
                    spec_matches w nr f e' \<and> map_of assets f = Some (snd e')))))
    \<and> (spec_missing w nr (Object_entries raw) \<noteq> [] \<longrightarrow>
         resolveAssets w nr raw =
           Inl (Error (''The following required assets were not found:'' @ nl
                  @ join nl (spec_missing w nr (Object_entries raw))))
         \<and> (\<forall>pluginConfig ctx.
               truthy (SLACK_TOKEN w) \<and> truthy (SLACK_CHANNEL w)
               \<and> \<not> (isPrerelease (read_settings pluginConfig ctx)
                      \<and> \<not> prereleaseEnabled (read_settings pluginConfig ctx))
               \<and> nextRelease ctx = nr \<and> rawAssets (read_settings pluginConfig ctx) = raw
               \<longrightarrow> fst (success w pluginConfig ctx) =
                     Inl (Error (''The following required assets were not found:'' @ nl
                            @ join nl (spec_missing w nr (Object_entries raw))))
                   \<and> calls (snd (success w pluginConfig ctx)) = []))"
proof (intro conjI impI)
  let ?assets = "fst (projr (resolve_loop w nr (Object_entries raw) [] []))"
  assume none: "spec_missing w nr (Object_entries raw) = []"
  have 1: "resolveAssets w nr raw = Inr ?assets"
    using resolveAssets_returns(1) [OF assms] none by simp
  have 2: "distinct (map fst ?assets)"
    by (rule resolveAssets_returns(2) [OF assms])
  have 3: "\<forall>f. f \<noteq> proto_key \<longrightarrow>
      map_of ?assets f = spec_label w nr (Object_entries raw) f"
    using resolveAssets_returns(3) [OF assms] by blast
  have 4: "\<forall>e \<in> set (Object_entries raw). \<forall>f.
                f \<noteq> proto_key \<and> spec_matches w nr f e \<longrightarrow>
                (\<exists>e' \<in> set (Object_entries raw).
                    spec_matches w nr f e' \<and> map_of ?assets f = Some (snd e'))"
    using spec_label_matched [of _ "Object_entries raw" w nr] 3 by metis
  from 1 2 3 4
  show "\<exists>assets. resolveAssets w nr raw = Inr assets \<and> distinct (map fst assets)
          \<and> (\<forall>f. f \<noteq> proto_key \<longrightarrow>
                map_of assets f = spec_label w nr (Object_entries raw) f)
          \<and> (\<forall>e \<in> set (Object_entries raw). \<forall>f.
                f \<noteq> proto_key \<and> spec_matches w nr f e \<longrightarrow>
                (\<exists>e' \<in> set (Object_entries raw).
                    spec_matches w nr f e' \<and> map_of assets f = Some (snd e')))"
    by blast
next
  assume some: "spec_missing w nr (Object_entries raw) \<noteq> []"
  show r: "resolveAssets w nr raw =
           Inl (Error (''The following required assets were not found:'' @ nl
                  @ join nl (spec_missing w nr (Object_entries raw))))"
    using resolveAssets_returns(1) [OF assms] some by (simp add: assets_not_found_def)
  show "\<forall>pluginConfig ctx.
               truthy (SLACK_TOKEN w) \<and> truthy (SLACK_CHANNEL w)
               \<and> \<not> (isPrerelease (read_settings pluginConfig ctx)
                      \<and> \<not> prereleaseEnabled (read_settings pluginConfig ctx))
               \<and> nextRelease ctx = nr \<and> rawAssets (read_settings pluginConfig ctx) = raw
               \<longrightarrow> fst (success w pluginConfig ctx) =
                     Inl (Error (''The following required assets were not found:'' @ nl
                            @ join nl (spec_missing w nr (Object_entries raw))))
                   \<and> calls (snd (success w pluginConfig ctx)) = []"
  proof (intro allI impI)
    fix pluginConfig ctx
    assume h: "truthy (SLACK_TOKEN w) \<and> truthy (SLACK_CHANNEL w)
               \<and> \<not> (isPrerelease (read_settings pluginConfig ctx)
                      \<and> \<not> prereleaseEnabled (read_settings pluginConfig ctx))
               \<and> nextRelease ctx = nr \<and> rawAssets (read_settings pluginConfig ctx) = raw"
    then have "resolveAssets w (nextRelease ctx) (rawAssets (read_settings pluginConfig ctx))
        = Inl (Error (''The following required assets were not found:'' @ nl
                  @ join nl (spec_missing w nr (Object_entries raw))))"
      using r by simp
    from success_resolve_fails [OF _ _ _ this] h
    show "fst (success w pluginConfig ctx) =
                     Inl (Error (''The following required assets were not found:'' @ nl
                            @ join nl (spec_missing w nr (Object_entries raw))))
                   \<and> calls (snd (success w pluginConfig ctx)) = []"
      by simp
  qed
qed

text \<open>
  A matched file named \<open>__proto__\<close> is not in the mapping: the assignment of line 55 does
  not create the property.
\<close>

lemma resolveAssets_without_proto:
  assumes "\<forall>e \<in> set (Object_entries raw).
             \<exists>fs. fastGlob w (interpolateString nr (fst e)) = Inr fs"
    and "resolveAssets w nr raw = Inr assets"
  shows "map_of assets proto_key = None"
proof -
  from assms(2) resolveAssets_returns(1) [OF assms(1)]
  have "assets = fst (projr (resolve_loop w nr (Object_entries raw) [] []))"
    by (auto split: if_splits)
  with resolveAssets_returns(4) [OF assms(1)] show ?thesis by simp
qed

lemma missing_settings:
  "read_settings missing_config demo_context =
     \<lparr>rawAssets = [(''x'', ''X''), (''dist/app.bin'', ''Binary''),
        (''y-${nextRelease.version}'', ''Y'')], isPrerelease = False,
      prereleaseEnabled = False, includeChangelog = True, includeLastCommitText = True,
      lastLine = [], rawMessageTemplate = ''New release: 1.2.0''\<rparr>"
  by (simp add: read_settings_def missing_config_def demo_config_def demo_context_def
      demo_release_def empty_prerelease_config_def or_false_def or_else_def ToString_def Let_def)

theorem resolveAssets_all_or_nothing_witness:
  "(\<exists>assets. resolveAssets demo_world demo_release [(''dist/app.bin'', ''Binary'')] = Inr assets
      \<and> map_of assets ''dist/app.bin'' = Some ''Binary'')
   \<and> resolveAssets demo_world demo_release
        [(''x'', ''X''), (''dist/app.bin'', ''Binary''), (''y-${nextRelease.version}'', ''Y'')]
       = Inl (Error (''The following required assets were not found:'' @ nl
                @ ''x'' @ nl @ ''y-1.2.0''))
   \<and> fst (success demo_world missing_config demo_context)
       = Inl (Error (''The following required assets were not found:'' @ nl
                @ ''x'' @ nl @ ''y-1.2.0''))
   \<and> calls (snd (success demo_world missing_config demo_context)) = []"
proof -
  let ?raw1 = "[(''dist/app.bin'', ''Binary'')]"
  let ?raw2 = "[(''x'', ''X''), (''dist/app.bin'', ''Binary''), (''y-${nextRelease.version}'', ''Y'')]"
  have g: "\<exists>fs. fastGlob demo_world p = Inr fs" for p
    by (simp add: demo_world_def)
  have m1: "spec_missing demo_world demo_release (Object_entries ?raw1) = []"
    by code_simp
  have l1: "spec_label demo_world demo_release (Object_entries ?raw1) ''dist/app.bin''
      = Some ''Binary''"
    by code_simp
  have m2: "spec_missing demo_world demo_release (Object_entries ?raw2) = [''x'', ''y-1.2.0'']"
    by code_simp
  have c: "truthy (SLACK_TOKEN demo_world)" "truthy (SLACK_CHANNEL demo_world)"
    by (simp_all add: demo_world_def truthy_simps)
  have n: "nextRelease demo_context = demo_release"
    by (simp add: demo_context_def)
  have np: "''dist/app.bin'' \<noteq> proto_key"
    by (simp add: proto_key_def)
  have g1: "\<forall>e \<in> set (Object_entries ?raw1).
      \<exists>fs. fastGlob demo_world (interpolateString demo_release (fst e)) = Inr fs"
    using g by blast
  from resolveAssets_all_or_nothing [OF g1, THEN conjunct1, rule_format, OF m1]
  obtain assets where as: "resolveAssets demo_world demo_release ?raw1 = Inr assets"
    "\<forall>f. f \<noteq> proto_key \<longrightarrow>
       map_of assets f = spec_label demo_world demo_release (Object_entries ?raw1) f"
    by blast
  from as(2) np l1 have "map_of assets ''dist/app.bin'' = Some ''Binary''"
    by simp
  with as(1) have a: "\<exists>assets. resolveAssets demo_world demo_release ?raw1 = Inr assets
      \<and> map_of assets ''dist/app.bin'' = Some ''Binary''"
    by blast
  note t2 = resolveAssets_all_or_nothing [of ?raw2 demo_world demo_release]
  from t2 g m2
  have b: "resolveAssets demo_world demo_release ?raw2
       = Inl (Error (''The following required assets were not found:'' @ nl
                @ join nl [''x'', ''y-1.2.0'']))"
    by simp
  from t2 g m2
  have "\<forall>pluginConfig ctx.
               truthy (SLACK_TOKEN demo_world) \<and> truthy (SLACK_CHANNEL demo_world)
               \<and> \<not> (isPrerelease (read_settings pluginConfig ctx)
                      \<and> \<not> prereleaseEnabled (read_settings pluginConfig ctx))
               \<and> nextRelease ctx = demo_release
               \<and> rawAssets (read_settings pluginConfig ctx) = ?raw2
               \<longrightarrow> fst (success demo_world pluginConfig ctx) =
                     Inl (Error (''The following required assets were not found:'' @ nl
                            @ join nl [''x'', ''y-1.2.0'']))
                   \<and> calls (snd (success demo_world pluginConfig ctx)) = []"
    by simp
  then have d: "fst (success demo_world missing_config demo_context) =
                     Inl (Error (''The following required assets were not found:'' @ nl
                            @ join nl [''x'', ''y-1.2.0'']))
                   \<and> calls (snd (success demo_world missing_config demo_context)) = []"
    using c n by (simp add: missing_settings)
  from a b d show ?thesis by simp
qed

section \<open>The upload loop: properties\<close>

lemma upload_asset_missing:
  "\<not> existsSync w (path_resolve w filePath) \<Longrightarrow>
     upload_asset w ch (filePath, label) s
       = (Inl (file_not_found (path_resolve w filePath)), s)"
  by (simp add: upload_asset_def Let_def)

lemma upload_asset_throws:
  assumes "existsSync w (path_resolve w filePath)"
    and "files_uploadV2 w (calls s) (upload_call w ch (filePath, label) (threadTs s)) = Inl e"
  shows "upload_asset w ch (filePath, label) s =
     (Inl e, s\<lparr>calls := calls s @ [upload_call w ch (filePath, label) (threadTs s)],
               logs := logs s @ [Log (''Uploading '' @ label @ ''...'')]\<rparr>)"
  using assms by (simp add: upload_asset_def Let_def uploadV2_def logger_def upload_call_def)

lemma upload_asset_anomalous:
  assumes "existsSync w (path_resolve w filePath)"
    and "files_uploadV2 w (calls s) (upload_call w ch (filePath, label) (threadTs s)) = Inr r"
    and "uploadedFile r = None"
  shows "upload_asset w ch (filePath, label) s =
     (Inr (), s\<lparr>calls := calls s @ [upload_call w ch (filePath, label) (threadTs s)],
               logs := logs s @ [Log (''Uploading '' @ label @ ''...''),
                                 LogError (''Failed to upload '' @ label @ ''.'')]\<rparr>)"
  using assms by (simp add: upload_asset_def Let_def uploadV2_def logger_def upload_call_def)

lemma upload_asset_ok:
  assumes "existsSync w (path_resolve w filePath)"
    and "files_uploadV2 w (calls s) (upload_call w ch (filePath, label) (threadTs s)) = Inr r"
    and "uploadedFile r = Some f"
  shows "upload_asset w ch (filePath, label) s =
     (Inr (), s\<lparr>calls := calls s @ [upload_call w ch (filePath, label) (threadTs s)],
               logs := logs s @ [Log (''Uploading '' @ label @ ''...''),
                                 Log (''Uploaded '' @ label @ '': '' @ file_id f)],
               downloadLinks := downloadLinks s @ [download_link label f]\<rparr>)"
  using assms by (simp add: upload_asset_def Let_def uploadV2_def logger_def upload_call_def)

lemma upload_asset_links:
  "downloadLinks (snd (upload_asset w ch (filePath, label) s)) =
     downloadLinks s @
       (if existsSync w (path_resolve w filePath) then
          (case files_uploadV2 w (calls s) (upload_call w ch (filePath, label) (threadTs s)) of
             Inl e \<Rightarrow> []
           | Inr r \<Rightarrow> (case uploadedFile r of None \<Rightarrow> [] | Some f \<Rightarrow> [download_link label f]))
        else [])"
  by (simp add: upload_asset_def Let_def uploadV2_def logger_def upload_call_def
      split: sum.splits option.splits)

lemma upload_asset_frame:
  assumes "upload_asset w ch entry s = (res, s')"
  shows "threadTs s' = threadTs s \<and> initialMessage s' = initialMessage s
     \<and> (\<exists>us. calls s' = calls s @ us \<and> list_all is_upload us)
     \<and> (\<exists>ls. downloadLinks s' = downloadLinks s @ ls)"
  using assms
  by (auto simp: upload_asset_def Let_def uploadV2_def logger_def
      split: if_splits sum.splits option.splits)

lemma upload_loop_frame:
  assumes "upload_loop w ch entries s = (res, s')"
  shows "threadTs s' = threadTs s \<and> initialMessage s' = initialMessage s
     \<and> (\<exists>us. calls s' = calls s @ us \<and> list_all is_upload us)
     \<and> (\<exists>ls. downloadLinks s' = downloadLinks s @ ls)"
  using assms
proof (induction entries arbitrary: s)
  case Nil
  then show ?case by simp
next
  case (Cons entry entries)
  obtain r1 s1 where a: "upload_asset w ch entry s = (r1, s1)"
    by (cases "upload_asset w ch entry s")
  note f1 = upload_asset_frame [OF a]
  show ?case
  proof (cases r1)
    case (Inl e)
    with Cons.prems a have "s' = s1" by simp
    with f1 show ?thesis by simp
  next
    case (Inr u)
    with Cons.prems a have "upload_loop w ch entries s1 = (res, s')" by simp
    from Cons.IH [OF this] f1 show ?thesis
      by (metis append.assoc list_all_append)
  qed
qed

lemma upload_loop_append:
  "upload_loop w ch (xs @ ys) s =
     (case upload_loop w ch xs s of
        (Inl e, s') \<Rightarrow> (Inl e, s')
      | (Inr u, s') \<Rightarrow> upload_loop w ch ys s')"
  by (induction xs arbitrary: s) (auto split: prod.splits sum.splits)

lemma try_block_post_fails:
  assumes "resolveAssets w (nextRelease ctx) (rawAssets cfg) = Inr assets"
    and "chat_postMessage w [] (initial_post ch cfg ctx) = Inl e"
  shows "try_block w ch cfg ctx initial_state
     = (Inl e, initial_state\<lparr>calls := [initial_post ch cfg ctx]\<rparr>)"
  using assms
  by (simp add: try_block_def postMessage_def initial_post_def initial_state_def Let_def)

lemma try_block_started:
  assumes "resolveAssets w (nextRelease ctx) (rawAssets cfg) = Inr assets"
    and "chat_postMessage w [] (initial_post ch cfg ctx) = Inr r"
  shows "try_block w ch cfg ctx initial_state =
     (case upload_loop w ch (Object_entries assets) (started ch cfg ctx r) of
        (Inl e, s) \<Rightarrow> (Inl e, s)
      | (Inr u, s) \<Rightarrow>
          update_step w ch cfg (nextRelease ctx) (lastCommitBody cfg (commits ctx)) s)"
  using assms
  by (simp add: try_block_def postMessage_def initial_post_def initial_state_def Let_def
      started_def logger_def)

lemma updatedMessage_parts:
  "updatedMessage cfg nr body links =
     formatMessage cfg nr body @ download_heading @ join nl links
     @ (if lastLine cfg = [] then [] else nl @ nl @ lastLine cfg)"
  by (simp add: updatedMessage_def Let_def)

lemma update_step_empty:
  "downloadLinks s = [] \<Longrightarrow>
     update_step w ch cfg nr body s =
       (Inr (), s\<lparr>logs := logs s
          @ [Warn ''No files uploaded. The initial message was not updated.'']\<rparr>)"
  by (simp add: update_step_def logger_def)

lemma update_step_calls:
  "downloadLinks s \<noteq> [] \<Longrightarrow>
     calls (snd (update_step w ch cfg nr body s)) =
       calls s @ [ChatUpdate ch (threadTs s) (updatedMessage cfg nr body (downloadLinks s))]"
  by (simp add: update_step_def update_def logger_def split: sum.splits)

lemma update_step_returns:
  assumes "downloadLinks s \<noteq> []"
    and "chat_update w (calls s)
           (ChatUpdate ch (threadTs s) (updatedMessage cfg nr body (downloadLinks s))) = Inr u"
  shows "update_step w ch cfg nr body s =
     (Inr (), s\<lparr>calls := calls s
          @ [ChatUpdate ch (threadTs s) (updatedMessage cfg nr body (downloadLinks s))],
        logs := logs s
          @ [Log ''Release message updated with download links and last line.'']\<rparr>)"
  using assms by (simp add: update_step_def update_def logger_def)

lemma catch_block_reply_throws:
  assumes "truthy (threadTs s)"
    and "chat_postMessage w (calls s) (error_reply ch (ToString (threadTs s)) e) = Inl e1"
  shows "catch_block w ch e s =
     (e1, s\<lparr>calls := calls s @ [error_reply ch (ToString (threadTs s)) e],
            logs := logs s @ [LogError (''Error during file upload or message update: ''
                      @ error_message e)]\<rparr>)"
  using assms by (simp add: catch_block_def Let_def logger_def postMessage_def)

lemma returns_error_reply:
  "returns w h (error_reply ch t e) =
     (case chat_postMessage w h (error_reply ch t e) of Inl x \<Rightarrow> False | Inr r \<Rightarrow> True)"
  by (simp add: error_reply_def)

lemma returns_caution_update:
  "returns w h (caution_update ch m) =
     (case chat_update w h (caution_update ch m) of Inl x \<Rightarrow> False | Inr r \<Rightarrow> True)"
  by (simp add: caution_update_def)

lemma catch_block_update_throws:
  assumes "all_return w (calls s)
             (if truthy (threadTs s) then [error_reply ch (ToString (threadTs s)) e] else [])"
    and "initialMessage s = Some m"
    and "chat_update w
           (calls s @ (if truthy (threadTs s)
                       then [error_reply ch (ToString (threadTs s)) e] else []))
           (caution_update ch m) = Inl e2"
  shows "catch_block w ch e s =
     (e2, s\<lparr>calls := calls s @ spec_recovery ch e s,
            logs := logs s @ [LogError (''Error during file upload or message update: ''
                      @ error_message e)]\<rparr>)"
proof (cases "truthy (threadTs s)")
  case True
  with assms show ?thesis
    by (auto simp: catch_block_def Let_def logger_def postMessage_def update_def
        spec_recovery_def returns_error_reply split: sum.splits)
next
  case False
  with assms show ?thesis
    by (auto simp: catch_block_def Let_def logger_def postMessage_def update_def
        spec_recovery_def split: sum.splits)
qed

lemma all_return_append:
  "all_return w h (xs @ ys) = (all_return w h xs \<and> all_return w (h @ xs) ys)"
  by (induction xs arbitrary: h) auto

lemma catch_block_all_return:
  assumes "all_return w (calls s) (spec_recovery ch e s)"
  shows "catch_block w ch e s =
     (e, s\<lparr>calls := calls s @ spec_recovery ch e s,
           logs := logs s @ [LogError (''Error during file upload or message update: ''
                      @ error_message e)]\<rparr>)"
  using assms
  by (auto simp: catch_block_def Let_def logger_def postMessage_def update_def
      spec_recovery_def returns_error_reply returns_caution_update all_return_append
      split: sum.splits option.splits if_splits)

lemma catch_block_calls:
  "\<exists>cs. calls (snd (catch_block w ch e s)) = calls s @ cs \<and> prefix cs (spec_recovery ch e s)"
  by (auto simp: catch_block_def Let_def logger_def postMessage_def update_def
      spec_recovery_def split: sum.splits option.splits)

lemma success_try_failed:
  assumes "truthy (SLACK_TOKEN w)" and "truthy (SLACK_CHANNEL w)"
    and "\<not> (isPrerelease (read_settings pluginConfig ctx)
             \<and> \<not> prereleaseEnabled (read_settings pluginConfig ctx))"
    and "try_block w (ToString (SLACK_CHANNEL w)) (read_settings pluginConfig ctx) ctx
           initial_state = (Inl e, s)"
  shows "success w pluginConfig ctx =
     (Inl (fst (catch_block w (ToString (SLACK_CHANNEL w)) e s)),
      snd (catch_block w (ToString (SLACK_CHANNEL w)) e s))"
  using success_run [OF assms(1-3)] assms(4) by simp

lemma success_try_returned:
  assumes "truthy (SLACK_TOKEN w)" and "truthy (SLACK_CHANNEL w)"
    and "\<not> (isPrerelease (read_settings pluginConfig ctx)
             \<and> \<not> prereleaseEnabled (read_settings pluginConfig ctx))"
    and "try_block w (ToString (SLACK_CHANNEL w)) (read_settings pluginConfig ctx) ctx
           initial_state = (Inr u, s)"
  shows "success w pluginConfig ctx = (Inr (), s)"
  using success_run [OF assms(1-3)] assms(4) by simp

lemma upload_loop_step_ok:
  assumes "existsSync w (path_resolve w filePath)"
    and "files_uploadV2 w (calls s) (upload_call w ch (filePath, label) (threadTs s)) = Inr r"
    and "uploadedFile r = Some f"
  shows "upload_loop w ch ((filePath, label) # rest) s =
     upload_loop w ch rest
       (s\<lparr>calls := calls s @ [upload_call w ch (filePath, label) (threadTs s)],
          logs := logs s @ [Log (''Uploading '' @ label @ ''...''),
                            Log (''Uploaded '' @ label @ '': '' @ file_id f)],
          downloadLinks := downloadLinks s @ [download_link label f]\<rparr>)"
  using upload_asset_ok [OF assms] by simp

lemma update_step_throws:
  assumes "downloadLinks s \<noteq> []"
    and "chat_update w (calls s)
           (ChatUpdate ch (threadTs s) (updatedMessage cfg nr body (downloadLinks s))) = Inl e"
  shows "update_step w ch cfg nr body s =
     (Inl e, s\<lparr>calls := calls s
          @ [ChatUpdate ch (threadTs s) (updatedMessage cfg nr body (downloadLinks s))]\<rparr>)"
  using assms by (simp add: update_step_def update_def)

lemma try_block_missing:
  assumes "resolveAssets w (nextRelease ctx) (rawAssets cfg) = Inr assets"
    and "chat_postMessage w [] (initial_post ch cfg ctx) = Inr r"
    and "Object_entries assets = (filePath, label) # rest"
    and "\<not> existsSync w (path_resolve w filePath)"
  shows "try_block w ch cfg ctx initial_state =
     (Inl (file_not_found (path_resolve w filePath)), started ch cfg ctx r)"
  unfolding try_block_started [OF assms(1,2)] assms(3)
  using upload_asset_missing [OF assms(4)] by simp

section \<open>The example runs, evaluated\<close>

lemma demo_entries:
  "Object_entries [(''dist/app.bin'', ''Binary'')] = [(''dist/app.bin'', ''Binary'')]"
  by code_simp

lemma demo_env:
  "truthy (SLACK_TOKEN demo_world)" "truthy (SLACK_CHANNEL demo_world)"
  "ToString (SLACK_CHANNEL demo_world) = ''C01''"
  by (simp_all add: demo_world_def truthy_simps ToString_def)

lemma demo_guard:
  "\<not> (isPrerelease (read_settings demo_config demo_context)
      \<and> \<not> prereleaseEnabled (read_settings demo_config demo_context))"
  by (simp add: demo_settings)

lemma demo_resolved:
  "resolveAssets demo_world demo_release [(''dist/app.bin'', ''Binary'')]
     = Inr [(''dist/app.bin'', ''Binary'')]"
  "resolveAssets vanished_world demo_release [(''dist/app.bin'', ''Binary'')]
     = Inr [(''dist/app.bin'', ''Binary'')]"
  "resolveAssets anomalous_world demo_release [(''dist/app.bin'', ''Binary'')]
     = Inr [(''dist/app.bin'', ''Binary'')]"
  "resolveAssets upload_fails_world demo_release [(''dist/app.bin'', ''Binary'')]
     = Inr [(''dist/app.bin'', ''Binary'')]"
  "resolveAssets reply_fails_world demo_release [(''dist/app.bin'', ''Binary'')]
     = Inr [(''dist/app.bin'', ''Binary'')]"
  by code_simp+

lemma demo_posted:
  "chat_postMessage demo_world h (initial_post ch cfg ctx) =
     Inr \<lparr>ts = ''17.1'',
          message_text = formatMessage cfg (nextRelease ctx) (lastCommitBody cfg (commits ctx))\<rparr>"
  by (simp add: demo_world_def initial_post_def)

lemma demo_upload:
  "upload_loop demo_world ch [(''dist/app.bin'', ''Binary'')] s =
     (Inr (), s\<lparr>calls := calls s
                   @ [upload_call demo_world ch (''dist/app.bin'', ''Binary'') (threadTs s)],
               logs := logs s @ [Log ''Uploading Binary...'', Log ''Uploaded Binary: F1''],
               downloadLinks := downloadLinks s @ [download_link ''Binary'' demo_file]\<rparr>)"
proof -
  have e: "existsSync demo_world (path_resolve demo_world ''dist/app.bin'')"
    by (simp add: demo_world_def)
  have u: "files_uploadV2 demo_world (calls s)
        (upload_call demo_world ch (''dist/app.bin'', ''Binary'') (threadTs s))
      = Inr \<lparr>ok = True, files = Some [Completion (Some [demo_file])]\<rparr>"
    by (simp add: demo_world_def)
  have f: "uploadedFile \<lparr>ok = True, files = Some [Completion (Some [demo_file])]\<rparr>
      = Some demo_file"
    by (simp add: uploadedFile_def)
  show ?thesis
    using upload_asset_ok [OF e u f] by (simp add: demo_file_def)
qed

lemma demo_run_facts:
  "nextRelease demo_context = demo_release"
  "rawAssets (read_settings demo_config demo_context) = [(''dist/app.bin'', ''Binary'')]"
  by (simp_all add: demo_settings) (simp add: demo_context_def)

lemma vanished_fields:
  "truthy (SLACK_TOKEN vanished_world)" "truthy (SLACK_CHANNEL vanished_world)"
  "ToString (SLACK_CHANNEL vanished_world) = ''C01''"
  "path_resolve vanished_world p = ''/w/'' @ p"
  "\<not> existsSync vanished_world p"
  "chat_postMessage vanished_world = chat_postMessage demo_world"
  "chat_update vanished_world h c = Inr ()"
  by (simp_all add: vanished_world_def demo_world_def truthy_simps ToString_def)

lemma demo_replied:
  "chat_postMessage demo_world h (error_reply ch t e) =
     Inr \<lparr>ts = ''17.1'', message_text = '':x: An error occurred during the release process:''
        @ nl @ [CHR 0x60] @ error_message e @ [CHR 0x60]\<rparr>"
  by (simp add: demo_world_def error_reply_def)

lemma two_settings:
  "read_settings two_config demo_context =
     \<lparr>rawAssets = [(''a.bin'', ''A''), (''b.bin'', ''B'')], isPrerelease = False,
      prereleaseEnabled = False, includeChangelog = True, includeLastCommitText = True,
      lastLine = ''Bye'', rawMessageTemplate = ''New release: 1.2.0''\<rparr>"
  by (simp add: read_settings_def two_config_def demo_config_def demo_context_def
      demo_release_def empty_prerelease_config_def or_false_def or_else_def ToString_def Let_def)

lemma two_entries:
  "Object_entries [(''a.bin'', ''A''), (''b.bin'', ''B'')] = [(''a.bin'', ''A''), (''b.bin'', ''B'')]"
  by code_simp

lemma two_resolved:
  "resolveAssets two_world demo_release [(''a.bin'', ''A''), (''b.bin'', ''B'')]
     = Inr [(''a.bin'', ''A''), (''b.bin'', ''B'')]"
  by code_simp

lemma two_fields:
  "truthy (SLACK_TOKEN two_world)" "truthy (SLACK_CHANNEL two_world)"
  "ToString (SLACK_CHANNEL two_world) = ''C01''"
  "path_resolve two_world p = ''/w/'' @ p"
  "existsSync two_world p"
  "chat_postMessage two_world = chat_postMessage demo_world"
  "chat_update two_world h c = Inr ()"
  "files_uploadV2 two_world h (upload_call two_world ch (p, l) th) =
     Inr \<lparr>ok = True, files = Some [Completion (Some [uploaded_as l])]\<rparr>"
  by (simp_all add: two_world_def demo_world_def truthy_simps ToString_def upload_call_def)

lemma mixed_fields:
  "path_resolve mixed_world p = ''/w/'' @ p"
  "existsSync mixed_world p"
  "files_uploadV2 mixed_world h (upload_call mixed_world ch (p, ''A'') th) =
     Inr \<lparr>ok = True, files = Some []\<rparr>"
  "files_uploadV2 mixed_world h (upload_call mixed_world ch (p, ''B'') th) =
     Inr \<lparr>ok = True, files = Some [Completion (Some [uploaded_as ''B''])]\<rparr>"
  "path_basename mixed_world p = drop 3 p"
  by (simp_all add: mixed_world_def two_world_def demo_world_def upload_call_def)

lemma uploadedFile_examples:
  "uploadedFile \<lparr>ok = True, files = Some [Completion (Some [f])]\<rparr> = Some f"
  "uploadedFile \<lparr>ok = True, files = Some []\<rparr> = None"
  "uploadedFile \<lparr>ok = False, files = None\<rparr> = None"
  by (simp_all add: uploadedFile_def)

lemma two_upload:
  "upload_loop two_world ch [(''a.bin'', ''A''), (''b.bin'', ''B'')] s =
     (Inr (), s\<lparr>calls := calls s
                   @ [upload_call two_world ch (''a.bin'', ''A'') (threadTs s),
                      upload_call two_world ch (''b.bin'', ''B'') (threadTs s)],
               logs := logs s @ [Log ''Uploading A...'', Log ''Uploaded A: F-A'',
                                 Log ''Uploading B...'', Log ''Uploaded B: F-B''],
               downloadLinks := downloadLinks s
                   @ [download_link ''A'' (uploaded_as ''A''),
                      download_link ''B'' (uploaded_as ''B'')]\<rparr>)"
proof -
  let ?s1 = "s\<lparr>calls := calls s @ [upload_call two_world ch (''a.bin'', ''A'') (threadTs s)],
          logs := logs s @ [Log (''Uploading '' @ ''A'' @ ''...''),
                            Log (''Uploaded '' @ ''A'' @ '': '' @ file_id (uploaded_as ''A''))],
          downloadLinks := downloadLinks s @ [download_link ''A'' (uploaded_as ''A'')]\<rparr>"
  have 1: "upload_loop two_world ch [(''a.bin'', ''A''), (''b.bin'', ''B'')] s
      = upload_loop two_world ch [(''b.bin'', ''B'')] ?s1"
    by (rule upload_loop_step_ok [OF two_fields(5) two_fields(8) uploadedFile_examples(1)])
  have 2: "upload_loop two_world ch [(''b.bin'', ''B'')] ?s1
      = upload_loop two_world ch []
          (?s1\<lparr>calls := calls ?s1 @ [upload_call two_world ch (''b.bin'', ''B'') (threadTs ?s1)],
          logs := logs ?s1 @ [Log (''Uploading '' @ ''B'' @ ''...''),
                            Log (''Uploaded '' @ ''B'' @ '': '' @ file_id (uploaded_as ''B''))],
          downloadLinks := downloadLinks ?s1 @ [download_link ''B'' (uploaded_as ''B'')]\<rparr>)"
    by (rule upload_loop_step_ok [OF two_fields(5) two_fields(8) uploadedFile_examples(1)])
  show ?thesis
    unfolding 1 2 by (simp add: uploaded_as_def)
qed

lemma vanished_reply_fails_fields:
  "truthy (SLACK_TOKEN vanished_reply_fails_world)"
  "truthy (SLACK_CHANNEL vanished_reply_fails_world)"
  "ToString (SLACK_CHANNEL vanished_reply_fails_world) = ''C01''"
  "path_resolve vanished_reply_fails_world p = ''/w/'' @ p"
  "\<not> existsSync vanished_reply_fails_world p"
  "chat_postMessage vanished_reply_fails_world h (initial_post ch cfg ctx) =
     Inr \<lparr>ts = ''17.1'',
          message_text = formatMessage cfg (nextRelease ctx) (lastCommitBody cfg (commits ctx))\<rparr>"
  "chat_postMessage vanished_reply_fails_world h (error_reply ch t e) = Inl (Error ''reply failed'')"
  by (simp_all add: vanished_reply_fails_world_def reply_fails_world_def upload_fails_world_def
      demo_world_def truthy_simps ToString_def initial_post_def error_reply_def)

lemma vanished_reply_fails_resolved:
  "resolveAssets vanished_reply_fails_world demo_release [(''dist/app.bin'', ''Binary'')]
     = Inr [(''dist/app.bin'', ''Binary'')]"
  by code_simp

section \<open>The upload loop: the claim\<close>

text \<open>
  C5, as stated, fails. The resolved path does not exist when the loop comes to it, so the
  \<open>try\<close> block is left with the error that names the path; the reply in the thread, the
  first recovery action, throws, and what the run fails with is the error of the reply,
  which does not name the path.
\<close>

theorem upload_loop_per_asset_counterexample:
  "fst (try_block vanished_reply_fails_world ''C01'' (read_settings demo_config demo_context)
          demo_context initial_state) = Inl (Error ''Resolved file not found: /w/dist/app.bin'')
   \<and> fst (success vanished_reply_fails_world demo_config demo_context)
       = Inl (Error ''reply failed'')"
proof -
  let ?w = vanished_reply_fails_world
  let ?cfg = "read_settings demo_config demo_context"
  let ?r = "\<lparr>ts = ''17.1'', message_text =
     formatMessage ?cfg (nextRelease demo_context) (lastCommitBody ?cfg (commits demo_context))\<rparr>"
  let ?s = "started ''C01'' ?cfg demo_context ?r"
  let ?e = "file_not_found (path_resolve ?w ''dist/app.bin'')"
  have res: "resolveAssets ?w (nextRelease demo_context) (rawAssets ?cfg)
      = Inr [(''dist/app.bin'', ''Binary'')]"
    by (simp add: demo_run_facts vanished_reply_fails_resolved)
  have t: "try_block ?w ''C01'' ?cfg demo_context initial_state = (Inl ?e, ?s)"
    by (rule try_block_missing [OF res vanished_reply_fails_fields(6) demo_entries
          vanished_reply_fails_fields(5)])
  have th: "truthy (threadTs ?s)"
    by (simp add: started_def truthy_simps)
  note c = catch_block_reply_throws [OF th vanished_reply_fails_fields(7), of "''C01''" ?e]
  have g: "\<not> (isPrerelease ?cfg \<and> \<not> prereleaseEnabled ?cfg)"
    by (rule demo_guard)
  have t': "try_block ?w (ToString (SLACK_CHANNEL ?w)) ?cfg demo_context initial_state
      = (Inl ?e, ?s)"
    unfolding vanished_reply_fails_fields(3) by (rule t)
  have "fst (success ?w demo_config demo_context) = Inl (Error ''reply failed'')"
    unfolding success_try_failed [OF vanished_reply_fails_fields(1,2) g t']
      vanished_reply_fails_fields(3) c by simp
  moreover have "fst (try_block ?w ''C01'' ?cfg demo_context initial_state)
      = Inl (Error ''Resolved file not found: /w/dist/app.bin'')"
    unfolding t by (simp add: file_not_found_def vanished_reply_fails_fields)
  ultimately show ?thesis by simp
qed

text \<open>
  C5, amended. In the upload loop, for the entry at the head of the remaining resolved
  assets: if the resolved path does not exist, the loop stops with the error that names
  the resolved path (a text other than that of the resolution error), without a call; if
  the upload call returns an answer that has not the full shape, the failure is logged, no
  link line is appended and the loop goes on with the next entry; if the answer has the
  full shape, the link line of the entry is appended and the loop goes on; if the upload
  call throws, the loop stops with that error. In every case the link list after the entry
  is the list before it, followed by the link line exactly when the file exists, the call
  returns and the answer has the full shape. In a run that comes to an entry whose
  resolved path does not exist, the \<open>try\<close> block is left with the error naming the path and
  \<open>success\<close> does not return normally; the error it throws is the one naming the path when
  the recovery calls return.
\<close>

theorem upload_loop_per_asset:
  assumes "resolvedPath = path_resolve w filePath"
    and "c = upload_call w ch (filePath, label) (threadTs s)"
  shows
   "(\<not> existsSync w resolvedPath \<longrightarrow>
        upload_loop w ch ((filePath, label) # rest) s
          = (Inl (Error (''Resolved file not found: '' @ resolvedPath)), s))
    \<and> (existsSync w resolvedPath \<longrightarrow>
          (\<forall>e. files_uploadV2 w (calls s) c = Inl e \<longrightarrow>
              upload_loop w ch ((filePath, label) # rest) s
                = (Inl e, s\<lparr>calls := calls s @ [c],
                            logs := logs s @ [Log (''Uploading '' @ label @ ''...'')]\<rparr>))
        \<and> (\<forall>r. files_uploadV2 w (calls s) c = Inr r \<and> uploadedFile r = None \<longrightarrow>
              upload_loop w ch ((filePath, label) # rest) s
                = upload_loop w ch rest
                    (s\<lparr>calls := calls s @ [c],
                       logs := logs s @ [Log (''Uploading '' @ label @ ''...''),
                                         LogError (''Failed to upload '' @ label @ ''.'')]\<rparr>))
        \<and> (\<forall>r f. files_uploadV2 w (calls s) c = Inr r \<and> uploadedFile r = Some f \<longrightarrow>
              upload_loop w ch ((filePath, label) # rest) s
                = upload_loop w ch rest
                    (s\<lparr>calls := calls s @ [c],
                       logs := logs s @ [Log (''Uploading '' @ label @ ''...''),
                                         Log (''Uploaded '' @ label @ '': '' @ file_id f)],
                       downloadLinks := downloadLinks s @ [download_link label f]\<rparr>)))
    \<and> downloadLinks (snd (upload_asset w ch (filePath, label) s)) =
        downloadLinks s @
          (if existsSync w resolvedPath then
             (case files_uploadV2 w (calls s) c of
                Inl e \<Rightarrow> []
              | Inr r \<Rightarrow> (case uploadedFile r of None \<Rightarrow> [] | Some f \<Rightarrow> [download_link label f]))
           else [])
    \<and> (\<forall>pluginConfig ctx assets r prev.
          truthy (SLACK_TOKEN w) \<and> truthy (SLACK_CHANNEL w)
          \<and> \<not> (isPrerelease (read_settings pluginConfig ctx)
                 \<and> \<not> prereleaseEnabled (read_settings pluginConfig ctx))
          \<and> ch = ToString (SLACK_CHANNEL w)
          \<and> resolveAssets w (nextRelease ctx) (rawAssets (read_settings pluginConfig ctx))
              = Inr assets
          \<and> chat_postMessage w [] (initial_post ch (read_settings pluginConfig ctx) ctx) = Inr r
          \<and> Object_entries assets = prev @ (filePath, label) # rest
          \<and> upload_loop w ch prev (started ch (read_settings pluginConfig ctx) ctx r) = (Inr (), s)
          \<and> \<not> existsSync w resolvedPath
          \<longrightarrow> try_block w ch (read_settings pluginConfig ctx) ctx initial_state
                = (Inl (Error (''Resolved file not found: '' @ resolvedPath)), s)
              \<and> (\<exists>e'. fst (success w pluginConfig ctx) = Inl e')
              \<and> (all_return w (calls s)
                    (spec_recovery ch (Error (''Resolved file not found: '' @ resolvedPath)) s)
                  \<longrightarrow> fst (success w pluginConfig ctx)
                        = Inl (Error (''Resolved file not found: '' @ resolvedPath))))"
proof -
  let ?e = "Error (''Resolved file not found: '' @ resolvedPath)"
  have 1: "upload_loop w ch ((filePath, label) # rest) s = (Inl ?e, s)"
    if "\<not> existsSync w resolvedPath"
    using that upload_asset_missing [of w filePath ch label s]
    by (simp add: assms file_not_found_def)
  have 2: "upload_loop w ch ((filePath, label) # rest) s
                = (Inl e, s\<lparr>calls := calls s @ [c],
                            logs := logs s @ [Log (''Uploading '' @ label @ ''...'')]\<rparr>)"
    if "existsSync w resolvedPath" "files_uploadV2 w (calls s) c = Inl e" for e
    using that upload_asset_throws [of w filePath s ch label e] by (simp add: assms)
  have 3: "upload_loop w ch ((filePath, label) # rest) s
                = upload_loop w ch rest
                    (s\<lparr>calls := calls s @ [c],
                       logs := logs s @ [Log (''Uploading '' @ label @ ''...''),
                                         LogError (''Failed to upload '' @ label @ ''.'')]\<rparr>)"
    if "existsSync w resolvedPath" "files_uploadV2 w (calls s) c = Inr r \<and> uploadedFile r = None"
    for r
    using that upload_asset_anomalous [of w filePath s ch label r] by (simp add: assms)
  have 4: "upload_loop w ch ((filePath, label) # rest) s
                = upload_loop w ch rest
                    (s\<lparr>calls := calls s @ [c],
                       logs := logs s @ [Log (''Uploading '' @ label @ ''...''),
                                         Log (''Uploaded '' @ label @ '': '' @ file_id f)],
                       downloadLinks := downloadLinks s @ [download_link label f]\<rparr>)"
    if "existsSync w resolvedPath"
      "files_uploadV2 w (calls s) c = Inr r \<and> uploadedFile r = Some f"
    for r f
    using that upload_asset_ok [of w filePath s ch label r f] by (simp add: assms)
  have 5: "downloadLinks (snd (upload_asset w ch (filePath, label) s)) =
        downloadLinks s @
          (if existsSync w resolvedPath then
             (case files_uploadV2 w (calls s) c of
                Inl e \<Rightarrow> []
              | Inr r \<Rightarrow> (case uploadedFile r of None \<Rightarrow> [] | Some f \<Rightarrow> [download_link label f]))
           else [])"
    using upload_asset_links [of w ch filePath label s] by (simp add: assms)
  have 6: "try_block w ch (read_settings pluginConfig ctx) ctx initial_state = (Inl ?e, s)
              \<and> (\<exists>e'. fst (success w pluginConfig ctx) = Inl e')
              \<and> (all_return w (calls s) (spec_recovery ch ?e s)
                  \<longrightarrow> fst (success w pluginConfig ctx) = Inl ?e)"
    if h: "truthy (SLACK_TOKEN w) \<and> truthy (SLACK_CHANNEL w)
          \<and> \<not> (isPrerelease (read_settings pluginConfig ctx)
                 \<and> \<not> prereleaseEnabled (read_settings pluginConfig ctx))
          \<and> ch = ToString (SLACK_CHANNEL w)
          \<and> resolveAssets w (nextRelease ctx) (rawAssets (read_settings pluginConfig ctx))
              = Inr assets
          \<and> chat_postMessage w [] (initial_post ch (read_settings pluginConfig ctx) ctx) = Inr r
          \<and> Object_entries assets = prev @ (filePath, label) # rest
          \<and> upload_loop w ch prev (started ch (read_settings pluginConfig ctx) ctx r) = (Inr (), s)
          \<and> \<not> existsSync w resolvedPath"
    for pluginConfig ctx assets r prev
  proof -
    let ?cfg = "read_settings pluginConfig ctx"
    from h have creds: "truthy (SLACK_TOKEN w)" "truthy (SLACK_CHANNEL w)"
      "\<not> (isPrerelease ?cfg \<and> \<not> prereleaseEnabled ?cfg)"
      by blast+
    from h have ch: "ch = ToString (SLACK_CHANNEL w)" by blast
    from h have res: "resolveAssets w (nextRelease ctx) (rawAssets ?cfg) = Inr assets"
      and post: "chat_postMessage w [] (initial_post ch ?cfg ctx) = Inr r"
      and ents: "Object_entries assets = prev @ (filePath, label) # rest"
      and before: "upload_loop w ch prev (started ch ?cfg ctx r) = (Inr (), s)"
      and gone: "\<not> existsSync w resolvedPath"
      by blast+
    have "upload_loop w ch (prev @ (filePath, label) # rest) (started ch ?cfg ctx r)
        = upload_loop w ch ((filePath, label) # rest) s"
      unfolding upload_loop_append [of w ch prev] before by simp
    then have l: "upload_loop w ch (Object_entries assets) (started ch ?cfg ctx r)
        = (Inl ?e, s)"
      using 1 [OF gone] ents by simp
    have t: "try_block w ch ?cfg ctx initial_state = (Inl ?e, s)"
      unfolding try_block_started [OF res post] l by simp
    have s: "success w pluginConfig ctx =
         (Inl (fst (catch_block w ch ?e s)), snd (catch_block w ch ?e s))"
      using success_try_failed [OF creds] t unfolding ch by blast
    have "fst (success w pluginConfig ctx) = Inl ?e"
      if "all_return w (calls s) (spec_recovery ch ?e s)"
      using catch_block_all_return [OF that] s by simp
    with t s show ?thesis by simp
  qed
  from 1 2 3 4 5 6 show ?thesis by blast
qed

theorem upload_loop_per_asset_witness:
  "upload_loop vanished_world ''C01'' [(''dist/app.bin'', ''Binary''), (''b.bin'', ''B'')]
       initial_state
     = (Inl (Error ''Resolved file not found: /w/dist/app.bin''), initial_state)
   \<and> fst (success vanished_world demo_config demo_context)
       = Inl (Error ''Resolved file not found: /w/dist/app.bin'')
   \<and> upload_loop mixed_world ''C01'' [(''a.bin'', ''A''), (''b.bin'', ''B'')] initial_state
       = (Inr (), initial_state\<lparr>
            calls := [UploadV2 ''/w/a.bin'' ''a.bin'' ''A''
                        ([CHR 0xF0, CHR 0x9F, CHR 0x93, CHR 0x8E] @ '' A'') ''C01'' None,
                      UploadV2 ''/w/b.bin'' ''b.bin'' ''B''
                        ([CHR 0xF0, CHR 0x9F, CHR 0x93, CHR 0x8E] @ '' B'') ''C01'' None],
            logs := [Log ''Uploading A...'', LogError ''Failed to upload A.'',
                     Log ''Uploading B...'', Log ''Uploaded B: F-B''],
            downloadLinks :=
              [[CHR 0xE2, CHR 0x80, CHR 0xA2] @ '' *B*: <https://files/B|Download>'']\<rparr>)
   \<and> upload_loop upload_fails_world ''C01'' [(''dist/app.bin'', ''Binary''), (''b.bin'', ''B'')]
         initial_state
       = (Inl (Error ''upload failed''), initial_state\<lparr>
            calls := [upload_call upload_fails_world ''C01'' (''dist/app.bin'', ''Binary'') None],
            logs := [Log ''Uploading Binary...'']\<rparr>)
   \<and> downloadLinks (snd (upload_asset demo_world ''C01'' (''dist/app.bin'', ''Binary'')
         initial_state)) = [download_link ''Binary'' demo_file]"
proof -
  let ?cfg = "read_settings demo_config demo_context"
  let ?r = "\<lparr>ts = ''17.1'', message_text =
     formatMessage ?cfg (nextRelease demo_context) (lastCommitBody ?cfg (commits demo_context))\<rparr>"
  let ?s = "started ''C01'' ?cfg demo_context ?r"
  let ?e = "Error ''Resolved file not found: /w/dist/app.bin''"
  txt \<open>The resolved path does not exist: the loop stops, and the run fails.\<close>
  note v0 = upload_loop_per_asset [OF refl refl, of vanished_world "''dist/app.bin''"
      "''C01''" "''Binary''" "[(''b.bin'', ''B'')]" initial_state]
  have a: "upload_loop vanished_world ''C01'' [(''dist/app.bin'', ''Binary''), (''b.bin'', ''B'')]
       initial_state = (Inl ?e, initial_state)"
    using v0 by (simp add: vanished_fields)
  note v1 = upload_loop_per_asset [OF refl refl, of vanished_world "''dist/app.bin''"
      "''C01''" "''Binary''" "[]" ?s]
  have rec: "all_return vanished_world (calls ?s) (spec_recovery ''C01'' ?e ?s)"
    by (simp add: spec_recovery_def started_def truthy_simps returns_error_reply
        returns_caution_update vanished_fields demo_replied)
  have hyp: "truthy (SLACK_TOKEN vanished_world) \<and> truthy (SLACK_CHANNEL vanished_world)
          \<and> \<not> (isPrerelease (read_settings demo_config demo_context)
                 \<and> \<not> prereleaseEnabled (read_settings demo_config demo_context))
          \<and> ''C01'' = ToString (SLACK_CHANNEL vanished_world)
          \<and> resolveAssets vanished_world (nextRelease demo_context)
                (rawAssets (read_settings demo_config demo_context))
              = Inr [(''dist/app.bin'', ''Binary'')]
          \<and> chat_postMessage vanished_world []
                (initial_post ''C01'' (read_settings demo_config demo_context) demo_context) = Inr ?r
          \<and> Object_entries [(''dist/app.bin'', ''Binary'')] = [] @ (''dist/app.bin'', ''Binary'') # []
          \<and> upload_loop vanished_world ''C01'' []
                (started ''C01'' (read_settings demo_config demo_context) demo_context ?r)
              = (Inr (), ?s)
          \<and> \<not> existsSync vanished_world (path_resolve vanished_world ''dist/app.bin'')"
    using demo_guard
    by (simp add: vanished_fields demo_run_facts demo_resolved demo_posted demo_entries)
  from v1 have "\<forall>pluginConfig ctx assets r prev.
          truthy (SLACK_TOKEN vanished_world) \<and> truthy (SLACK_CHANNEL vanished_world)
          \<and> \<not> (isPrerelease (read_settings pluginConfig ctx)
                 \<and> \<not> prereleaseEnabled (read_settings pluginConfig ctx))
          \<and> ''C01'' = ToString (SLACK_CHANNEL vanished_world)
          \<and> resolveAssets vanished_world (nextRelease ctx)
                (rawAssets (read_settings pluginConfig ctx)) = Inr assets
          \<and> chat_postMessage vanished_world []
                (initial_post ''C01'' (read_settings pluginConfig ctx) ctx) = Inr r
          \<and> Object_entries assets = prev @ (''dist/app.bin'', ''Binary'') # []
          \<and> upload_loop vanished_world ''C01'' prev
                (started ''C01'' (read_settings pluginConfig ctx) ctx r) = (Inr (), ?s)
          \<and> \<not> existsSync vanished_world (path_resolve vanished_world ''dist/app.bin'')
          \<longrightarrow> try_block vanished_world ''C01'' (read_settings pluginConfig ctx) ctx initial_state
                = (Inl (Error (''Resolved file not found: ''
                      @ path_resolve vanished_world ''dist/app.bin'')), ?s)
              \<and> (\<exists>e'. fst (success vanished_world pluginConfig ctx) = Inl e')
              \<and> (all_return vanished_world (calls ?s)
                    (spec_recovery ''C01'' (Error (''Resolved file not found: ''
                      @ path_resolve vanished_world ''dist/app.bin'')) ?s)
                  \<longrightarrow> fst (success vanished_world pluginConfig ctx)
                        = Inl (Error (''Resolved file not found: ''
                            @ path_resolve vanished_world ''dist/app.bin'')))"
    by blast
  from this [rule_format, OF hyp] rec
  have b: "fst (success vanished_world demo_config demo_context) = Inl ?e"
    by (simp add: vanished_fields)
  txt \<open>The answer to the first upload has not the full shape: the failure is logged, no
    link line is appended and the loop goes on with the second entry, whose answer has the
    full shape.\<close>
  let ?s1 = "initial_state\<lparr>
       calls := calls initial_state
          @ [upload_call mixed_world ''C01'' (''a.bin'', ''A'') (threadTs initial_state)],
       logs := logs initial_state @ [Log (''Uploading '' @ ''A'' @ ''...''),
                                     LogError (''Failed to upload '' @ ''A'' @ ''.'')]\<rparr>"
  note m0 = upload_loop_per_asset [OF refl refl, of mixed_world "''a.bin''"
      "''C01''" "''A''" "[(''b.bin'', ''B'')]" initial_state]
  have c1: "upload_loop mixed_world ''C01'' [(''a.bin'', ''A''), (''b.bin'', ''B'')] initial_state
      = upload_loop mixed_world ''C01'' [(''b.bin'', ''B'')] ?s1"
    by (rule m0 [THEN conjunct2, THEN conjunct1, rule_format, OF mixed_fields(2),
          THEN conjunct2, THEN conjunct1, rule_format,
          OF conjI [OF mixed_fields(3) uploadedFile_examples(2)]])
  note m1 = upload_loop_per_asset [OF refl refl, of mixed_world "''b.bin''"
      "''C01''" "''B''" "[]" ?s1]
  have c2: "upload_loop mixed_world ''C01'' [(''b.bin'', ''B'')] ?s1
      = upload_loop mixed_world ''C01'' []
         (?s1\<lparr>calls := calls ?s1
                 @ [upload_call mixed_world ''C01'' (''b.bin'', ''B'') (threadTs ?s1)],
               logs := logs ?s1 @ [Log (''Uploading '' @ ''B'' @ ''...''),
                  Log (''Uploaded '' @ ''B'' @ '': '' @ file_id (uploaded_as ''B''))],
               downloadLinks := downloadLinks ?s1 @ [download_link ''B'' (uploaded_as ''B'')]\<rparr>)"
    by (rule m1 [THEN conjunct2, THEN conjunct1, rule_format, OF mixed_fields(2),
          THEN conjunct2, THEN conjunct2, rule_format,
          OF conjI [OF mixed_fields(4) uploadedFile_examples(1)]])
  have c: "upload_loop mixed_world ''C01'' [(''a.bin'', ''A''), (''b.bin'', ''B'')] initial_state
       = (Inr (), initial_state\<lparr>
            calls := [UploadV2 ''/w/a.bin'' ''a.bin'' ''A''
                        ([CHR 0xF0, CHR 0x9F, CHR 0x93, CHR 0x8E] @ '' A'') ''C01'' None,
                      UploadV2 ''/w/b.bin'' ''b.bin'' ''B''
                        ([CHR 0xF0, CHR 0x9F, CHR 0x93, CHR 0x8E] @ '' B'') ''C01'' None],
            logs := [Log ''Uploading A...'', LogError ''Failed to upload A.'',
                     Log ''Uploading B...'', Log ''Uploaded B: F-B''],
            downloadLinks :=
              [[CHR 0xE2, CHR 0x80, CHR 0xA2] @ '' *B*: <https://files/B|Download>'']\<rparr>)"
    unfolding c1 c2
    by (simp add: initial_state_def uploaded_as_def upload_call_def download_link_def
        mixed_fields(1,5))
  txt \<open>The upload call throws: the loop stops with its error.\<close>
  note f0 = upload_loop_per_asset [OF refl refl, of upload_fails_world "''dist/app.bin''"
      "''C01''" "''Binary''" "[(''b.bin'', ''B'')]" initial_state]
  have d: "upload_loop upload_fails_world ''C01'' [(''dist/app.bin'', ''Binary''), (''b.bin'', ''B'')]
         initial_state
       = (Inl (Error ''upload failed''), initial_state\<lparr>
            calls := [upload_call upload_fails_world ''C01'' (''dist/app.bin'', ''Binary'') None],
            logs := [Log ''Uploading Binary...'']\<rparr>)"
    using f0
    by (simp add: upload_fails_world_def demo_world_def initial_state_def)
  txt \<open>The answer has the full shape: the link line is appended.\<close>
  note d0 = upload_loop_per_asset [OF refl refl, of demo_world "''dist/app.bin''"
      "''C01''" "''Binary''" "[]" initial_state]
  have e: "downloadLinks (snd (upload_asset demo_world ''C01'' (''dist/app.bin'', ''Binary'')
         initial_state)) = [download_link ''Binary'' demo_file]"
    using d0
    by (simp add: demo_world_def uploadedFile_def initial_state_def)
  from a b c d e show ?thesis by blast
qed

section \<open>The update step: the claim\<close>

lemma no_update_among_uploads: "list_all is_upload us \<Longrightarrow> filter is_update us = []"
proof (induction us)
  case Nil
  then show ?case by simp
next
  case (Cons c us)
  then show ?case by (cases c) auto
qed

lemma upload_loop_from_started:
  assumes "upload_loop w ch entries (started ch cfg ctx r) = (res, s)"
  shows "threadTs s = Some (ts r)" and "initialMessage s = Some r"
    and "\<exists>us. calls s = initial_post ch cfg ctx # us \<and> list_all is_upload us"
  using upload_loop_frame [OF assms] by (auto simp: started_def)

lemma first_update_fails_fields:
  "truthy (SLACK_TOKEN first_update_fails_world)"
  "truthy (SLACK_CHANNEL first_update_fails_world)"
  "ToString (SLACK_CHANNEL first_update_fails_world) = ''C01''"
  "existsSync first_update_fails_world (path_resolve first_update_fails_world ''dist/app.bin'')"
  "chat_postMessage first_update_fails_world = chat_postMessage demo_world"
  "files_uploadV2 first_update_fails_world h c
     = Inr \<lparr>ok = True, files = Some [Completion (Some [demo_file])]\<rparr>"
  "chat_update first_update_fails_world h c
     = (if filter is_update h = [] then Inl (Error ''update failed'') else Inr ())"
  by (simp_all add: first_update_fails_world_def demo_world_def truthy_simps ToString_def)

lemma first_update_fails_resolved:
  "resolveAssets first_update_fails_world demo_release [(''dist/app.bin'', ''Binary'')]
     = Inr [(''dist/app.bin'', ''Binary'')]"
  by code_simp

text \<open>
  C4, as stated, fails. The run reaches the update step with one link line and the update
  call throws: the recovery then overwrites the original message, which is a second update
  call of the run, on the same channel and the same message identifier.
\<close>

theorem update_step_once_counterexample:
  "filter is_update (calls (snd (success first_update_fails_world demo_config demo_context)))
     = [ChatUpdate ''C01'' (Some ''17.1'')
          (formatMessage (read_settings demo_config demo_context) demo_release
             (lastCommitBody (read_settings demo_config demo_context) (commits demo_context))
           @ download_heading @ download_link ''Binary'' demo_file),
        ChatUpdate ''C01'' (Some ''17.1'')
          (formatMessage (read_settings demo_config demo_context) demo_release
             (lastCommitBody (read_settings demo_config demo_context) (commits demo_context))
           @ caution_suffix)]
   \<and> fst (success first_update_fails_world demo_config demo_context)
       = Inl (Error ''update failed'')"
proof -
  let ?w = first_update_fails_world
  let ?cfg = "read_settings demo_config demo_context"
  let ?b = "lastCommitBody ?cfg (commits demo_context)"
  let ?body = "formatMessage ?cfg (nextRelease demo_context) ?b"
  let ?r = "\<lparr>ts = ''17.1'', message_text = ?body\<rparr>"
  let ?st = "started ''C01'' ?cfg demo_context ?r"
  let ?fin = "?st\<lparr>calls := calls ?st
                   @ [upload_call ?w ''C01'' (''dist/app.bin'', ''Binary'') (threadTs ?st)],
               logs := logs ?st @ [Log (''Uploading '' @ ''Binary'' @ ''...''),
                  Log (''Uploaded '' @ ''Binary'' @ '': '' @ file_id demo_file)],
               downloadLinks := downloadLinks ?st @ [download_link ''Binary'' demo_file]\<rparr>"
  let ?u = "ChatUpdate ''C01'' (threadTs ?fin)
      (updatedMessage ?cfg (nextRelease demo_context) ?b (downloadLinks ?fin))"
  let ?e = "Error ''update failed''"
  let ?thrown = "?fin\<lparr>calls := calls ?fin @ [?u]\<rparr>"
  have res: "resolveAssets ?w (nextRelease demo_context) (rawAssets ?cfg)
      = Inr [(''dist/app.bin'', ''Binary'')]"
    by (simp add: demo_run_facts first_update_fails_resolved)
  have post: "chat_postMessage ?w [] (initial_post ''C01'' ?cfg demo_context) = Inr ?r"
    by (simp add: first_update_fails_fields demo_posted)
  have up: "upload_loop ?w ''C01'' (Object_entries [(''dist/app.bin'', ''Binary'')]) ?st
      = (Inr (), ?fin)"
    unfolding demo_entries
      upload_loop_step_ok [OF first_update_fails_fields(4) first_update_fails_fields(6)
        uploadedFile_examples(1)]
    by simp
  have links: "downloadLinks ?fin \<noteq> []" by simp
  have nu: "filter is_update (calls ?fin) = []"
    by (simp add: started_def initial_post_def upload_call_def)
  have thr: "chat_update ?w (calls ?fin) ?u = Inl ?e"
    unfolding first_update_fails_fields(7) nu by simp
  have t: "try_block ?w ''C01'' ?cfg demo_context initial_state = (Inl ?e, ?thrown)"
    unfolding try_block_started [OF res post] up
    using update_step_throws [OF links thr] by simp
  have t': "try_block ?w (ToString (SLACK_CHANNEL ?w)) ?cfg demo_context initial_state
      = (Inl ?e, ?thrown)"
    unfolding first_update_fails_fields(3) by (rule t)
  have rec: "all_return ?w (calls ?thrown) (spec_recovery ''C01'' ?e ?thrown)"
    by (simp add: spec_recovery_def started_def truthy_simps returns_error_reply
        returns_caution_update first_update_fails_fields demo_replied)
  note c = catch_block_all_return [OF rec]
  have s: "success ?w demo_config demo_context =
      (Inl ?e, ?thrown\<lparr>calls := calls ?thrown @ spec_recovery ''C01'' ?e ?thrown,
           logs := logs ?thrown @ [LogError (''Error during file upload or message update: ''
                      @ error_message ?e)]\<rparr>)"
    unfolding success_try_failed [OF first_update_fails_fields(1,2) demo_guard t']
      first_update_fails_fields(3) c by simp
  have ll: "lastLine ?cfg = []" by (simp add: demo_settings)
  show ?thesis
    unfolding s
    by (simp add: nu spec_recovery_def started_def truthy_simps initial_post_def upload_call_def
        error_reply_def caution_update_def updatedMessage_parts ll demo_run_facts)
qed

text \<open>
  C4, amended. Let a run reach the update step: the assets are resolved, the initial post is
  answered by \<open>r\<close> and the upload loop ends normally in the state \<open>s\<close>, whose calls are the
  initial post on the channel followed by upload calls only. If the link list of \<open>s\<close> is
  not empty, the \<open>try\<close> block makes one more call and that is its only update call: it is
  on the channel of the initial post, on the message identifier the initial post returned,
  and its text is the composed message, the Download Links heading, the link lines in the
  order they were appended, joined by line feeds, and the last line after a blank line if
  it is not empty. When that call returns, \<open>success\<close> returns normally and the call is the
  only update call of the run. When it throws, the \<open>try\<close> block is left with its error,
  \<open>success\<close> does not return normally, and the calls that follow are those of the recovery,
  as far as they go. If the link list is empty, no update call is made, a warning is logged
  and \<open>success\<close> returns normally.
\<close>

theorem update_step_once:
  assumes "cfg = read_settings pluginConfig ctx" and "ch = ToString (SLACK_CHANNEL w)"
    and "truthy (SLACK_TOKEN w)" and "truthy (SLACK_CHANNEL w)"
    and "\<not> (isPrerelease cfg \<and> \<not> prereleaseEnabled cfg)"
    and "resolveAssets w (nextRelease ctx) (rawAssets cfg) = Inr assets"
    and "chat_postMessage w [] (initial_post ch cfg ctx) = Inr r"
    and "upload_loop w ch (Object_entries assets) (started ch cfg ctx r) = (Inr (), s)"
    and "body = formatMessage cfg (nextRelease ctx) (lastCommitBody cfg (commits ctx))"
    and "u = ChatUpdate ch (Some (ts r))
           (body @ download_heading @ spec_unlines (downloadLinks s)
            @ (if lastLine cfg = [] then [] else nl @ nl @ lastLine cfg))"
  shows "(\<exists>us. calls s = PostMessage ch body None # us \<and> list_all is_upload us)
    \<and> (downloadLinks s \<noteq> [] \<longrightarrow>
         calls (snd (try_block w ch cfg ctx initial_state)) = calls s @ [u]
         \<and> filter is_update (calls (snd (try_block w ch cfg ctx initial_state))) = [u]
         \<and> (chat_update w (calls s) u = Inr () \<longrightarrow>
              success w pluginConfig ctx =
                (Inr (), s\<lparr>calls := calls s @ [u],
                   logs := logs s
                     @ [Log ''Release message updated with download links and last line.'']\<rparr>)
              \<and> filter is_update (calls (snd (success w pluginConfig ctx))) = [u])
         \<and> (\<forall>e. chat_update w (calls s) u = Inl e \<longrightarrow>
              try_block w ch cfg ctx initial_state = (Inl e, s\<lparr>calls := calls s @ [u]\<rparr>)
              \<and> (\<exists>e'. fst (success w pluginConfig ctx) = Inl e')
              \<and> (\<exists>cs. calls (snd (success w pluginConfig ctx)) = calls s @ [u] @ cs
                    \<and> prefix cs (spec_recovery ch e (s\<lparr>calls := calls s @ [u]\<rparr>)))))
    \<and> (downloadLinks s = [] \<longrightarrow>
         success w pluginConfig ctx =
           (Inr (), s\<lparr>logs := logs s
              @ [Warn ''No files uploaded. The initial message was not updated.'']\<rparr>)
         \<and> filter is_update (calls s) = [])"
proof -
  let ?nr = "nextRelease ctx" and ?b = "lastCommitBody cfg (commits ctx)"
  note fr = upload_loop_from_started [OF assms(8)]
  from fr(3) obtain us where us: "calls s = initial_post ch cfg ctx # us" "list_all is_upload us"
    by blast
  have nu: "filter is_update (calls s) = []"
    using us no_update_among_uploads [OF us(2)] by (simp add: initial_post_def)
  have t: "try_block w ch cfg ctx initial_state = update_step w ch cfg ?nr ?b s"
    unfolding try_block_started [OF assms(6,7)] assms(8) by simp
  have u: "u = ChatUpdate ch (threadTs s) (updatedMessage cfg ?nr ?b (downloadLinks s))"
    by (simp add: assms(9,10) fr(1) updatedMessage_parts join_spec)
  have 1: "\<exists>us. calls s = PostMessage ch body None # us \<and> list_all is_upload us"
    using us by (auto simp: initial_post_def assms(9))
  have 2: "calls (snd (try_block w ch cfg ctx initial_state)) = calls s @ [u]"
    if "downloadLinks s \<noteq> []"
    using update_step_calls [OF that, of w ch cfg ?nr ?b] by (simp add: t u)
  have 3: "filter is_update (calls (snd (try_block w ch cfg ctx initial_state))) = [u]"
    if "downloadLinks s \<noteq> []"
    using 2 [OF that] nu by (simp add: assms(10))
  have 4: "success w pluginConfig ctx =
                (Inr (), s\<lparr>calls := calls s @ [u],
                   logs := logs s
                     @ [Log ''Release message updated with download links and last line.'']\<rparr>)"
    if "downloadLinks s \<noteq> []" "chat_update w (calls s) u = Inr ()"
  proof -
    from that have "try_block w ch cfg ctx initial_state =
        (Inr (), s\<lparr>calls := calls s @ [u],
                   logs := logs s
                     @ [Log ''Release message updated with download links and last line.'']\<rparr>)"
      using update_step_returns [of s w ch cfg ?nr ?b "()"] by (simp add: t u)
    then show ?thesis
      using success_try_returned [of w pluginConfig ctx] assms(1-5) by simp
  qed
  have 8: "filter is_update (calls (snd (success w pluginConfig ctx))) = [u]"
    if "downloadLinks s \<noteq> []" "chat_update w (calls s) u = Inr ()"
    using 4 [OF that] nu by (simp add: assms(10))
  have 5: "success w pluginConfig ctx =
           (Inr (), s\<lparr>logs := logs s
              @ [Warn ''No files uploaded. The initial message was not updated.'']\<rparr>)"
    if "downloadLinks s = []"
  proof -
    from that have "try_block w ch cfg ctx initial_state =
        (Inr (), s\<lparr>logs := logs s
              @ [Warn ''No files uploaded. The initial message was not updated.'']\<rparr>)"
      using update_step_empty [of s w ch cfg ?nr ?b] by (simp add: t)
    then show ?thesis
      using success_try_returned [of w pluginConfig ctx] assms(1-5) by simp
  qed
  have 6: "try_block w ch cfg ctx initial_state = (Inl e, s\<lparr>calls := calls s @ [u]\<rparr>)"
    if "downloadLinks s \<noteq> []" "chat_update w (calls s) u = Inl e" for e
    using update_step_throws [of s w ch cfg ?nr ?b e] that by (simp add: t u)
  have 7: "(\<exists>e'. fst (success w pluginConfig ctx) = Inl e')
      \<and> (\<exists>cs. calls (snd (success w pluginConfig ctx)) = calls s @ [u] @ cs
            \<and> prefix cs (spec_recovery ch e (s\<lparr>calls := calls s @ [u]\<rparr>)))"
    if "downloadLinks s \<noteq> []" "chat_update w (calls s) u = Inl e" for e
  proof -
    have "try_block w (ToString (SLACK_CHANNEL w)) (read_settings pluginConfig ctx) ctx
        initial_state = (Inl e, s\<lparr>calls := calls s @ [u]\<rparr>)"
      using 6 [OF that] by (simp add: assms(1,2))
    from success_try_failed [OF assms(3,4) _ this] assms(5)
    have sc: "success w pluginConfig ctx =
        (Inl (fst (catch_block w ch e (s\<lparr>calls := calls s @ [u]\<rparr>))),
         snd (catch_block w ch e (s\<lparr>calls := calls s @ [u]\<rparr>)))"
      by (simp add: assms(1,2))
    from catch_block_calls [of w ch e "s\<lparr>calls := calls s @ [u]\<rparr>"]
    show ?thesis unfolding sc by simp
  qed
  from 1 2 3 4 8 5 6 7 nu show ?thesis by blast
qed

lemma anomalous_fields:
  "truthy (SLACK_TOKEN anomalous_world)" "truthy (SLACK_CHANNEL anomalous_world)"
  "ToString (SLACK_CHANNEL anomalous_world) = ''C01''"
  "chat_postMessage anomalous_world = chat_postMessage demo_world"
  by (simp_all add: anomalous_world_def demo_world_def truthy_simps ToString_def)

lemma anomalous_upload:
  "upload_loop anomalous_world ch [(''dist/app.bin'', ''Binary'')] s =
     (Inr (), s\<lparr>calls := calls s
                   @ [upload_call anomalous_world ch (''dist/app.bin'', ''Binary'') (threadTs s)],
               logs := logs s @ [Log ''Uploading Binary...'',
                                 LogError ''Failed to upload Binary.'']\<rparr>)"
proof -
  have e: "existsSync anomalous_world (path_resolve anomalous_world ''dist/app.bin'')"
    by (simp add: anomalous_world_def demo_world_def)
  have u: "files_uploadV2 anomalous_world (calls s)
        (upload_call anomalous_world ch (''dist/app.bin'', ''Binary'') (threadTs s))
      = Inr \<lparr>ok = False, files = None\<rparr>"
    by (simp add: anomalous_world_def)
  have f: "uploadedFile \<lparr>ok = False, files = None\<rparr> = None"
    by (simp add: uploadedFile_def)
  show ?thesis
    using upload_asset_anomalous [OF e u f] by simp
qed

theorem update_step_once_witness:
  "fst (success two_world two_config demo_context) = Inr ()
   \<and> calls (snd (success two_world two_config demo_context)) =
       [PostMessage ''C01''
          (formatMessage (read_settings two_config demo_context) demo_release
             (lastCommitBody (read_settings two_config demo_context) (commits demo_context)))
          None,
        upload_call two_world ''C01'' (''a.bin'', ''A'') (Some ''17.1''),
        upload_call two_world ''C01'' (''b.bin'', ''B'') (Some ''17.1''),
        ChatUpdate ''C01'' (Some ''17.1'')
          (formatMessage (read_settings two_config demo_context) demo_release
             (lastCommitBody (read_settings two_config demo_context) (commits demo_context))
           @ download_heading
           @ download_link ''A'' (uploaded_as ''A'') @ nl
           @ download_link ''B'' (uploaded_as ''B'') @ nl @ nl @ ''Bye'')]
   \<and> try_block first_update_fails_world ''C01'' (read_settings demo_config demo_context)
         demo_context initial_state
       = (Inl (Error ''update failed''),
          \<lparr>calls = [PostMessage ''C01''
               (formatMessage (read_settings demo_config demo_context) demo_release
                  (lastCommitBody (read_settings demo_config demo_context)
                     (commits demo_context))) None,
             upload_call first_update_fails_world ''C01'' (''dist/app.bin'', ''Binary'')
               (Some ''17.1''),
             ChatUpdate ''C01'' (Some ''17.1'')
               (formatMessage (read_settings demo_config demo_context) demo_release
                  (lastCommitBody (read_settings demo_config demo_context)
                     (commits demo_context))
                @ download_heading @ download_link ''Binary'' demo_file)],
           logs = [Log '':rocket: Initial release message sent: 17.1'',
                   Log ''Uploading Binary...'', Log ''Uploaded Binary: F1''],
           downloadLinks = [download_link ''Binary'' demo_file],
           initialMessage = Some \<lparr>ts = ''17.1'', message_text =
               formatMessage (read_settings demo_config demo_context) demo_release
                  (lastCommitBody (read_settings demo_config demo_context)
                     (commits demo_context))\<rparr>,
           threadTs = Some ''17.1''\<rparr>)
   \<and> fst (success anomalous_world demo_config demo_context) = Inr ()
   \<and> filter is_update (calls (snd (success anomalous_world demo_config demo_context))) = []"
proof -
  txt \<open>Two assets are uploaded and linked, and the last line is not empty.\<close>
  let ?cfg2 = "read_settings two_config demo_context"
  let ?body2 = "formatMessage ?cfg2 (nextRelease demo_context)
      (lastCommitBody ?cfg2 (commits demo_context))"
  let ?r2 = "\<lparr>ts = ''17.1'', message_text = ?body2\<rparr>"
  let ?st2 = "started ''C01'' ?cfg2 demo_context ?r2"
  let ?fin2 = "?st2\<lparr>calls := calls ?st2
                   @ [upload_call two_world ''C01'' (''a.bin'', ''A'') (threadTs ?st2),
                      upload_call two_world ''C01'' (''b.bin'', ''B'') (threadTs ?st2)],
               logs := logs ?st2 @ [Log ''Uploading A...'', Log ''Uploaded A: F-A'',
                                    Log ''Uploading B...'', Log ''Uploaded B: F-B''],
               downloadLinks := downloadLinks ?st2
                   @ [download_link ''A'' (uploaded_as ''A''),
                      download_link ''B'' (uploaded_as ''B'')]\<rparr>"
  let ?u2 = "ChatUpdate ''C01'' (Some (ts ?r2))
           (?body2 @ download_heading @ spec_unlines (downloadLinks ?fin2)
            @ (if lastLine ?cfg2 = [] then [] else nl @ nl @ lastLine ?cfg2))"
  have guard2: "\<not> (isPrerelease ?cfg2 \<and> \<not> prereleaseEnabled ?cfg2)"
    by (simp add: two_settings)
  have res2: "resolveAssets two_world (nextRelease demo_context) (rawAssets ?cfg2)
      = Inr [(''a.bin'', ''A''), (''b.bin'', ''B'')]"
    by (simp add: demo_run_facts two_settings two_resolved)
  have post2: "chat_postMessage two_world [] (initial_post ''C01'' ?cfg2 demo_context) = Inr ?r2"
    by (simp add: two_fields demo_posted)
  have up2: "upload_loop two_world ''C01''
      (Object_entries [(''a.bin'', ''A''), (''b.bin'', ''B'')]) ?st2 = (Inr (), ?fin2)"
    unfolding two_entries by (rule two_upload)
  note t2 = update_step_once [OF refl two_fields(3) [symmetric] two_fields(1,2) guard2 res2
      post2 up2 refl refl]
  have links2: "downloadLinks ?fin2 \<noteq> []"
    by simp
  have ret2: "chat_update two_world (calls ?fin2) ?u2 = Inr ()"
    by (rule two_fields(7))
  note r2 = t2 [THEN conjunct2, THEN conjunct1, rule_format, OF links2,
      THEN conjunct2, THEN conjunct2, THEN conjunct1, rule_format, OF ret2, THEN conjunct1]
  have a: "fst (success two_world two_config demo_context) = Inr ()
     \<and> calls (snd (success two_world two_config demo_context)) =
       [PostMessage ''C01'' ?body2 None,
        upload_call two_world ''C01'' (''a.bin'', ''A'') (Some ''17.1''),
        upload_call two_world ''C01'' (''b.bin'', ''B'') (Some ''17.1''),
        ChatUpdate ''C01'' (Some ''17.1'')
          (?body2 @ download_heading
           @ download_link ''A'' (uploaded_as ''A'') @ nl
           @ download_link ''B'' (uploaded_as ''B'') @ nl @ nl @ ''Bye'')]"
    unfolding r2 by (simp add: started_def initial_post_def two_settings nl_def)
  txt \<open>One asset is linked and the update call throws.\<close>
  let ?cfg = "read_settings demo_config demo_context"
  let ?body = "formatMessage ?cfg (nextRelease demo_context)
      (lastCommitBody ?cfg (commits demo_context))"
  let ?r = "\<lparr>ts = ''17.1'', message_text = ?body\<rparr>"
  let ?st = "started ''C01'' ?cfg demo_context ?r"
  let ?w = first_update_fails_world
  let ?fin = "?st\<lparr>calls := calls ?st
                   @ [upload_call ?w ''C01'' (''dist/app.bin'', ''Binary'') (threadTs ?st)],
               logs := logs ?st @ [Log (''Uploading '' @ ''Binary'' @ ''...''),
                  Log (''Uploaded '' @ ''Binary'' @ '': '' @ file_id demo_file)],
               downloadLinks := downloadLinks ?st @ [download_link ''Binary'' demo_file]\<rparr>"
  let ?u = "ChatUpdate ''C01'' (Some (ts ?r))
           (?body @ download_heading @ spec_unlines (downloadLinks ?fin)
            @ (if lastLine ?cfg = [] then [] else nl @ nl @ lastLine ?cfg))"
  have res1: "resolveAssets ?w (nextRelease demo_context) (rawAssets ?cfg)
      = Inr [(''dist/app.bin'', ''Binary'')]"
    by (simp add: demo_run_facts first_update_fails_resolved)
  have post1: "chat_postMessage ?w [] (initial_post ''C01'' ?cfg demo_context) = Inr ?r"
    by (simp add: first_update_fails_fields demo_posted)
  have up1: "upload_loop ?w ''C01'' (Object_entries [(''dist/app.bin'', ''Binary'')]) ?st
      = (Inr (), ?fin)"
    unfolding demo_entries
      upload_loop_step_ok [OF first_update_fails_fields(4) first_update_fails_fields(6)
        uploadedFile_examples(1)]
    by simp
  note t1 = update_step_once [OF refl first_update_fails_fields(3) [symmetric]
      first_update_fails_fields(1,2) demo_guard res1 post1 up1 refl refl]
  have links1: "downloadLinks ?fin \<noteq> []"
    by simp
  have nu1: "filter is_update (calls ?fin) = []"
    by (simp add: started_def initial_post_def upload_call_def)
  have thr1: "chat_update ?w (calls ?fin) ?u = Inl (Error ''update failed'')"
    unfolding first_update_fails_fields(7) nu1 by simp
  note r1 = t1 [THEN conjunct2, THEN conjunct1, rule_format, OF links1,
      THEN conjunct2, THEN conjunct2, THEN conjunct2, rule_format, OF thr1, THEN conjunct1]
  have ll: "lastLine ?cfg = []" by (simp add: demo_settings)
  have b: "try_block ?w ''C01'' ?cfg demo_context initial_state
       = (Inl (Error ''update failed''),
          \<lparr>calls = [PostMessage ''C01'' ?body None,
             upload_call ?w ''C01'' (''dist/app.bin'', ''Binary'') (Some ''17.1''),
             ChatUpdate ''C01'' (Some ''17.1'')
               (?body @ download_heading @ download_link ''Binary'' demo_file)],
           logs = [Log '':rocket: Initial release message sent: 17.1'',
                   Log ''Uploading Binary...'', Log ''Uploaded Binary: F1''],
           downloadLinks = [download_link ''Binary'' demo_file],
           initialMessage = Some ?r, threadTs = Some ''17.1''\<rparr>)"
    unfolding r1 by (simp add: started_def initial_post_def ll demo_file_def)
  txt \<open>The answer to the upload has not the full shape: no link, no update.\<close>
  let ?n = "?st\<lparr>calls := calls ?st
                   @ [upload_call anomalous_world ''C01'' (''dist/app.bin'', ''Binary'')
                        (threadTs ?st)],
               logs := logs ?st @ [Log ''Uploading Binary...'',
                                   LogError ''Failed to upload Binary.'']\<rparr>"
  have res': "resolveAssets anomalous_world (nextRelease demo_context) (rawAssets ?cfg)
      = Inr [(''dist/app.bin'', ''Binary'')]"
    by (simp add: demo_run_facts demo_resolved)
  have post': "chat_postMessage anomalous_world [] (initial_post ''C01'' ?cfg demo_context)
      = Inr ?r"
    by (simp add: anomalous_fields demo_posted)
  have up': "upload_loop anomalous_world ''C01'' (Object_entries [(''dist/app.bin'', ''Binary'')])
      ?st = (Inr (), ?n)"
    unfolding demo_entries by (rule anomalous_upload)
  note t' = update_step_once [OF refl anomalous_fields(3) [symmetric] anomalous_fields(1,2)
      demo_guard res' post' up' refl refl]
  have nolinks: "downloadLinks ?n = []"
    by (simp add: started_def)
  from t' nolinks
  have "success anomalous_world demo_config demo_context =
           (Inr (), ?n\<lparr>logs := logs ?n
              @ [Warn ''No files uploaded. The initial message was not updated.'']\<rparr>)
         \<and> filter is_update (calls ?n) = []"
    by blast
  then have c: "fst (success anomalous_world demo_config demo_context) = Inr ()
     \<and> filter is_update (calls (snd (success anomalous_world demo_config demo_context))) = []"
    by simp
  from a b c show ?thesis by (simp add: demo_run_facts)
qed

section \<open>The recovery: the claim\<close>

lemma upload_fails_fields:
  "truthy (SLACK_TOKEN upload_fails_world)" "truthy (SLACK_CHANNEL upload_fails_world)"
  "ToString (SLACK_CHANNEL upload_fails_world) = ''C01''"
  "chat_postMessage upload_fails_world = chat_postMessage demo_world"
  "existsSync upload_fails_world (path_resolve upload_fails_world ''dist/app.bin'')"
  "files_uploadV2 upload_fails_world h c = Inl (Error ''upload failed'')"
  "chat_update upload_fails_world h c = Inr ()"
  by (simp_all add: upload_fails_world_def demo_world_def truthy_simps ToString_def)

lemma reply_fails_fields:
  "truthy (SLACK_TOKEN reply_fails_world)" "truthy (SLACK_CHANNEL reply_fails_world)"
  "ToString (SLACK_CHANNEL reply_fails_world) = ''C01''"
  "chat_postMessage reply_fails_world h (initial_post ch cfg ctx) =
     Inr \<lparr>ts = ''17.1'',
          message_text = formatMessage cfg (nextRelease ctx) (lastCommitBody cfg (commits ctx))\<rparr>"
  "chat_postMessage reply_fails_world h (error_reply ch t e) = Inl (Error ''reply failed'')"
  "existsSync reply_fails_world (path_resolve reply_fails_world ''dist/app.bin'')"
  "files_uploadV2 reply_fails_world h c = Inl (Error ''upload failed'')"
  by (simp_all add: reply_fails_world_def upload_fails_world_def demo_world_def truthy_simps
      ToString_def initial_post_def error_reply_def)

lemma try_block_upload_throws:
  assumes "resolveAssets w (nextRelease ctx) (rawAssets cfg) = Inr [(p, l)]"
    and "Object_entries [(p, l)] = [(p, l)]"
    and "chat_postMessage w [] (initial_post ch cfg ctx) = Inr r"
    and "existsSync w (path_resolve w p)"
    and "files_uploadV2 w [initial_post ch cfg ctx] (upload_call w ch (p, l) (Some (ts r)))
           = Inl e"
  shows "try_block w ch cfg ctx initial_state =
     (Inl e, (started ch cfg ctx r)\<lparr>
        calls := [initial_post ch cfg ctx, upload_call w ch (p, l) (Some (ts r))],
        logs := [Log ('':rocket: Initial release message sent: '' @ ts r),
                 Log (''Uploading '' @ l @ ''...'')]\<rparr>)"
proof -
  let ?st = "started ch cfg ctx r"
  have "files_uploadV2 w (calls ?st) (upload_call w ch (p, l) (threadTs ?st)) = Inl e"
    using assms(5) by (simp add: started_def)
  from upload_asset_throws [OF assms(4) this]
  have "upload_loop w ch [(p, l)] ?st =
     (Inl e, ?st\<lparr>calls := [initial_post ch cfg ctx, upload_call w ch (p, l) (Some (ts r))],
        logs := [Log ('':rocket: Initial release message sent: '' @ ts r),
                 Log (''Uploading '' @ l @ ''...'')]\<rparr>)"
    by (simp add: started_def)
  then show ?thesis
    unfolding try_block_started [OF assms(1,3)] assms(2) by simp
qed

text \<open>
  C1, as stated, fails. The upload call throws and the reply in the thread, the first
  recovery action, throws too: what \<open>success\<close> throws is the error of the reply, not the
  error of the upload that left the \<open>try\<close> block, and the original message is not
  overwritten although the initial message exists.
\<close>

theorem failure_recovery_counterexample:
  "fst (try_block reply_fails_world ''C01'' (read_settings demo_config demo_context)
          demo_context initial_state) = Inl (Error ''upload failed'')
   \<and> initialMessage (snd (try_block reply_fails_world ''C01''
          (read_settings demo_config demo_context) demo_context initial_state)) \<noteq> None
   \<and> fst (success reply_fails_world demo_config demo_context) = Inl (Error ''reply failed'')
   \<and> filter is_update (calls (snd (success reply_fails_world demo_config demo_context))) = []"
proof -
  let ?cfg = "read_settings demo_config demo_context"
  let ?r = "\<lparr>ts = ''17.1'', message_text =
     formatMessage ?cfg (nextRelease demo_context) (lastCommitBody ?cfg (commits demo_context))\<rparr>"
  let ?st = "(started ''C01'' ?cfg demo_context ?r)\<lparr>
        calls := [initial_post ''C01'' ?cfg demo_context,
                  upload_call reply_fails_world ''C01'' (''dist/app.bin'', ''Binary'')
                    (Some (ts ?r))],
        logs := [Log ('':rocket: Initial release message sent: '' @ ts ?r),
                 Log (''Uploading '' @ ''Binary'' @ ''...'')]\<rparr>"
  have res: "resolveAssets reply_fails_world (nextRelease demo_context) (rawAssets ?cfg)
      = Inr [(''dist/app.bin'', ''Binary'')]"
    by (simp add: demo_run_facts demo_resolved)
  have t: "try_block reply_fails_world ''C01'' ?cfg demo_context initial_state
      = (Inl (Error ''upload failed''), ?st)"
    by (rule try_block_upload_throws [OF res demo_entries reply_fails_fields(4,6,7)])
  have th: "truthy (threadTs ?st)" "ToString (threadTs ?st) = ''17.1''"
    by (simp_all add: started_def truthy_simps ToString_def)
  have p: "chat_postMessage reply_fails_world (calls ?st)
        (error_reply ''C01'' (ToString (threadTs ?st)) (Error ''upload failed''))
      = Inl (Error ''reply failed'')"
    by (rule reply_fails_fields(5))
  have c: "catch_block reply_fails_world ''C01'' (Error ''upload failed'') ?st =
     (Error ''reply failed'',
      ?st\<lparr>calls := calls ?st @ [error_reply ''C01'' ''17.1'' (Error ''upload failed'')],
          logs := logs ?st @ [LogError (''Error during file upload or message update: ''
                      @ error_message (Error ''upload failed''))]\<rparr>)"
    by (rule catch_block_reply_throws [OF th(1) p, unfolded th(2)])
  have s: "success reply_fails_world demo_config demo_context =
     (Inl (fst (catch_block reply_fails_world ''C01'' (Error ''upload failed'') ?st)),
      snd (catch_block reply_fails_world ''C01'' (Error ''upload failed'') ?st))"
    using success_try_failed [OF reply_fails_fields(1,2) demo_guard, of "Error ''upload failed''" ?st]
      t by (simp add: reply_fails_fields(3))
  show ?thesis
    unfolding s c t
    by (simp add: started_def initial_post_def upload_call_def error_reply_def)
qed

text \<open>
  C1, amended. When the \<open>try\<close> block is left with an error \<open>e\<close> in the state \<open>s\<close>, \<open>success\<close>
  never returns normally. The calls it then makes are, in this order and as far as they
  go, the reply in the thread stating the error if a thread identifier exists, and the
  overwrite of the original message with the caution suffix if an initial message exists.
  If these calls return, both are made and \<open>success\<close> throws \<open>e\<close>. If the reply throws,
  \<open>success\<close> throws the error of the reply and the overwrite is not attempted; if the
  overwrite throws, \<open>success\<close> throws the error of the overwrite.
\<close>

theorem failure_recovery:
  assumes "cfg = read_settings pluginConfig ctx" and "ch = ToString (SLACK_CHANNEL w)"
    and "truthy (SLACK_TOKEN w)" and "truthy (SLACK_CHANNEL w)"
    and "\<not> (isPrerelease cfg \<and> \<not> prereleaseEnabled cfg)"
    and "try_block w ch cfg ctx initial_state = (Inl e, s)"
    and "reply = (if truthy (threadTs s)
                  then [error_reply ch (ToString (threadTs s)) e] else [])"
  shows "(\<exists>e'. fst (success w pluginConfig ctx) = Inl e')
    \<and> (\<exists>cs. calls (snd (success w pluginConfig ctx)) = calls s @ cs
             \<and> prefix cs (spec_recovery ch e s))
    \<and> spec_recovery ch e s
        = reply @ (case initialMessage s of None \<Rightarrow> [] | Some m \<Rightarrow> [caution_update ch m])
    \<and> (all_return w (calls s) (spec_recovery ch e s) \<longrightarrow>
          success w pluginConfig ctx =
            (Inl e, s\<lparr>calls := calls s @ spec_recovery ch e s,
                       logs := logs s @ [LogError (''Error during file upload or message update: ''
                                 @ error_message e)]\<rparr>))
    \<and> (\<forall>e1. truthy (threadTs s)
             \<and> chat_postMessage w (calls s) (error_reply ch (ToString (threadTs s)) e) = Inl e1
          \<longrightarrow> fst (success w pluginConfig ctx) = Inl e1
              \<and> calls (snd (success w pluginConfig ctx)) = calls s @ reply)
    \<and> (\<forall>e2 m. all_return w (calls s) reply \<and> initialMessage s = Some m
             \<and> chat_update w (calls s @ reply) (caution_update ch m) = Inl e2
          \<longrightarrow> fst (success w pluginConfig ctx) = Inl e2
              \<and> calls (snd (success w pluginConfig ctx))
                  = calls s @ reply @ [caution_update ch m])"
proof -
  have s: "success w pluginConfig ctx =
     (Inl (fst (catch_block w ch e s)), snd (catch_block w ch e s))"
    using success_try_failed [of w pluginConfig ctx e s] assms(1-6) by simp
  have 1: "\<exists>e'. fst (success w pluginConfig ctx) = Inl e'"
    by (simp add: s)
  have 2: "\<exists>cs. calls (snd (success w pluginConfig ctx)) = calls s @ cs
             \<and> prefix cs (spec_recovery ch e s)"
    using catch_block_calls [of w ch e s] by (simp add: s)
  have 3: "spec_recovery ch e s
        = reply @ (case initialMessage s of None \<Rightarrow> [] | Some m \<Rightarrow> [caution_update ch m])"
    by (simp add: spec_recovery_def assms(7))
  have 4: "success w pluginConfig ctx =
            (Inl e, s\<lparr>calls := calls s @ spec_recovery ch e s,
                       logs := logs s @ [LogError (''Error during file upload or message update: ''
                                 @ error_message e)]\<rparr>)"
    if "all_return w (calls s) (spec_recovery ch e s)"
    using catch_block_all_return [OF that] by (simp add: s)
  have 5: "fst (success w pluginConfig ctx) = Inl e1
              \<and> calls (snd (success w pluginConfig ctx)) = calls s @ reply"
    if "truthy (threadTs s)
             \<and> chat_postMessage w (calls s) (error_reply ch (ToString (threadTs s)) e) = Inl e1"
    for e1
    using that catch_block_reply_throws [of s w ch e e1] by (simp add: s assms(7))
  have 6: "fst (success w pluginConfig ctx) = Inl e2
              \<and> calls (snd (success w pluginConfig ctx))
                  = calls s @ reply @ [caution_update ch m]"
    if "all_return w (calls s) reply \<and> initialMessage s = Some m
             \<and> chat_update w (calls s @ reply) (caution_update ch m) = Inl e2"
    for e2 m
    using that catch_block_update_throws [of w s ch e m e2]
    by (simp add: s assms(7) spec_recovery_def)
  from 1 2 3 4 5 6 show ?thesis by blast
qed

theorem failure_recovery_witness:
  "fst (try_block upload_fails_world ''C01'' (read_settings demo_config demo_context)
          demo_context initial_state) = Inl (Error ''upload failed'')
   \<and> fst (success upload_fails_world demo_config demo_context) = Inl (Error ''upload failed'')
   \<and> calls (snd (success upload_fails_world demo_config demo_context)) =
       [initial_post ''C01'' (read_settings demo_config demo_context) demo_context,
        upload_call upload_fails_world ''C01'' (''dist/app.bin'', ''Binary'') (Some ''17.1''),
        error_reply ''C01'' ''17.1'' (Error ''upload failed''),
        caution_update ''C01'' \<lparr>ts = ''17.1'', message_text =
          formatMessage (read_settings demo_config demo_context) (nextRelease demo_context)
            (lastCommitBody (read_settings demo_config demo_context) (commits demo_context))\<rparr>]"
proof -
  let ?cfg = "read_settings demo_config demo_context"
  let ?r = "\<lparr>ts = ''17.1'', message_text =
     formatMessage ?cfg (nextRelease demo_context) (lastCommitBody ?cfg (commits demo_context))\<rparr>"
  let ?st = "(started ''C01'' ?cfg demo_context ?r)\<lparr>
        calls := [initial_post ''C01'' ?cfg demo_context,
                  upload_call upload_fails_world ''C01'' (''dist/app.bin'', ''Binary'')
                    (Some (ts ?r))],
        logs := [Log ('':rocket: Initial release message sent: '' @ ts ?r),
                 Log (''Uploading '' @ ''Binary'' @ ''...'')]\<rparr>"
  let ?e = "Error ''upload failed''"
  have res: "resolveAssets upload_fails_world (nextRelease demo_context) (rawAssets ?cfg)
      = Inr [(''dist/app.bin'', ''Binary'')]"
    by (simp add: demo_run_facts demo_resolved)
  have post: "chat_postMessage upload_fails_world [] (initial_post ''C01'' ?cfg demo_context)
      = Inr ?r"
    by (simp add: upload_fails_fields(4) demo_posted)
  have t: "try_block upload_fails_world ''C01'' ?cfg demo_context initial_state = (Inl ?e, ?st)"
    by (rule try_block_upload_throws [OF res demo_entries post upload_fails_fields(5,6)])
  have rec: "spec_recovery ''C01'' ?e ?st
      = [error_reply ''C01'' ''17.1'' ?e, caution_update ''C01'' ?r]"
    by (simp add: spec_recovery_def started_def truthy_simps ToString_def)
  have ret: "all_return upload_fails_world (calls ?st) (spec_recovery ''C01'' ?e ?st)"
    unfolding rec
    by (simp add: returns_error_reply returns_caution_update upload_fails_fields(4,7)
        demo_replied)
  note th = failure_recovery [OF refl upload_fails_fields(3) [symmetric]
      upload_fails_fields(1,2) demo_guard t refl]
  have "success upload_fails_world demo_config demo_context =
            (Inl ?e, ?st\<lparr>calls := calls ?st
                         @ [error_reply ''C01'' ''17.1'' ?e, caution_update ''C01'' ?r],
                       logs := logs ?st @ [LogError (''Error during file upload or message update: ''
                                 @ error_message ?e)]\<rparr>)"
    by (rule th [THEN conjunct2, THEN conjunct2, THEN conjunct2, THEN conjunct1,
        rule_format, OF ret, unfolded rec])
  then have "fst (success upload_fails_world demo_config demo_context) = Inl ?e
     \<and> calls (snd (success upload_fails_world demo_config demo_context)) =
       [initial_post ''C01'' ?cfg demo_context,
        upload_call upload_fails_world ''C01'' (''dist/app.bin'', ''Binary'') (Some ''17.1''),
        error_reply ''C01'' ''17.1'' ?e, caution_update ''C01'' ?r]"
    by simp
  with t show ?thesis by simp
qed

end
